(* ===== verification/Prelude.thy ===== *)
theory Prelude
  imports Main "HOL-Library.Word" "HOL-Library.Sublist" "HOL-Library.Multiset"
begin

text \<open>
  What every theory of the development shares.

  A Go function that talks to the outside world is a function of the world that either returns
  a value and the next world (\<open>Ret\<close>) or panics, leaving the world as it was at that moment
  (\<open>Panic\<close>). \<open>go_bind\<close> runs two such functions in order. Go errors that are returned are ordinary
  values of type \<open>error\<close>; a nil slice is told apart from an empty one, because
  \<open>reflect.DeepEqual\<close> tells them apart.
\<close>

named_theorems go_simps
  \<open>evaluation rules of the Go computations\<close>

named_theorems emits_intros
  \<open>composition rules for the effects that a computation may have\<close>

section \<open>Go computations\<close>

datatype panic = NilDereference | FailedTypeAssertion | IndexOutOfRange

datatype ('a, 'w) run = Ret 'a 'w | Panic panic 'w

type_synonym ('w, 'a) go = "'w \<Rightarrow> ('a, 'w) run"

abbreviation ret :: "'a \<Rightarrow> ('w, 'a) go" where
  "ret \<equiv> Ret"

definition go_bind :: "('w, 'a) go \<Rightarrow> ('a \<Rightarrow> ('w, 'b) go) \<Rightarrow> ('w, 'b) go" where
  "go_bind m f w = (case m w of Ret x w' \<Rightarrow> f x w' | Panic p w' \<Rightarrow> Panic p w')"

text \<open>Reading through a pointer.\<close>

definition deref :: "'a option \<Rightarrow> ('w, 'a) go" where
  "deref p w = (case p of None \<Rightarrow> Panic NilDereference w | Some x \<Rightarrow> Ret x w)"

abbreviation panics :: "panic \<Rightarrow> ('w, 'a) go" where
  "panics \<equiv> Panic"

text \<open>
  Running \<open>m\<close> with a deferred call pending: a panic is held back as a value, so that the deferred
  call can run before the panic goes on.
\<close>

definition attempt :: "('w, 'a) go \<Rightarrow> ('w, panic + 'a) go" where
  "attempt m w = (case m w of Ret x w' \<Rightarrow> Ret (Inr x) w' | Panic p w' \<Rightarrow> Ret (Inl p) w')"

definition resume :: "panic + 'a \<Rightarrow> ('w, 'a) go" where
  "resume r = (case r of Inl p \<Rightarrow> panics p | Inr x \<Rightarrow> ret x)"

primrec final_world :: "('a, 'w) run \<Rightarrow> 'w" where
  "final_world (Ret x w) = w"
| "final_world (Panic p w) = w"

primrec returned :: "('a, 'w) run \<Rightarrow> 'a option" where
  "returned (Ret x w) = Some x"
| "returned (Panic p w) = None"

lemma deref_run [simp, go_simps]:
  "deref (Some x) w = Ret x w"
  "deref None w = Panic NilDereference w"
  by (simp_all add: deref_def)

lemma go_bind_Ret [go_simps]: "m w = Ret x w' \<Longrightarrow> go_bind m f w = f x w'"
  by (simp add: go_bind_def)

lemma go_bind_Panic [go_simps]: "m w = Panic p w' \<Longrightarrow> go_bind m f w = Panic p w'"
  by (simp add: go_bind_def)

lemma go_bind_ret [simp, go_simps]: "go_bind (ret x) f = f x"
  by (simp add: go_bind_def fun_eq_iff)

lemma go_bind_panics [simp, go_simps]: "go_bind (panics p) f = panics p"
  by (simp add: go_bind_def fun_eq_iff)

lemma go_bind_to_ret [simp]: "go_bind m ret = m"
  by (simp add: go_bind_def fun_eq_iff split: run.splits)

lemma go_bind_assoc: "go_bind (go_bind m f) g = go_bind m (\<lambda>x. go_bind (f x) g)"
  by (simp add: go_bind_def fun_eq_iff split: run.splits)

lemma go_bind_if: "go_bind (if b then m else n) f = (if b then go_bind m f else go_bind n f)"
  by simp

lemma go_bind_Ret_iff:
  "go_bind m f w = Ret y w'' \<longleftrightarrow> (\<exists>x w'. m w = Ret x w' \<and> f x w' = Ret y w'')"
  by (simp add: go_bind_def split: run.splits)

lemma go_bind_RetE:
  assumes "go_bind m f w = Ret y w''"
  obtains x w' where "m w = Ret x w'" and "f x w' = Ret y w''"
  using assms by (auto simp: go_bind_Ret_iff)

lemma final_world_attempt [simp]: "final_world (attempt m w) = final_world (m w)"
  by (cases "m w") (simp_all add: attempt_def)

lemma returned_iff: "returned r = Some x \<longleftrightarrow> (\<exists>w. r = Ret x w)"
  by (cases r) auto

section \<open>Errors and slices\<close>

text \<open>
  An error value is made by code outside the repository (\<open>External\<close>, an opaque value that
  only that code can look into), by \<open>fmt.Errorf\<close>, or is the webhook's \<open>validationError\<close>.
\<close>

datatype error = External string | Errorf string | ValidationError string

type_synonym 'a slice = "'a list option"

definition elems :: "'a slice \<Rightarrow> 'a list" where
  "elems s = (case s of None \<Rightarrow> [] | Some xs \<Rightarrow> xs)"

lemma elems_simps [simp]: "elems None = []" "elems (Some xs) = xs"
  by (simp_all add: elems_def)

type_synonym int32 = "32 word"
type_synonym goint = "64 word"

section \<open>Decimal numbers\<close>

text \<open>\<open>strconv.Itoa\<close> and the \<open>%v\<close> verb on an integer.\<close>

fun digits_of :: "nat \<Rightarrow> string" where
  "digits_of n =
     (if n < 10 then [char_of (48 + n)] else digits_of (n div 10) @ [char_of (48 + n mod 10)])"

declare digits_of.simps [simp del]

definition itoa :: "int \<Rightarrow> string" where
  "itoa i = (if i < 0 then CHR ''-'' # digits_of (nat (- i)) else digits_of (nat i))"

section \<open>Lists and strings\<close>

lemma prefix_append_common [simp]: "prefix (xs @ ys) (xs @ zs) \<longleftrightarrow> prefix ys zs"
  by (induction xs) auto

lemma not_prefix_first: "xs \<noteq> [] \<Longrightarrow> ys \<noteq> [] \<Longrightarrow> hd xs \<noteq> hd ys \<Longrightarrow> \<not> prefix xs (ys @ zs)"
  by (cases xs; cases ys) auto

lemma length_filter_submset:
  assumes "set q \<subseteq> A" and "mset q \<subseteq># mset p"
  shows "length q \<le> length (filter (\<lambda>x. x \<in> A) p)"
proof -
  have "filter_mset (\<lambda>x. x \<in> A) (mset q) = mset q"
    using assms(1) by (auto simp: filter_mset_eq_conv)
  then have "mset q \<subseteq># mset (filter (\<lambda>x. x \<in> A) p)"
    using multiset_filter_mono [OF assms(2), of "\<lambda>x. x \<in> A"] by (simp add: mset_filter)
  then show ?thesis by (metis size_mset size_mset_mono)
qed

lemma list_all_filter_None: "list_all (\<lambda>x. \<not> P x) xs \<Longrightarrow> filter P xs = []"
  by (induction xs) auto

end
