(* ===== verification/Api_Types.thy ===== *)
theory Api_Types
  imports Prelude
begin

text \<open>
  The data of the operator: the custom resources of \<open>api/v1alpha1\<close> (\<open>AdminConnection\<close>,
  \<open>Database\<close>, \<open>DatabaseUser\<close>), the rows of \<open>orm/model.go\<close>, and the fields of the Kubernetes
  objects that the code reads or writes. A pointer is an option, a slice whose nilness the code
  can see is a \<open>slice\<close>, a Go map that is only looked up is an association list.
\<close>

section \<open>Kubernetes objects\<close>

type_synonym uid = string
type_synonym time = nat

record NamespacedName =
  nn_Namespace :: string
  nn_Name :: string

record OwnerReference =
  or_UID :: uid
  or_Controller :: "bool option"

record ObjectMeta =
  om_Name :: string
  om_Namespace :: string
  om_UID :: uid
  om_ResourceVersion :: string
  om_DeletionTimestamp :: "time option"
  om_Finalizers :: "string list"
  om_OwnerReferences :: "OwnerReference slice"

record Secret =
  sec_Meta :: ObjectMeta
  sec_Data :: "(string \<times> string) list"

record SecretKeySelector =
  sel_Name :: string
  sel_Key :: string

section \<open>Shared parts (common.go)\<close>

record AdminConnectionRef =
  acr_Namespace :: string
  acr_Name :: string

record SecretKeySource =
  sks_SecretKeyRef :: SecretKeySelector

section \<open>AdminConnection (adminconnection\_types.go)\<close>

record Collation =
  coll_Name :: string
  coll_Default :: bool

record Charset =
  cs_Name :: string
  cs_Collations :: "Collation list"

record AdminConnectionSpec =
  acs_Host :: string
  acs_Port :: int32
  acs_AdminUser :: "SecretKeySource option"
  acs_AdminPassword :: "SecretKeySource option"
  acs_AllowedNamespaces :: "string list"

record AdminConnectionStatus =
  acst_SyncTime :: "time option"
  acst_Message :: string
  acst_ControlDatabase :: string
  acst_CharacterSet :: string
  acst_Collation :: string
  acst_AvailableCharsets :: "Charset list"

record AdminConnection =
  ac_Meta :: ObjectMeta
  ac_Spec :: AdminConnectionSpec
  ac_Status :: AdminConnectionStatus

section \<open>Database (database\_types.go)\<close>

record DatabaseSpec =
  ds_AdminConnection :: AdminConnectionRef
  ds_Name :: string
  ds_CharacterSet :: string
  ds_Collate :: string

record DatabaseStatus =
  dst_CreationTime :: "time option"
  dst_SyncTime :: "time option"
  dst_CharacterSet :: string
  dst_Collate :: string
  dst_Message :: string
  dst_Name :: string
  dst_Host :: string
  dst_Port :: int32

record Database =
  db_Meta :: ObjectMeta
  db_Spec :: DatabaseSpec
  db_Status :: DatabaseStatus

section \<open>DatabaseUser (databaseuser\_types.go)\<close>

record DatabasePermission =
  dp_Name :: string
  dp_Grants :: "string slice"

record Identification =
  id_AuthPlugin :: string
  id_AuthString :: "SecretKeySource option"
  id_ClearText :: bool

record TlsOptions =
  tls_Required :: bool

record DatabaseUserSpec =
  us_AdminConnection :: AdminConnectionRef
  us_Username :: string
  us_Identification :: "Identification option"
  us_DatabaseList :: "DatabasePermission slice"
  us_TlsOptions :: TlsOptions

record DatabaseUserStatus =
  ust_CreationTime :: "time option"
  ust_SyncTime :: "time option"
  ust_Message :: string
  ust_Username :: string
  ust_DatabaseList :: "DatabasePermission slice"
  ust_Grants :: "string slice"
  ust_Identification :: "Identification option"
  ust_IdentificationResourceVersion :: string
  ust_TlsOptions :: TlsOptions

record DatabaseUser =
  du_Meta :: ObjectMeta
  du_Spec :: DatabaseUserSpec
  du_Status :: DatabaseUserStatus

text \<open>\<open>PermissionListEqual\<close>: the lengths first, then \<open>reflect.DeepEqual\<close> on the two slices.\<close>

definition PermissionListEqual :: "DatabaseUser \<Rightarrow> bool" where
  "PermissionListEqual r =
     (if length (elems (ust_Grants (du_Status r))) \<noteq> length (elems (us_DatabaseList (du_Spec r)))
      then False
      else us_DatabaseList (du_Spec r) = ust_DatabaseList (du_Status r))"

section \<open>Rows (orm/model.go)\<close>

definition DatabaseName :: string where
  "DatabaseName = ''zz_dba_operator''"

record ManagedDatabase =
  md_Uuid :: string
  md_Namespace :: string
  md_Name :: string
  md_DatabaseName :: string

record ManagedUser =
  mu_Uuid :: string
  mu_Namespace :: string
  mu_Name :: string
  mu_Username :: string

record DatabaseSchema =
  sch_SchemaName :: string
  sch_DefaultCharacterSet :: string
  sch_DefaultCollation :: string

record MySqlUser =
  mysql_Host :: string
  mysql_User :: string
  mysql_Plugin :: string

record MySqlDb =
  mydb_Host :: string
  mydb_User :: string
  mydb_Db :: string

definition zero_ManagedDatabase :: ManagedDatabase where
  "zero_ManagedDatabase = \<lparr>md_Uuid = [], md_Namespace = [], md_Name = [], md_DatabaseName = []\<rparr>"

definition zero_ManagedUser :: ManagedUser where
  "zero_ManagedUser = \<lparr>mu_Uuid = [], mu_Namespace = [], mu_Name = [], mu_Username = []\<rparr>"

text \<open>
  A row of a raw query is a Go map from column names to values; it is given as the list of its
  entries in the order in which a \<open>range\<close> loop over the map visits them. A value that is neither a
  string nor nil is known only by what the \<open>%v\<close> verb prints for it.
\<close>

datatype column_value = VString string | VNil | VOther string

type_synonym row = "(string \<times> column_value) list"

end
