(* ===== verification/Environment.thy ===== *)
theory Environment
  imports Api_Types
begin

text \<open>
  The outside of the operator and the state the operator keeps.

  The code under verification calls code that is not in the repository: the Kubernetes client
  of controller-runtime, gorm with the MySQL driver, \<open>controllerutil\<close> and
  \<open>apimachinery\<close>. Each of these calls is a field of the record \<open>env\<close>, a parameter of every definition that makes
  the call; nothing is assumed about it unless a theorem says so. A call that reaches outside the
  process takes and returns the outside state \<open>'s\<close> (the API server, the MySQL servers, the
  clock, the random source, the map iteration order of the Go runtime).

  The world of a computation holds that outside state, the connection cache that
  \<open>main.go\<close> shares between the reconcilers (\<open>orm/cache.go\<close>), and \<open>effects\<close>: the requests
  that can change something outside, in the order in which the code issued them. No definition
  reads \<open>effects\<close>; it is there for the theorems.
\<close>

section \<open>Connections\<close>

type_synonym gormdb = nat
type_synonym sqldb = nat

text \<open>The fields of \<open>mysql.Config\<close> that the operator sets; the others keep their zero value.\<close>

record MysqlConfig =
  cfg_Net :: string
  cfg_DBName :: string
  cfg_ParseTime :: bool
  cfg_AllowNativePasswords :: bool
  cfg_TLSConfig :: string
  cfg_Addr :: string
  cfg_User :: string
  cfg_Passwd :: string

record ConnectionDefinition =
  cd_Config :: MysqlConfig
  cd_DB :: gormdb

text \<open>What a gorm call that runs a statement returns: a handle to go on with, and its error.\<close>

record gorm_tx =
  tx_DB :: gormdb
  tx_Error :: "error option"

section \<open>The environment\<close>

record 's env =
  k_get_AdminConnection :: "NamespacedName \<Rightarrow> 's \<Rightarrow> (error + AdminConnection) \<times> 's"
  k_get_Database :: "NamespacedName \<Rightarrow> 's \<Rightarrow> (error + Database) \<times> 's"
  k_get_DatabaseUser :: "NamespacedName \<Rightarrow> 's \<Rightarrow> (error + DatabaseUser) \<times> 's"
  k_get_Secret :: "NamespacedName \<Rightarrow> 's \<Rightarrow> (error + Secret) \<times> 's"
  k_list_Databases :: "string \<Rightarrow> 's \<Rightarrow> (error + Database list) \<times> 's"
  k_list_DatabaseUsers :: "string \<Rightarrow> 's \<Rightarrow> (error + DatabaseUser list) \<times> 's"
  k_update_Database :: "Database \<Rightarrow> 's \<Rightarrow> error option \<times> 's"
  k_update_DatabaseUser :: "DatabaseUser \<Rightarrow> 's \<Rightarrow> error option \<times> 's"
  k_update_Secret :: "Secret \<Rightarrow> 's \<Rightarrow> error option \<times> 's"
  k_status_AdminConnection :: "AdminConnection \<Rightarrow> 's \<Rightarrow> error option \<times> 's"
  k_status_Database :: "Database \<Rightarrow> 's \<Rightarrow> error option \<times> 's"
  k_status_DatabaseUser :: "DatabaseUser \<Rightarrow> 's \<Rightarrow> error option \<times> 's"
  k_create_Secret :: "Secret \<Rightarrow> 's \<Rightarrow> (Secret \<times> error option) \<times> 's"
  is_not_found :: "error \<Rightarrow> bool"
  contains_finalizer :: "string list \<Rightarrow> string \<Rightarrow> bool"
  add_finalizer :: "string list \<Rightarrow> string \<Rightarrow> string list"
  remove_finalizer :: "string list \<Rightarrow> string \<Rightarrow> string list"
  set_controller_reference :: "DatabaseUser \<Rightarrow> Secret \<Rightarrow> Secret \<times> error option"
  format_dsn :: "MysqlConfig \<Rightarrow> string"
  sql_open :: "string \<Rightarrow> 's \<Rightarrow> (error + sqldb) \<times> 's"
  sql_ping :: "sqldb \<Rightarrow> 's \<Rightarrow> error option \<times> 's"
  sql_close :: "sqldb \<Rightarrow> 's \<Rightarrow> error option \<times> 's"
  gorm_open :: "sqldb \<Rightarrow> 's \<Rightarrow> (error + gormdb) \<times> 's"
  gorm_sql :: "gormdb \<Rightarrow> 's \<Rightarrow> (error + sqldb) \<times> 's"
  gorm_automigrate :: "gormdb \<Rightarrow> 's \<Rightarrow> error option \<times> 's"
  gorm_exec :: "gormdb \<Rightarrow> string \<Rightarrow> 's \<Rightarrow> gorm_tx \<times> 's"
  gorm_raw_scan :: "gormdb \<Rightarrow> string \<Rightarrow> 's \<Rightarrow> (row list \<times> error option) \<times> 's"
  gorm_first_schema :: "gormdb \<Rightarrow> string \<Rightarrow> 's \<Rightarrow> DatabaseSchema \<times> 's"
  gorm_first_user :: "gormdb \<Rightarrow> string \<Rightarrow> 's \<Rightarrow> MySqlUser \<times> 's"
  gorm_find_ManagedDatabase :: "gormdb \<Rightarrow> ManagedDatabase \<Rightarrow> uid \<Rightarrow> 's \<Rightarrow> ManagedDatabase \<times> 's"
  gorm_find_ManagedUser :: "gormdb \<Rightarrow> ManagedUser \<Rightarrow> uid \<Rightarrow> 's \<Rightarrow> ManagedUser \<times> 's"
  gorm_create_ManagedDatabase :: "gormdb \<Rightarrow> ManagedDatabase \<Rightarrow> 's \<Rightarrow> gorm_tx \<times> 's"
  gorm_save_ManagedUser :: "gormdb \<Rightarrow> ManagedUser \<Rightarrow> 's \<Rightarrow> gorm_tx \<times> 's"
  gorm_delete_ManagedDatabase :: "gormdb \<Rightarrow> uid \<Rightarrow> 's \<Rightarrow> unit \<times> 's"
  gorm_delete_ManagedUser :: "gormdb \<Rightarrow> uid \<Rightarrow> 's \<Rightarrow> unit \<times> 's"
  gorm_commit :: "gormdb \<Rightarrow> 's \<Rightarrow> unit \<times> 's"
  now :: "'s \<Rightarrow> time \<times> 's"
  rand_int :: "nat \<Rightarrow> 's \<Rightarrow> nat option \<times> 's"
  map_order :: "string list \<Rightarrow> 's \<Rightarrow> string list \<times> 's"
  unicode_to_upper :: "string \<Rightarrow> string"

text \<open>
  Documented behaviour of the two finalizer helpers, as a hypothesis for the theorems that need
  it: removing a finalizer leaves the others and makes \<open>ContainsFinalizer\<close> false, adding one makes it
  true.
\<close>

definition finalizers_ok :: "'s env \<Rightarrow> bool" where
  "finalizers_ok E \<longleftrightarrow>
     (\<forall>fs f. contains_finalizer E fs f = (f \<in> set fs)) \<and>
     (\<forall>fs f. set (add_finalizer E fs f) = insert f (set fs)) \<and>
     (\<forall>fs f. set (remove_finalizer E fs f) = set fs - {f})"

section \<open>Effects\<close>

datatype effect =
    Exec gormdb string
  | CreateManagedDatabase gormdb ManagedDatabase
  | SaveManagedUser gormdb ManagedUser
  | DeleteManagedDatabase gormdb uid
  | DeleteManagedUser gormdb uid
  | Commit gormdb
  | AutoMigrate gormdb
  | OpenConnection string
  | CloseConnection sqldb
  | UpdateDatabase Database
  | UpdateDatabaseUser DatabaseUser
  | UpdateSecret Secret
  | CreateSecret Secret
  | StatusAdminConnection AdminConnection
  | StatusDatabase Database
  | StatusDatabaseUser DatabaseUser

record 's world =
  ext :: 's
  connections :: "uid \<rightharpoonup> ConnectionDefinition"
  effects :: "effect list"

text \<open>The statements sent to a MySQL server, in order.\<close>

fun exec_statements :: "effect list \<Rightarrow> string list" where
  "exec_statements [] = []"
| "exec_statements (Exec h q # es) = q # exec_statements es"
| "exec_statements (_ # es) = exec_statements es"

lemma exec_statements_append [simp]:
  "exec_statements (xs @ ys) = exec_statements xs @ exec_statements ys"
  by (induction xs rule: exec_statements.induct) auto

text \<open>A call that only reads, and a call that can change something outside.\<close>

definition ask :: "('s \<Rightarrow> 'r \<times> 's) \<Rightarrow> ('s world, 'r) go" where
  "ask f w = (let (r, s) = f (ext w) in Ret r (w\<lparr>ext := s\<rparr>))"

definition perform :: "effect \<Rightarrow> ('s \<Rightarrow> 'r \<times> 's) \<Rightarrow> ('s world, 'r) go" where
  "perform e f w =
     (let (r, s) = f (ext w) in Ret r (w\<lparr>ext := s, effects := effects w @ [e]\<rparr>))"

text \<open>The connection cache.\<close>

definition cache_lookup :: "uid \<Rightarrow> ('s world, ConnectionDefinition option) go" where
  "cache_lookup u w = Ret (connections w u) w"

definition cache_delete :: "uid \<Rightarrow> ('s world, unit) go" where
  "cache_delete u w = Ret () (w\<lparr>connections := (connections w)(u := None)\<rparr>)"

definition cache_store :: "uid \<Rightarrow> ConnectionDefinition \<Rightarrow> ('s world, unit) go" where
  "cache_store u c w = Ret () (w\<lparr>connections := (connections w)(u \<mapsto> c)\<rparr>)"

lemma ask_run [go_simps]:
  "f (ext w) = (r, s) \<Longrightarrow> ask f w = Ret r (w\<lparr>ext := s\<rparr>)"
  by (simp add: ask_def)

lemma perform_run [go_simps]:
  "f (ext w) = (r, s) \<Longrightarrow> perform e f w = Ret r (w\<lparr>ext := s, effects := effects w @ [e]\<rparr>)"
  by (simp add: perform_def)

lemma bind_ask:
  "go_bind (ask f) g w = g (fst (f (ext w))) (w\<lparr>ext := snd (f (ext w))\<rparr>)"
  by (simp add: go_bind_def ask_def split_beta)

lemma bind_perform:
  "go_bind (perform e f) g w =
     g (fst (f (ext w))) (w\<lparr>ext := snd (f (ext w)), effects := effects w @ [e]\<rparr>)"
  by (simp add: go_bind_def perform_def split_beta)

lemma bind_cache_lookup: "go_bind (cache_lookup u) g w = g (connections w u) w"
  by (simp add: go_bind_def cache_lookup_def)

lemma bind_cache_delete:
  "go_bind (cache_delete u) g w = g () (w\<lparr>connections := (connections w)(u := None)\<rparr>)"
  by (simp add: go_bind_def cache_delete_def)

lemma bind_cache_store:
  "go_bind (cache_store u c) g w = g () (w\<lparr>connections := (connections w)(u \<mapsto> c)\<rparr>)"
  by (simp add: go_bind_def cache_store_def)

lemma bind_deref_Some [simp]: "go_bind (deref (Some x)) g = g x"
  by (simp add: go_bind_def fun_eq_iff)

lemma bind_deref_None [simp]: "go_bind (deref None) g = panics NilDereference"
  by (simp add: go_bind_def fun_eq_iff)

lemmas bind_runs = bind_ask bind_perform bind_cache_lookup bind_cache_delete bind_cache_store

section \<open>What a computation may do\<close>

text \<open>
  \<open>emits P m\<close>: whatever the outside answers, every effect that \<open>m\<close> adds satisfies \<open>P\<close>, whether
  \<open>m\<close> returns or panics, and the effects before it stay. With \<open>P\<close> false everywhere, \<open>m\<close>
  only observes. The rules below compose along the code.
\<close>

definition emits :: "(effect \<Rightarrow> bool) \<Rightarrow> ('s world, 'a) go \<Rightarrow> bool" where
  "emits P m \<longleftrightarrow>
     (\<forall>w. \<exists>es. effects (final_world (m w)) = effects w @ es \<and> list_all P es)"

text \<open>The computation leaves the connection cache alone.\<close>

definition keeps_connections :: "('s world, 'a) go \<Rightarrow> bool" where
  "keeps_connections m \<longleftrightarrow> (\<forall>w. connections (final_world (m w)) = connections w)"

definition observes :: "('s world, 'a) go \<Rightarrow> bool" where
  "observes m \<longleftrightarrow> emits (\<lambda>_. False) m \<and> keeps_connections m"

text \<open>The computation returns, whatever the outside answers.\<close>

definition never_panics :: "('s world, 'a) go \<Rightarrow> bool" where
  "never_panics m \<longleftrightarrow> (\<forall>w. returned (m w) \<noteq> None)"

lemma emitsD:
  "emits P m \<Longrightarrow> \<exists>es. effects (final_world (m w)) = effects w @ es \<and> list_all P es"
  by (simp add: emits_def)

lemma emits_mono: "emits P m \<Longrightarrow> (\<And>e. P e \<Longrightarrow> Q e) \<Longrightarrow> emits Q m"
  unfolding emits_def by (meson list.pred_mono_strong)

lemma emits_weaken: "emits (\<lambda>_. False) m \<Longrightarrow> emits P m"
  by (erule emits_mono) simp

lemma emits_ret [emits_intros, simp]: "emits P (ret x)"
  by (simp add: emits_def)

lemma emits_panics [emits_intros, simp]: "emits P (panics p)"
  by (simp add: emits_def)

lemma emits_deref [emits_intros, simp]: "emits P (deref x)"
  by (cases x) (simp_all add: emits_def)

lemma emits_ask [emits_intros, simp]: "emits P (ask f)"
  by (simp add: emits_def ask_def split_beta)

lemma emits_perform [emits_intros]: "P e \<Longrightarrow> emits P (perform e f)"
  by (simp add: emits_def perform_def split_beta)

lemma emits_cache [emits_intros, simp]:
  "emits P (cache_lookup u)" "emits P (cache_delete u)" "emits P (cache_store u c)"
  by (simp_all add: emits_def cache_lookup_def cache_delete_def cache_store_def)

lemma emits_attempt [emits_intros]: "emits P m \<Longrightarrow> emits P (attempt m)"
  by (simp add: emits_def)

lemma emits_resume [emits_intros]: "emits P (resume r)"
  by (auto simp: resume_def split: sum.splits)

lemma emits_if [emits_intros]:
  "(b \<Longrightarrow> emits P m) \<Longrightarrow> (\<not> b \<Longrightarrow> emits P n) \<Longrightarrow> emits P (if b then m else n)"
  by simp

lemma emits_case_option [emits_intros]:
  "(x = None \<Longrightarrow> emits P m) \<Longrightarrow> (\<And>y. x = Some y \<Longrightarrow> emits P (f y)) \<Longrightarrow>
     emits P (case x of None \<Rightarrow> m | Some y \<Rightarrow> f y)"
  by (cases x) auto

lemma emits_case_sum [emits_intros]:
  "(\<And>y. x = Inl y \<Longrightarrow> emits P (f y)) \<Longrightarrow> (\<And>y. x = Inr y \<Longrightarrow> emits P (g y)) \<Longrightarrow>
     emits P (case x of Inl y \<Rightarrow> f y | Inr y \<Rightarrow> g y)"
  by (cases x) auto

lemma emits_case_prod [emits_intros]:
  "(\<And>y z. x = (y, z) \<Longrightarrow> emits P (f y z)) \<Longrightarrow> emits P (case x of (y, z) \<Rightarrow> f y z)"
  by (cases x) auto

lemma emits_let [emits_intros]: "emits P (f x) \<Longrightarrow> emits P (let y = x in f y)"
  by simp

text \<open>What a computation returns, when it returns.\<close>

definition yields :: "('a \<Rightarrow> bool) \<Rightarrow> ('s world, 'a) go \<Rightarrow> bool" where
  "yields Q m \<longleftrightarrow> (\<forall>w. case m w of Ret x w' \<Rightarrow> Q x | Panic p w' \<Rightarrow> True)"

lemma yields_ret [emits_intros]: "Q x \<Longrightarrow> yields Q (ret x)"
  by (simp add: yields_def)

lemma yields_bind:
  "yields Q m \<Longrightarrow> (\<And>x. Q x \<Longrightarrow> yields R (f x)) \<Longrightarrow> yields R (go_bind m f)"
  by (fastforce simp: yields_def go_bind_def split: run.splits)

lemma yields_True [simp]: "yields (\<lambda>_. True) m"
  by (simp add: yields_def split: run.splits)

lemma yields_after: "(\<And>x. yields R (f x)) \<Longrightarrow> yields R (go_bind m f)"
  by (rule yields_bind [OF yields_True])

lemma yields_ask: "(\<And>x. yields R (f x)) \<Longrightarrow> yields R (go_bind (ask g) f)"
  by (rule yields_after)

lemma yields_perform: "(\<And>x. yields R (f x)) \<Longrightarrow> yields R (go_bind (perform e g) f)"
  by (rule yields_after)

lemma yields_if:
  "(b \<Longrightarrow> yields R m) \<Longrightarrow> (\<not> b \<Longrightarrow> yields R n) \<Longrightarrow> yields R (if b then m else n)"
  by simp

lemma yields_case_option:
  "(x = None \<Longrightarrow> yields R m) \<Longrightarrow> (\<And>y. x = Some y \<Longrightarrow> yields R (f y)) \<Longrightarrow>
     yields R (case x of None \<Rightarrow> m | Some y \<Rightarrow> f y)"
  by (cases x) auto

lemma yields_case_prod:
  "(\<And>y z. x = (y, z) \<Longrightarrow> yields R (f y z)) \<Longrightarrow> yields R (case x of (y, z) \<Rightarrow> f y z)"
  by (cases x) auto

lemmas yields_steps = yields_ask yields_perform yields_if yields_case_option yields_case_prod yields_ret

lemma yields_Ret: "yields Q m \<Longrightarrow> m w = Ret x w' \<Longrightarrow> Q x"
  by (metis yields_def run.simps(5))

lemma emits_bind_yields:
  assumes m: "emits P m" "yields Q m" and f: "\<And>x. Q x \<Longrightarrow> emits P (f x)"
  shows "emits P (go_bind m f)"
  unfolding emits_def
proof
  fix w
  obtain es where es: "effects (final_world (m w)) = effects w @ es" "list_all P es"
    using m(1) by (auto simp: emits_def)
  show "\<exists>es. effects (final_world (go_bind m f w)) = effects w @ es \<and> list_all P es"
  proof (cases "m w")
    case (Ret x w')
    with f yields_Ret [OF m(2)] have "emits P (f x)" by blast
    then obtain es' where "effects (final_world (f x w')) = effects w' @ es'" "list_all P es'"
      by (auto simp: emits_def)
    with Ret es show ?thesis by (auto simp: go_bind_def)
  next
    case (Panic p w')
    with es show ?thesis by (auto simp: go_bind_def)
  qed
qed

lemma emits_bind [emits_intros]:
  "emits P m \<Longrightarrow> (\<And>x. emits P (f x)) \<Longrightarrow> emits P (go_bind m f)"
  by (erule emits_bind_yields [OF _ yields_True])

text \<open>An invariant of the outside state that a computation keeps, whether it returns or panics.\<close>

definition maintains :: "('s \<Rightarrow> bool) \<Rightarrow> ('s world, 'a) go \<Rightarrow> bool" where
  "maintains I m \<longleftrightarrow> (\<forall>w. I (ext w) \<longrightarrow> I (ext (final_world (m w))))"

lemma maintainsD: "maintains I m \<Longrightarrow> I (ext w) \<Longrightarrow> I (ext (final_world (m w)))"
  by (simp add: maintains_def)

lemma maintains_basic [emits_intros]:
  "maintains I (ret x)" "maintains I (panics p)" "maintains I (cache_lookup u)"
  "maintains I (cache_delete u)" "maintains I (cache_store u c)"
  by (simp_all add: maintains_def cache_lookup_def cache_delete_def cache_store_def)

lemma maintains_deref [emits_intros]: "maintains I (deref p)"
  by (cases p) (simp_all add: maintains_def)

lemma maintains_ask: "(\<And>s. I s \<Longrightarrow> I (snd (f s))) \<Longrightarrow> maintains I (ask f)"
  by (simp add: maintains_def ask_def split_beta)

lemma maintains_perform: "(\<And>s. I s \<Longrightarrow> I (snd (f s))) \<Longrightarrow> maintains I (perform e f)"
  by (simp add: maintains_def perform_def split_beta)

lemma maintains_bind [emits_intros]:
  "maintains I m \<Longrightarrow> (\<And>x. maintains I (f x)) \<Longrightarrow> maintains I (go_bind m f)"
  unfolding maintains_def go_bind_def
  by (metis (mono_tags, lifting) final_world.simps run.exhaust run.simps(5,6))

lemma maintains_case_option [emits_intros]:
  "(x = None \<Longrightarrow> maintains I m) \<Longrightarrow> (\<And>y. x = Some y \<Longrightarrow> maintains I (f y)) \<Longrightarrow>
     maintains I (case x of None \<Rightarrow> m | Some y \<Rightarrow> f y)"
  by (cases x) auto

lemma maintains_case_sum [emits_intros]:
  "(\<And>y. x = Inl y \<Longrightarrow> maintains I (f y)) \<Longrightarrow> (\<And>y. x = Inr y \<Longrightarrow> maintains I (g y)) \<Longrightarrow>
     maintains I (case x of Inl y \<Rightarrow> f y | Inr y \<Rightarrow> g y)"
  by (cases x) auto

lemma maintains_if [emits_intros]:
  "(b \<Longrightarrow> maintains I m) \<Longrightarrow> (\<not> b \<Longrightarrow> maintains I n) \<Longrightarrow> maintains I (if b then m else n)"
  by simp

lemma maintains_case_prod [emits_intros]:
  "(\<And>y z. x = (y, z) \<Longrightarrow> maintains I (f y z)) \<Longrightarrow> maintains I (case x of (y, z) \<Rightarrow> f y z)"
  by (cases x) auto

lemma keeps_intros [emits_intros]:
  "keeps_connections (ret x)" "keeps_connections (panics p)" "keeps_connections (ask f)"
  "keeps_connections (perform e f)" "keeps_connections (cache_lookup u)"
  by (simp_all add: keeps_connections_def ask_def perform_def cache_lookup_def split_beta)

lemma keeps_deref [emits_intros]: "keeps_connections (deref p)"
  by (cases p) (simp_all add: keeps_connections_def)

lemma keeps_bind [emits_intros]:
  "keeps_connections m \<Longrightarrow> (\<And>x. keeps_connections (f x)) \<Longrightarrow> keeps_connections (go_bind m f)"
  by (auto simp: keeps_connections_def go_bind_def split: run.splits)
     (metis final_world.simps(1), metis final_world.simps(2))

lemma keeps_attempt [emits_intros]: "keeps_connections m \<Longrightarrow> keeps_connections (attempt m)"
  by (simp add: keeps_connections_def)

lemma keeps_if [emits_intros]:
  "(b \<Longrightarrow> keeps_connections m) \<Longrightarrow> (\<not> b \<Longrightarrow> keeps_connections n) \<Longrightarrow>
     keeps_connections (if b then m else n)"
  by simp

lemma keeps_case_option [emits_intros]:
  "(x = None \<Longrightarrow> keeps_connections m) \<Longrightarrow> (\<And>y. x = Some y \<Longrightarrow> keeps_connections (f y)) \<Longrightarrow>
     keeps_connections (case x of None \<Rightarrow> m | Some y \<Rightarrow> f y)"
  by (cases x) auto

lemma keeps_case_sum [emits_intros]:
  "(\<And>y. x = Inl y \<Longrightarrow> keeps_connections (f y)) \<Longrightarrow> (\<And>y. x = Inr y \<Longrightarrow> keeps_connections (g y)) \<Longrightarrow>
     keeps_connections (case x of Inl y \<Rightarrow> f y | Inr y \<Rightarrow> g y)"
  by (cases x) auto

lemma keeps_case_prod [emits_intros]:
  "(\<And>y z. x = (y, z) \<Longrightarrow> keeps_connections (f y z)) \<Longrightarrow>
     keeps_connections (case x of (y, z) \<Rightarrow> f y z)"
  by (cases x) auto

lemma observesI: "emits (\<lambda>_. False) m \<Longrightarrow> keeps_connections m \<Longrightarrow> observes m"
  by (simp add: observes_def)

text \<open>What an observing computation changes is the outside state only.\<close>

lemma observes_final:
  "observes m \<Longrightarrow>
     effects (final_world (m w)) = effects w \<and> connections (final_world (m w)) = connections w"
  by (force simp: observes_def emits_def keeps_connections_def list_all_iff)

lemma observes_Ret:
  assumes "observes m" and "m w = Ret x w'"
  shows "effects w' = effects w" and "connections w' = connections w"
  using observes_final [OF assms(1), of w] assms(2) by auto

lemma never_panics_intros [emits_intros]:
  "never_panics (ret x)" "never_panics (ask f)" "never_panics (perform e f)"
  "never_panics (cache_lookup u)" "never_panics (cache_delete u)" "never_panics (cache_store u c)"
  by (simp_all add: never_panics_def ask_def perform_def cache_lookup_def cache_delete_def
      cache_store_def split_beta)

lemma never_panics_bind [emits_intros]:
  "never_panics m \<Longrightarrow> (\<And>x. never_panics (f x)) \<Longrightarrow> never_panics (go_bind m f)"
  unfolding never_panics_def go_bind_def
  by (metis (no_types, lifting) option.discI option.distinct(1) returned.simps run.exhaust
      run.simps(5))

lemma never_panics_attempt [emits_intros]: "never_panics (attempt m)"
  by (simp add: never_panics_def attempt_def split: run.splits)

lemma never_panics_if [emits_intros]:
  "(b \<Longrightarrow> never_panics m) \<Longrightarrow> (\<not> b \<Longrightarrow> never_panics n) \<Longrightarrow> never_panics (if b then m else n)"
  by simp

lemma never_panics_case_option [emits_intros]:
  "(x = None \<Longrightarrow> never_panics m) \<Longrightarrow> (\<And>y. x = Some y \<Longrightarrow> never_panics (f y)) \<Longrightarrow>
     never_panics (case x of None \<Rightarrow> m | Some y \<Rightarrow> f y)"
  by (cases x) auto

lemma never_panics_case_sum [emits_intros]:
  "(\<And>y. x = Inl y \<Longrightarrow> never_panics (f y)) \<Longrightarrow> (\<And>y. x = Inr y \<Longrightarrow> never_panics (g y)) \<Longrightarrow>
     never_panics (case x of Inl y \<Rightarrow> f y | Inr y \<Rightarrow> g y)"
  by (cases x) auto

lemma never_panics_case_prod [emits_intros]:
  "(\<And>y z. x = (y, z) \<Longrightarrow> never_panics (f y z)) \<Longrightarrow> never_panics (case x of (y, z) \<Rightarrow> f y z)"
  by (cases x) auto

lemma never_panics_Ret: "never_panics m \<Longrightarrow> \<exists>x w'. m w = Ret x w'"
  by (metis never_panics_def option.exhaust returned_iff)

end
