(* ===== verification/Trace.thy ===== *)
theory Trace
  imports Environment
begin

text \<open>
  The calls that a computation makes to the outside, as steps of the outside state. \<open>after E e\<close>
  is what the call recorded as the effect \<open>e\<close> does; \<open>reading E\<close> are the calls that are not recorded.
  \<open>conducts E m\<close> says that \<open>m\<close> reaches its final outside state by such calls only, and that its record
  of effects is exact: the effects it adds are those calls, in their order. With \<open>emits\<close> this
  carries any invariant of the outside from the calls to the whole computation.
\<close>

section \<open>Calls\<close>

fun after :: "'s env \<Rightarrow> effect \<Rightarrow> 's \<Rightarrow> 's" where
  "after E (Exec h q) s = snd (gorm_exec E h q s)"
| "after E (CreateManagedDatabase h r) s = snd (gorm_create_ManagedDatabase E h r s)"
| "after E (SaveManagedUser h r) s = snd (gorm_save_ManagedUser E h r s)"
| "after E (DeleteManagedDatabase h u) s = snd (gorm_delete_ManagedDatabase E h u s)"
| "after E (DeleteManagedUser h u) s = snd (gorm_delete_ManagedUser E h u s)"
| "after E (Commit h) s = snd (gorm_commit E h s)"
| "after E (AutoMigrate h) s = snd (gorm_automigrate E h s)"
| "after E (OpenConnection d) s = snd (sql_open E d s)"
| "after E (CloseConnection d) s = snd (sql_close E d s)"
| "after E (UpdateDatabase x) s = snd (k_update_Database E x s)"
| "after E (UpdateDatabaseUser x) s = snd (k_update_DatabaseUser E x s)"
| "after E (UpdateSecret x) s = snd (k_update_Secret E x s)"
| "after E (CreateSecret x) s = snd (k_create_Secret E x s)"
| "after E (StatusAdminConnection x) s = snd (k_status_AdminConnection E x s)"
| "after E (StatusDatabase x) s = snd (k_status_Database E x s)"
| "after E (StatusDatabaseUser x) s = snd (k_status_DatabaseUser E x s)"

inductive reading :: "'s env \<Rightarrow> 's \<Rightarrow> 's \<Rightarrow> bool" for E where
  get_AdminConnection: "reading E s (snd (k_get_AdminConnection E k s))"
| get_Database: "reading E s (snd (k_get_Database E k s))"
| get_DatabaseUser: "reading E s (snd (k_get_DatabaseUser E k s))"
| get_Secret: "reading E s (snd (k_get_Secret E k s))"
| list_Databases: "reading E s (snd (k_list_Databases E ns s))"
| list_DatabaseUsers: "reading E s (snd (k_list_DatabaseUsers E ns s))"
| ping: "reading E s (snd (sql_ping E d s))"
| open_handle: "reading E s (snd (gorm_open E d s))"
| handle_pool: "reading E s (snd (gorm_sql E h s))"
| raw: "reading E s (snd (gorm_raw_scan E h q s))"
| first_schema: "reading E s (snd (gorm_first_schema E h n s))"
| first_user: "reading E s (snd (gorm_first_user E h n s))"
| find_database: "reading E s (snd (gorm_find_ManagedDatabase E h d u s))"
| find_user: "reading E s (snd (gorm_find_ManagedUser E h d' u s))"
| clock: "reading E s (snd (now E s))"
| random: "reading E s (snd (rand_int E m s))"
| iteration: "reading E s (snd (map_order E ks s))"

inductive calls :: "'s env \<Rightarrow> effect list \<Rightarrow> 's \<Rightarrow> 's \<Rightarrow> bool" for E where
  none: "calls E [] s s"
| read: "calls E es s s' \<Longrightarrow> reading E s' s'' \<Longrightarrow> calls E es s s''"
| act: "calls E es s s' \<Longrightarrow> calls E (es @ [e]) s (after E e s')"

inductive_cases reading_cases: "reading E s s'"

lemma calls_trans:
  assumes "calls E es' s' s''" and "calls E es s s'"
  shows "calls E (es @ es') s s''"
  using assms
proof (induction arbitrary: s rule: calls.induct)
  case (none t)
  then show ?case by simp
next
  case (read es' t s' s'')
  then show ?case by (blast intro: calls.read)
next
  case (act es' t s' e)
  then have "calls E ((es @ es') @ [e]) s (after E e s')" by (blast intro: calls.act)
  then show ?case by simp
qed

text \<open>An invariant that the reads keep and every effect in \<open>P\<close> keeps.\<close>

definition stable :: "'s env \<Rightarrow> (effect \<Rightarrow> bool) \<Rightarrow> ('s \<Rightarrow> bool) \<Rightarrow> bool" where
  "stable E P I \<longleftrightarrow>
     (\<forall>s s'. reading E s s' \<longrightarrow> I s \<longrightarrow> I s') \<and> (\<forall>e s. P e \<longrightarrow> I s \<longrightarrow> I (after E e s))"

lemma calls_stable:
  "calls E es s s' \<Longrightarrow> list_all P es \<Longrightarrow> stable E P I \<Longrightarrow> I s \<Longrightarrow> I s'"
  by (induction rule: calls.induct) (auto simp: stable_def)

lemma stable_weaken: "stable E P I \<Longrightarrow> (\<And>e. Q e \<Longrightarrow> P e) \<Longrightarrow> stable E Q I"
  by (auto simp: stable_def)

lemma stable_or: "stable E P I \<Longrightarrow> stable E Q I \<Longrightarrow> stable E (\<lambda>e. P e \<or> Q e) I"
  by (auto simp: stable_def)

section \<open>Exact records\<close>

definition conducts :: "'s env \<Rightarrow> ('s world, 'a) go \<Rightarrow> bool" where
  "conducts E m \<longleftrightarrow>
     (\<forall>w. \<exists>es. effects (final_world (m w)) = effects w @ es \<and>
        calls E es (ext w) (ext (final_world (m w))))"

named_theorems conducts_intros
  \<open>composition rules for exact records\<close>

text \<open>An exact record turns a bound on the effects into an invariant of the computation.\<close>

lemma conducts_maintains:
  assumes "conducts E m" and "emits P m" and "stable E P I"
  shows "maintains I m"
  unfolding maintains_def
proof (intro allI impI)
  fix w :: "'a world"
  assume "I (ext w)"
  obtain es where es: "effects (final_world (m w)) = effects w @ es"
    "calls E es (ext w) (ext (final_world (m w)))"
    using assms(1) by (auto simp: conducts_def)
  obtain es' where "effects (final_world (m w)) = effects w @ es'" "list_all P es'"
    using assms(2) by (auto simp: emits_def)
  with es have "list_all P es" by simp
  with es(2) assms(3) \<open>I (ext w)\<close> show "I (ext (final_world (m w)))"
    by (blast intro: calls_stable)
qed

lemma conducts_ret [conducts_intros]: "conducts E (ret x)" "conducts E (panics p)"
  by (auto simp: conducts_def intro: calls.none)

lemma conducts_deref [conducts_intros]: "conducts E (deref p)"
  by (cases p) (auto simp: conducts_def intro: calls.none)

lemma conducts_cache [conducts_intros]:
  "conducts E (cache_lookup u)" "conducts E (cache_delete u)" "conducts E (cache_store u c)"
  by (auto simp: conducts_def cache_lookup_def cache_delete_def cache_store_def intro: calls.none)

lemma conducts_ask: "(\<And>s. reading E s (snd (f s))) \<Longrightarrow> conducts E (ask f)"
  by (auto simp: conducts_def ask_def split_beta intro: calls.read calls.none)

lemma conducts_perform:
  assumes "\<And>s. snd (f s) = after E e s"
  shows "conducts E (perform e f)"
  unfolding conducts_def
proof
  fix w :: "'a world"
  have "calls E ([] @ [e]) (ext w) (after E e (ext w))"
    by (rule calls.act [OF calls.none])
  then show "\<exists>es. effects (final_world (perform e f w)) = effects w @ es \<and>
      calls E es (ext w) (ext (final_world (perform e f w)))"
    by (intro exI [of _ "[e]"]) (simp add: perform_def split_beta assms)
qed

lemma conducts_reads [conducts_intros]:
  "conducts E (ask (k_get_AdminConnection E k))" "conducts E (ask (k_get_Database E k))"
  "conducts E (ask (k_get_DatabaseUser E k))" "conducts E (ask (k_get_Secret E k))"
  "conducts E (ask (k_list_Databases E ns))" "conducts E (ask (k_list_DatabaseUsers E ns))"
  "conducts E (ask (sql_ping E d))" "conducts E (ask (gorm_open E d))"
  "conducts E (ask (gorm_sql E h))" "conducts E (ask (gorm_raw_scan E h q))"
  "conducts E (ask (gorm_first_schema E h n))" "conducts E (ask (gorm_first_user E h n))"
  "conducts E (ask (gorm_find_ManagedDatabase E h md u))"
  "conducts E (ask (gorm_find_ManagedUser E h mu u))"
  "conducts E (ask (now E))" "conducts E (ask (rand_int E m))" "conducts E (ask (map_order E ks))"
  by (rule conducts_ask, rule reading.intros)+

lemma conducts_performs [conducts_intros]:
  "conducts E (perform (Exec h q) (gorm_exec E h q))"
  "conducts E (perform (CreateManagedDatabase h md) (gorm_create_ManagedDatabase E h md))"
  "conducts E (perform (SaveManagedUser h mu) (gorm_save_ManagedUser E h mu))"
  "conducts E (perform (DeleteManagedDatabase h u) (gorm_delete_ManagedDatabase E h u))"
  "conducts E (perform (DeleteManagedUser h u) (gorm_delete_ManagedUser E h u))"
  "conducts E (perform (Commit h) (gorm_commit E h))"
  "conducts E (perform (AutoMigrate h) (gorm_automigrate E h))"
  "conducts E (perform (OpenConnection c) (sql_open E c))"
  "conducts E (perform (CloseConnection d) (sql_close E d))"
  "conducts E (perform (UpdateDatabase x) (k_update_Database E x))"
  "conducts E (perform (UpdateDatabaseUser y) (k_update_DatabaseUser E y))"
  "conducts E (perform (UpdateSecret z) (k_update_Secret E z))"
  "conducts E (perform (CreateSecret z) (k_create_Secret E z))"
  "conducts E (perform (StatusAdminConnection a) (k_status_AdminConnection E a))"
  "conducts E (perform (StatusDatabase x) (k_status_Database E x))"
  "conducts E (perform (StatusDatabaseUser y) (k_status_DatabaseUser E y))"
  by (rule conducts_perform, simp)+

lemma conducts_bind [conducts_intros]:
  assumes "conducts E m" and "\<And>x. conducts E (f x)"
  shows "conducts E (go_bind m f)"
  unfolding conducts_def
proof
  fix w
  obtain es where es: "effects (final_world (m w)) = effects w @ es"
    "calls E es (ext w) (ext (final_world (m w)))"
    using assms(1) by (auto simp: conducts_def)
  show "\<exists>es. effects (final_world (go_bind m f w)) = effects w @ es \<and>
      calls E es (ext w) (ext (final_world (go_bind m f w)))"
  proof (cases "m w")
    case (Ret x w')
    obtain es' where "effects (final_world (f x w')) = effects w' @ es'"
      "calls E es' (ext w') (ext (final_world (f x w')))"
      using assms(2) by (auto simp: conducts_def)
    with Ret es show ?thesis
      by (auto simp: go_bind_def intro: calls_trans)
  next
    case (Panic p w')
    with es show ?thesis by (auto simp: go_bind_def)
  qed
qed

lemma conducts_attempt [conducts_intros]: "conducts E m \<Longrightarrow> conducts E (attempt m)"
  by (simp add: conducts_def)

lemma conducts_resume [conducts_intros]: "conducts E (resume r)"
  by (auto simp: resume_def intro: conducts_ret split: sum.splits)

lemma conducts_if [conducts_intros]:
  "(b \<Longrightarrow> conducts E m) \<Longrightarrow> (\<not> b \<Longrightarrow> conducts E n) \<Longrightarrow> conducts E (if b then m else n)"
  by simp

lemma conducts_case_option [conducts_intros]:
  "(x = None \<Longrightarrow> conducts E m) \<Longrightarrow> (\<And>y. x = Some y \<Longrightarrow> conducts E (f y)) \<Longrightarrow>
     conducts E (case x of None \<Rightarrow> m | Some y \<Rightarrow> f y)"
  by (cases x) auto

lemma conducts_case_sum [conducts_intros]:
  "(\<And>y. x = Inl y \<Longrightarrow> conducts E (f y)) \<Longrightarrow> (\<And>y. x = Inr y \<Longrightarrow> conducts E (g y)) \<Longrightarrow>
     conducts E (case x of Inl y \<Rightarrow> f y | Inr y \<Rightarrow> g y)"
  by (cases x) auto

lemma conducts_case_prod [conducts_intros]:
  "(\<And>y z. x = (y, z) \<Longrightarrow> conducts E (f y z)) \<Longrightarrow> conducts E (case x of (y, z) \<Rightarrow> f y z)"
  by (cases x) auto

section \<open>From one condition to another\<close>

text \<open>Total correctness on the outside state: from \<open>J\<close> the computation ends, returning or not, in \<open>K\<close>.\<close>

definition leads :: "('s \<Rightarrow> bool) \<Rightarrow> ('s \<Rightarrow> bool) \<Rightarrow> ('s world, 'a) go \<Rightarrow> bool" where
  "leads J K m \<longleftrightarrow> (\<forall>w. J (ext w) \<longrightarrow> K (ext (final_world (m w))))"

lemma leads_then:
  "leads J K m \<Longrightarrow> (\<And>x. maintains K (f x)) \<Longrightarrow> leads J K (go_bind m f)"
  unfolding leads_def maintains_def go_bind_def
  by (metis (mono_tags, lifting) final_world.simps run.exhaust run.simps(5,6))

lemma leads_known:
  assumes "\<And>w. J (ext w) \<Longrightarrow> \<exists>x w'. m w = Ret x w' \<and> Q x \<and> J' (ext w')"
    and "\<And>x. Q x \<Longrightarrow> leads J' K (f x)"
  shows "leads J K (go_bind m f)"
  unfolding leads_def
proof (intro allI impI)
  fix w :: "'a world"
  assume "J (ext w)"
  then obtain x w' where "m w = Ret x w'" "Q x" "J' (ext w')" using assms(1) by blast
  with assms(2) show "K (ext (final_world (go_bind m f w)))"
    by (simp add: go_bind_def leads_def)
qed

lemma leads_maintains: "maintains K m \<Longrightarrow> leads K K m"
  by (simp add: leads_def maintains_def)

lemma bind_reaches:
  assumes "K (ext (final_world (m w)))" and "\<And>x. maintains K (f x)"
  shows "K (ext (final_world (go_bind m f w)))"
  using assms by (cases "m w") (simp_all add: go_bind_def maintains_def)

end
