(* ===== verification/Common.thy ===== *)
theory Common
  imports Environment
begin

text \<open>
  The rest of \<open>api/v1alpha1/common.go\<close>: reading a secret (\<open>GetSecret\<close>,
  \<open>GetSecretRefValue\<close>) and \<open>GeneratePassword\<close>. The random source is the parameter
  \<open>rand_int\<close> of the environment; \<open>rand_int_ok\<close> states its documented contract.
\<close>

section \<open>Secrets\<close>

definition GetSecret ::
  "'s env \<Rightarrow> string \<Rightarrow> SecretKeySelector \<Rightarrow> ('s world, error + Secret) go" where
  "GetSecret E namespace secretSelector =
     ask (k_get_Secret E \<lparr>nn_Namespace = namespace, nn_Name = sel_Name secretSelector\<rparr>)"

definition key_not_found :: "SecretKeySelector \<Rightarrow> error" where
  "key_not_found sel =
     Errorf (''key '' @ sel_Key sel @ '' not found in secret '' @ sel_Name sel)"

definition GetSecretRefValue ::
  "'s env \<Rightarrow> string \<Rightarrow> SecretKeySelector \<Rightarrow> ('s world, error + string) go" where
  "GetSecretRefValue E namespace secretSelector =
     go_bind (GetSecret E namespace secretSelector) (\<lambda>r.
     case r of
       Inl err \<Rightarrow> ret (Inl err)
     | Inr secret \<Rightarrow>
         (case map_of (sec_Data secret) (sel_Key secretSelector) of
            Some data \<Rightarrow> ret (Inr data)
          | None \<Rightarrow> ret (Inl (key_not_found secretSelector))))"

lemma GetSecret_emits [emits_intros, simp]:
  "emits P (GetSecret E ns sel)" "keeps_connections (GetSecret E ns sel)"
  "never_panics (GetSecret E ns sel)"
  unfolding GetSecret_def by (intro emits_intros)+

lemma GetSecretRefValue_emits [emits_intros, simp]:
  "emits P (GetSecretRefValue E ns sel)" "keeps_connections (GetSecretRefValue E ns sel)"
  "never_panics (GetSecretRefValue E ns sel)"
  unfolding GetSecretRefValue_def by (intro emits_intros)+

text \<open>The result of \<open>GetSecretRefValue\<close> in terms of the answer of the API server.\<close>

lemma GetSecretRefValue_run:
  "GetSecretRefValue E ns sel w =
     (case k_get_Secret E \<lparr>nn_Namespace = ns, nn_Name = sel_Name sel\<rparr> (ext w) of
        (Inl err, s) \<Rightarrow> Ret (Inl err) (w\<lparr>ext := s\<rparr>)
      | (Inr secret, s) \<Rightarrow>
          Ret (case map_of (sec_Data secret) (sel_Key sel) of
                 Some v \<Rightarrow> Inr v | None \<Rightarrow> Inl (key_not_found sel)) (w\<lparr>ext := s\<rparr>))"
  by (simp add: GetSecretRefValue_def GetSecret_def bind_ask split: prod.splits sum.splits option.splits)

section \<open>Passwords\<close>

definition lowerCharSet :: string where
  "lowerCharSet = ''abcdedfghijklmnopqrst''"

definition upperCharSet :: string where
  "upperCharSet = ''ABCDEFGHIJKLMNOPQRSTUVWXYZ''"

definition specialCharSet :: string where
  "specialCharSet = ''!@#$%&*''"

definition numberSet :: string where
  "numberSet = ''0123456789''"

definition allCharSet :: string where
  "allCharSet = lowerCharSet @ upperCharSet @ specialCharSet @ numberSet"

text \<open>
  \<open>rand.Int\<close> with its error dropped: on an error the number is a nil pointer and reading it
  panics; an index out of range panics as well.
\<close>

definition draw :: "'s env \<Rightarrow> nat \<Rightarrow> ('s world, nat) go" where
  "draw E bound = go_bind (ask (rand_int E bound)) deref"

definition index_at :: "string \<Rightarrow> nat \<Rightarrow> ('w, char) go" where
  "index_at s i = (if i < length s then ret (s ! i) else panics IndexOutOfRange)"

fun append_random :: "'s env \<Rightarrow> string \<Rightarrow> nat \<Rightarrow> string \<Rightarrow> ('s world, string) go" where
  "append_random E charset 0 password = ret password"
| "append_random E charset (Suc n) password =
     go_bind (draw E (length charset)) (\<lambda>random.
     go_bind (index_at charset random) (\<lambda>c.
     append_random E charset n (password @ [c])))"

definition swap :: "nat \<Rightarrow> nat \<Rightarrow> 'a list \<Rightarrow> 'a list" where
  "swap i j xs = xs[i := xs ! j, j := xs ! i]"

fun shuffle_loop :: "'s env \<Rightarrow> nat list \<Rightarrow> string \<Rightarrow> ('s world, string) go" where
  "shuffle_loop E [] inRune = ret inRune"
| "shuffle_loop E (i # is) inRune =
     go_bind (draw E (length inRune)) (\<lambda>j.
     if i < length inRune \<and> j < length inRune
     then shuffle_loop E is (swap i j inRune)
     else panics IndexOutOfRange)"

text \<open>
  The loops run while \<open>i < n\<close> for a Go \<open>int\<close> \<open>n\<close>, that is \<open>nat (sint n)\<close> times; the remaining
  length is a subtraction of 64-bit integers. Every character drawn is ASCII, so the
  runes of the password are its bytes.
\<close>

definition GeneratePassword ::
  "'s env \<Rightarrow> goint \<Rightarrow> goint \<Rightarrow> goint \<Rightarrow> goint \<Rightarrow> ('s world, string) go" where
  "GeneratePassword E passwordLength minSpecialChar minNum minUpperCase =
     go_bind (append_random E specialCharSet (nat (sint minSpecialChar)) []) (\<lambda>password.
     go_bind (append_random E numberSet (nat (sint minNum)) password) (\<lambda>password.
     go_bind (append_random E upperCharSet (nat (sint minUpperCase)) password) (\<lambda>password.
     go_bind (append_random E allCharSet
               (nat (sint (passwordLength - minSpecialChar - minNum - minUpperCase))) password)
       (\<lambda>password.
     shuffle_loop E [0..<length password] password))))"

lemma draw_emits [emits_intros]:
  "emits P (draw E m)" "keeps_connections (draw E m)"
  unfolding draw_def by (intro emits_intros)+

lemma index_at_emits [emits_intros]:
  "emits P (index_at s i)" "keeps_connections (index_at s i)"
  unfolding index_at_def by (intro emits_intros)+

lemma append_random_emits [emits_intros]: "emits P (append_random E charset n password)"
  by (induction n arbitrary: password) (auto intro!: emits_intros)

lemma shuffle_loop_emits [emits_intros]: "emits P (shuffle_loop E is s)"
  by (induction "is" arbitrary: s) (auto intro!: emits_intros)

subsection \<open>What the password contains\<close>

text \<open>The contract of \<open>rand.Int\<close>: a number below the bound.\<close>

definition rand_int_ok :: "'s env \<Rightarrow> bool" where
  "rand_int_ok E \<longleftrightarrow> (\<forall>m s. 0 < m \<longrightarrow> (\<exists>k. fst (rand_int E m s) = Some k \<and> k < m))"

lemma charset_lengths [simp]:
  "length lowerCharSet = 21" "length upperCharSet = 26" "length specialCharSet = 7"
  "length numberSet = 10" "length allCharSet = 64"
  by (simp_all add: lowerCharSet_def upperCharSet_def specialCharSet_def numberSet_def allCharSet_def)

lemma draw_ok:
  assumes "rand_int_ok E" and "0 < m"
  shows "\<exists>k w'. draw E m w = Ret k w' \<and> k < m"
proof -
  obtain k where k: "fst (rand_int E m (ext w)) = Some k" "k < m"
    using assms by (auto simp: rand_int_ok_def)
  then have "draw E m w = Ret k (w\<lparr>ext := snd (rand_int E m (ext w))\<rparr>)"
    by (simp add: draw_def bind_ask)
  with k show ?thesis by blast
qed

lemma append_random_ok:
  assumes "rand_int_ok E" and "charset \<noteq> []"
  shows "\<exists>cs w'. append_random E charset n password w = Ret (password @ cs) w' \<and>
           length cs = n \<and> set cs \<subseteq> set charset"
proof (induction n arbitrary: password w)
  case 0
  then show ?case by simp
next
  case (Suc n)
  obtain k w' where d: "draw E (length charset) w = Ret k w'" "k < length charset"
    using draw_ok [OF assms(1), of "length charset" w] assms(2) by blast
  obtain cs w'' where "append_random E charset n (password @ [charset ! k]) w' =
      Ret ((password @ [charset ! k]) @ cs) w''" "length cs = n" "set cs \<subseteq> set charset"
    using Suc.IH by blast
  with d show ?case
    by (intro exI [of _ "charset ! k # cs"]) (auto simp: go_bind_def index_at_def)
qed

lemma mset_swap: "i < length xs \<Longrightarrow> j < length xs \<Longrightarrow> mset (swap i j xs) = mset xs"
  by (simp add: swap_def mset_swap)

lemma shuffle_loop_ok:
  assumes "rand_int_ok E" and "set is \<subseteq> {..<length s}"
  shows "\<exists>s' w'. shuffle_loop E is s w = Ret s' w' \<and> mset s' = mset s"
  using assms(2)
proof (induction "is" arbitrary: s w)
  case Nil
  then show ?case by simp
next
  case (Cons i "is")
  then have len: "0 < length s" and i: "i < length s" by auto
  obtain j w' where d: "draw E (length s) w = Ret j w'" "j < length s"
    using draw_ok [OF assms(1) len, of w] by blast
  have m: "mset (swap i j s) = mset s" using i d(2) by (rule mset_swap)
  then have "length (swap i j s) = length s" by (metis size_mset)
  then obtain s' w'' where "shuffle_loop E is (swap i j s) w' = Ret s' w''" "mset s' = mset s"
    using Cons.IH [of "swap i j s" w'] Cons.prems m by auto
  with d i show ?case by (auto simp: go_bind_def)
qed

lemma shuffle_all_ok:
  assumes "rand_int_ok E"
  shows "\<exists>s' w'. shuffle_loop E [0..<length s] s w = Ret s' w' \<and> mset s' = mset s"
  by (rule shuffle_loop_ok [OF assms]) auto

end
