(* ===== verification/Orm.thy ===== *)
theory Orm
  imports Environment
begin

text \<open>
  The two lookups of \<open>orm/model.go\<close> and their common contract, the locale
  \<open>existence_check\<close>: a lookup only observes, always returns, and what it finds has a non-empty
  name. The documented behaviour of gorm that the ownership checks rely on is stated here as two named
  hypotheses.
\<close>

section \<open>Lookups\<close>

definition zero_DatabaseSchema :: DatabaseSchema where
  "zero_DatabaseSchema =
     \<lparr>sch_SchemaName = [], sch_DefaultCharacterSet = [], sch_DefaultCollation = []\<rparr>"

definition zero_MySqlUser :: MySqlUser where
  "zero_MySqlUser = \<lparr>mysql_Host = [], mysql_User = [], mysql_Plugin = []\<rparr>"

definition DatabaseExists ::
  "'s env \<Rightarrow> gormdb \<Rightarrow> string \<Rightarrow> ('s world, DatabaseSchema option) go" where
  "DatabaseExists E gormDB name =
     go_bind (ask (gorm_first_schema E gormDB name)) (\<lambda>schema.
     if sch_SchemaName schema \<noteq> [] then ret (Some schema) else ret None)"

definition UserExists ::
  "'s env \<Rightarrow> gormdb \<Rightarrow> string \<Rightarrow> ('s world, MySqlUser option) go" where
  "UserExists E gormDB name =
     go_bind (ask (gorm_first_user E gormDB name)) (\<lambda>user.
     if mysql_User user \<noteq> [] then ret (Some user) else ret None)"

section \<open>Tables\<close>

definition ManagedDatabase_TableName :: string where
  "ManagedDatabase_TableName = DatabaseName @ ''.managed_databases''"

definition ManagedUser_TableName :: string where
  "ManagedUser_TableName = DatabaseName @ ''.managed_users''"

definition DatabaseSchema_TableName :: string where
  "DatabaseSchema_TableName = ''INFORMATION_SCHEMA.SCHEMATA''"

definition MySqlUser_TableName :: string where
  "MySqlUser_TableName = ''mysql.user''"

definition MySqlDb_TableName :: string where
  "MySqlDb_TableName = ''mysql.db''"

text \<open>The operator's own tables are in the control schema, the tables it only reads are not.\<close>

definition table_schema :: "string \<Rightarrow> string" where
  "table_schema t = takeWhile (\<lambda>c. c \<noteq> CHR ''.'') t"

lemma control_tables:
  "table_schema ManagedDatabase_TableName = DatabaseName" "table_schema ManagedUser_TableName = DatabaseName"
  "\<forall>t \<in> {DatabaseSchema_TableName, MySqlUser_TableName, MySqlDb_TableName}. table_schema t \<noteq> DatabaseName"
  by (simp_all add: table_schema_def ManagedDatabase_TableName_def ManagedUser_TableName_def
      DatabaseSchema_TableName_def MySqlUser_TableName_def MySqlDb_TableName_def DatabaseName_def)

section \<open>The contract of a lookup\<close>

locale existence_check =
  fixes check :: "string \<Rightarrow> ('s world, 'r option) go"
    and name_of :: "'r \<Rightarrow> string"
  assumes check_observes: "observes (check n)"
    and check_returns: "never_panics (check n)"
    and check_named: "check n w = Ret (Some r) w' \<Longrightarrow> name_of r \<noteq> []"
begin

lemma check_cases:
  obtains (absent) w' where "check n w = Ret None w'"
      and "effects w' = effects w" and "connections w' = connections w"
    | (present) r w' where "check n w = Ret (Some r) w'" and "name_of r \<noteq> []"
      and "effects w' = effects w" and "connections w' = connections w"
proof -
  obtain x w' where run: "check n w = Ret x w'"
    using never_panics_Ret [OF check_returns] by blast
  note same = observes_Ret [OF check_observes run]
  show thesis
    using run same that by (cases x) (auto dest: check_named)
qed

lemma check_emits: "emits P (check n)"
  using check_observes by (simp add: observes_def emits_weaken)

lemma check_keeps: "keeps_connections (check n)"
  using check_observes by (simp add: observes_def)

text \<open>Branching on a lookup adds no effect of its own.\<close>

lemma branch_emits:
  assumes "emits P absent" and "\<And>r. emits P (present r)"
  shows "emits P (go_bind (check n) (\<lambda>x. case x of None \<Rightarrow> absent | Some r \<Rightarrow> present r))"
  using assms by (intro emits_bind check_emits emits_case_option) auto

end

lemma DatabaseExists_emits [emits_intros, simp]:
  "emits P (DatabaseExists E h n)" "keeps_connections (DatabaseExists E h n)"
  "never_panics (DatabaseExists E h n)"
  unfolding DatabaseExists_def by (intro emits_intros)+

lemma UserExists_emits [emits_intros, simp]:
  "emits P (UserExists E h n)" "keeps_connections (UserExists E h n)"
  "never_panics (UserExists E h n)"
  unfolding UserExists_def by (intro emits_intros)+

interpretation schemas: existence_check "DatabaseExists E h" sch_SchemaName for E h
  by unfold_locales
    (auto simp: observes_def DatabaseExists_def bind_ask split: if_splits intro!: emits_intros)

interpretation accounts: existence_check "UserExists E h" mysql_User for E h
  by unfold_locales
    (auto simp: observes_def UserExists_def bind_ask split: if_splits intro!: emits_intros)

section \<open>What gorm promises about the lookups\<close>

text \<open>
  \<open>schemas s\<close> and \<open>rows s\<close> are the schemata of the server and the rows of
  \<open>managed_databases\<close> in the outside state \<open>s\<close>. \<open>First\<close> fills a zero struct with the
  row it finds and leaves it alone when there is none; \<open>Limit(1).Find\<close> does the same with the struct it
  is given; neither changes anything outside.
\<close>

definition schema_tables_ok ::
  "'s env \<Rightarrow> gormdb \<Rightarrow> ('s \<Rightarrow> string \<Rightarrow> DatabaseSchema option) \<Rightarrow> ('s \<Rightarrow> uid \<Rightarrow> ManagedDatabase option) \<Rightarrow> bool"
where
  "schema_tables_ok E h schemas rows \<longleftrightarrow>
     (\<forall>n s. gorm_first_schema E h n s =
        ((case schemas s n of Some r \<Rightarrow> r | None \<Rightarrow> zero_DatabaseSchema), s)) \<and>
     (\<forall>n s r. schemas s n = Some r \<longrightarrow> sch_SchemaName r \<noteq> []) \<and>
     (\<forall>d u s. gorm_find_ManagedDatabase E h d u s =
        ((case rows s u of Some r \<Rightarrow> r | None \<Rightarrow> d), s))"

definition account_tables_ok ::
  "'s env \<Rightarrow> gormdb \<Rightarrow> ('s \<Rightarrow> string \<Rightarrow> MySqlUser option) \<Rightarrow> ('s \<Rightarrow> uid \<Rightarrow> ManagedUser option) \<Rightarrow> bool"
where
  "account_tables_ok E h accounts rows \<longleftrightarrow>
     (\<forall>n s. gorm_first_user E h n s =
        ((case accounts s n of Some r \<Rightarrow> r | None \<Rightarrow> zero_MySqlUser), s)) \<and>
     (\<forall>n s r. accounts s n = Some r \<longrightarrow> mysql_User r \<noteq> []) \<and>
     (\<forall>d u s. gorm_find_ManagedUser E h d u s =
        ((case rows s u of Some r \<Rightarrow> r | None \<Rightarrow> d), s))"

lemma DatabaseExists_run:
  "schema_tables_ok E h schemas rows \<Longrightarrow> DatabaseExists E h n w = Ret (schemas (ext w) n) w"
  by (auto simp: schema_tables_ok_def DatabaseExists_def bind_ask zero_DatabaseSchema_def
      split: option.splits)

lemma UserExists_run:
  "account_tables_ok E h accounts rows \<Longrightarrow> UserExists E h n w = Ret (accounts (ext w) n) w"
  by (auto simp: account_tables_ok_def UserExists_def bind_ask zero_MySqlUser_def
      split: option.splits)

end
