(* ===== verification/Admin_Connection.thy ===== *)
theory Admin_Connection
  imports Common Orm
begin

text \<open>
  The functions of \<open>api/v1alpha1/adminconnection_types.go\<close>: which namespaces an
  \<open>AdminConnection\<close> admits, how it is looked up, the configuration and the cached connection it
  gives, and the ownership checks \<open>DatabaseMine\<close> and \<open>UserMine\<close>.
\<close>

section \<open>Admitted namespaces\<close>

text \<open>\<open>strings.HasSuffix\<close>, \<open>strings.HasPrefix\<close> and \<open>strings.TrimSuffix\<close> are Go's.\<close>

definition TrimSuffix :: "string \<Rightarrow> string \<Rightarrow> string" where
  "TrimSuffix s suf = (if suffix suf s then take (length s - length suf) s else s)"

fun allowed_loop :: "string \<Rightarrow> string list \<Rightarrow> bool" where
  "allowed_loop namespace [] = False"
| "allowed_loop namespace (allowedNamespace # rest) =
     (if allowedNamespace = namespace then True
      else if suffix ''*'' allowedNamespace \<and> prefix (TrimSuffix allowedNamespace ''*'') namespace
      then True
      else allowed_loop namespace rest)"

definition AllowedNamespace :: "AdminConnection \<Rightarrow> string \<Rightarrow> bool" where
  "AllowedNamespace conn namespace =
     (if namespace = om_Namespace (ac_Meta conn) then True
      else allowed_loop namespace (acs_AllowedNamespaces (ac_Spec conn)))"

text \<open>What a pattern of \<open>allowedNamespaces\<close> admits, as the README describes it.\<close>

definition admits :: "string \<Rightarrow> string \<Rightarrow> bool" where
  "admits pattern namespace \<longleftrightarrow>
     pattern = namespace \<or> (\<exists>p. pattern = p @ ''*'' \<and> prefix p namespace)"

lemma TrimSuffix_append [simp]: "TrimSuffix (p @ s) s = p"
  by (simp add: TrimSuffix_def suffix_def)

lemma star_pattern:
  "suffix ''*'' a \<and> prefix (TrimSuffix a ''*'') n \<longleftrightarrow> (\<exists>p. a = p @ ''*'' \<and> prefix p n)"
  by (auto simp: suffix_def)

lemma allowed_loop_iff: "allowed_loop n as \<longleftrightarrow> (\<exists>a \<in> set as. admits a n)"
  by (induction as) (auto simp: star_pattern admits_def)

section \<open>Looking up the AdminConnection\<close>

definition admin_namespace :: "string \<Rightarrow> AdminConnectionRef \<Rightarrow> string" where
  "admin_namespace namespace ref =
     (if acr_Namespace ref \<noteq> [] then acr_Namespace ref else namespace)"

definition not_permitted :: error where
  "not_permitted = Errorf ''namespace not permitted by AdminConnection for this DatabaseUser''"

definition GetAdminConnection ::
  "'s env \<Rightarrow> string \<Rightarrow> AdminConnectionRef \<Rightarrow>
     ('s world, AdminConnection option \<times> error option) go" where
  "GetAdminConnection E namespace adminConnectionRef =
     go_bind (ask (k_get_AdminConnection E
        \<lparr>nn_Namespace = admin_namespace namespace adminConnectionRef,
         nn_Name = acr_Name adminConnectionRef\<rparr>)) (\<lambda>r.
     case r of
       Inl err \<Rightarrow> (if is_not_found E err then ret (None, None) else ret (None, Some err))
     | Inr adminConnection \<Rightarrow>
         (if \<not> AllowedNamespace adminConnection namespace then ret (None, Some not_permitted)
          else ret (Some adminConnection, None)))"

lemma GetAdminConnection_emits [emits_intros, simp]:
  "emits P (GetAdminConnection E ns ref)" "keeps_connections (GetAdminConnection E ns ref)"
  "never_panics (GetAdminConnection E ns ref)"
  unfolding GetAdminConnection_def by (intro emits_intros)+

section \<open>Connections\<close>

definition getDbConfig :: "'s env \<Rightarrow> AdminConnection \<Rightarrow> ('s world, error + MysqlConfig) go" where
  "getDbConfig E conn =
     (let dbConfig = \<lparr>cfg_Net = ''tcp'', cfg_DBName = ''mysql'', cfg_ParseTime = True,
            cfg_AllowNativePasswords = True, cfg_TLSConfig = ''preferred'',
            cfg_Addr = acs_Host (ac_Spec conn) @ '':'' @ itoa (sint (acs_Port (ac_Spec conn))),
            cfg_User = ''root'', cfg_Passwd = []\<rparr>
      in go_bind
          (case acs_AdminUser (ac_Spec conn) of
             None \<Rightarrow> ret (Inr (cfg_User dbConfig))
           | Some src \<Rightarrow> GetSecretRefValue E (om_Namespace (ac_Meta conn)) (sks_SecretKeyRef src))
          (\<lambda>u. case u of
             Inl err \<Rightarrow> ret (Inl err)
           | Inr user \<Rightarrow>
               go_bind
                 (case acs_AdminPassword (ac_Spec conn) of
                    None \<Rightarrow> ret (Inr (cfg_Passwd dbConfig))
                  | Some src \<Rightarrow>
                      GetSecretRefValue E (om_Namespace (ac_Meta conn)) (sks_SecretKeyRef src))
                 (\<lambda>p. case p of
                    Inl err \<Rightarrow> ret (Inl err)
                  | Inr passwd \<Rightarrow> ret (Inr (dbConfig\<lparr>cfg_User := user, cfg_Passwd := passwd\<rparr>)))))"

definition switchDatabase :: "'s env \<Rightarrow> gormdb \<Rightarrow> ('s world, unit) go" where
  "switchDatabase E gormDB =
     (let createQuery = ''CREATE DATABASE IF NOT EXISTS '' @ DatabaseName;
          useQuery = ''USE '' @ DatabaseName
      in go_bind (perform (Exec gormDB createQuery) (gorm_exec E gormDB createQuery)) (\<lambda>_.
         go_bind (perform (Exec gormDB useQuery) (gorm_exec E gormDB useQuery)) (\<lambda>_.
         ret ())))"

definition createFreshConnection ::
  "'s env \<Rightarrow> MysqlConfig \<Rightarrow> ('s world, error + gormdb) go" where
  "createFreshConnection E dbConfig =
     go_bind (perform (OpenConnection (format_dsn E dbConfig)) (sql_open E (format_dsn E dbConfig))) (\<lambda>r.
     case r of
       Inl err \<Rightarrow> ret (Inl err)
     | Inr db \<Rightarrow>
         go_bind (ask (sql_ping E db)) (\<lambda>err.
         case err of
           Some err \<Rightarrow> ret (Inl err)
         | None \<Rightarrow>
             go_bind (ask (gorm_open E db)) (\<lambda>r.
             case r of
               Inl err \<Rightarrow> go_bind (perform (CloseConnection db) (sql_close E db)) (\<lambda>_. ret (Inl err))
             | Inr gormDB \<Rightarrow>
                 go_bind (switchDatabase E gormDB) (\<lambda>_.
                 go_bind (perform (AutoMigrate gormDB) (gorm_automigrate E gormDB)) (\<lambda>err.
                 case err of
                   Some err \<Rightarrow>
                     go_bind (perform (CloseConnection db) (sql_close E db)) (\<lambda>_. ret (Inl err))
                 | None \<Rightarrow> ret (Inr gormDB))))))"

text \<open>Whether a cached entry has to be replaced: a ping when the configuration is the same, else a close.\<close>

definition needs_new_connection ::
  "'s env \<Rightarrow> ConnectionDefinition option \<Rightarrow> MysqlConfig \<Rightarrow> ('s world, bool) go" where
  "needs_new_connection E conn dbConfig =
     (case conn of
        None \<Rightarrow> ret True
      | Some c \<Rightarrow>
          if cd_Config c = dbConfig then
            go_bind (ask (gorm_sql E (cd_DB c))) (\<lambda>r.
            case r of
              Inl err \<Rightarrow> ret True
            | Inr rawDatabase \<Rightarrow>
                go_bind (ask (sql_ping E rawDatabase)) (\<lambda>err. ret (err \<noteq> None)))
          else
            go_bind (ask (gorm_sql E (cd_DB c))) (\<lambda>r.
            case r of
              Inl err \<Rightarrow> ret True
            | Inr rawDatabase \<Rightarrow>
                go_bind (perform (CloseConnection rawDatabase) (sql_close E rawDatabase)) (\<lambda>_.
                ret True)))"

definition GetDatabaseConnection ::
  "'s env \<Rightarrow> AdminConnection \<Rightarrow> ('s world, error + gormdb) go" where
  "GetDatabaseConnection E adm =
     go_bind (getDbConfig E adm) (\<lambda>r.
     case r of
       Inl err \<Rightarrow> ret (Inl err)
     | Inr dbConfig \<Rightarrow>
         go_bind (cache_lookup (om_UID (ac_Meta adm))) (\<lambda>conn.
         go_bind (needs_new_connection E conn dbConfig) (\<lambda>newConnection.
         if newConnection then
           go_bind (cache_delete (om_UID (ac_Meta adm))) (\<lambda>_.
           go_bind (createFreshConnection E dbConfig) (\<lambda>r.
           case r of
             Inl err \<Rightarrow> ret (Inl err)
           | Inr gormDB \<Rightarrow>
               go_bind (cache_store (om_UID (ac_Meta adm)) \<lparr>cd_Config = dbConfig, cd_DB = gormDB\<rparr>)
                 (\<lambda>_. ret (Inr gormDB))))
         else go_bind (deref conn) (\<lambda>c. ret (Inr (cd_DB c))))))"

section \<open>Ownership\<close>

definition database_row_matches :: "ManagedDatabase \<Rightarrow> Database \<Rightarrow> bool" where
  "database_row_matches row database \<longleftrightarrow>
     md_DatabaseName row = ds_Name (db_Spec database) \<and>
     md_Name row = om_Name (db_Meta database) \<and>
     md_Namespace row = om_Namespace (db_Meta database)"

definition DatabaseMine :: "'s env \<Rightarrow> gormdb \<Rightarrow> Database \<Rightarrow> ('s world, bool) go" where
  "DatabaseMine E gormDB database =
     go_bind (DatabaseExists E gormDB (ds_Name (db_Spec database))) (\<lambda>schema.
     case schema of
       None \<Rightarrow> ret True
     | Some _ \<Rightarrow>
         go_bind (ask (gorm_find_ManagedDatabase E gormDB zero_ManagedDatabase
                         (om_UID (db_Meta database)))) (\<lambda>managedDatabase.
         if database_row_matches managedDatabase database then ret True else ret False))"

definition user_row_matches :: "ManagedUser \<Rightarrow> string \<Rightarrow> DatabaseUser \<Rightarrow> bool" where
  "user_row_matches row name user \<longleftrightarrow>
     \<not> (mu_Username row \<noteq> name \<or>
        mu_Name row \<noteq> om_Name (du_Meta user) \<or>
        mu_Namespace row \<noteq> om_Namespace (du_Meta user))"

fun user_mine_loop ::
  "'s env \<Rightarrow> gormdb \<Rightarrow> DatabaseUser \<Rightarrow> string list \<Rightarrow> ManagedUser \<Rightarrow> ('s world, bool) go" where
  "user_mine_loop E gormDB user [] managedUser = ret True"
| "user_mine_loop E gormDB user (name # names) managedUser =
     go_bind (UserExists E gormDB name) (\<lambda>account.
     case account of
       None \<Rightarrow> user_mine_loop E gormDB user names managedUser
     | Some _ \<Rightarrow>
         go_bind (ask (gorm_find_ManagedUser E gormDB managedUser (om_UID (du_Meta user))))
           (\<lambda>managedUser.
         if \<not> user_row_matches managedUser name user then ret False
         else user_mine_loop E gormDB user names managedUser))"

definition user_names :: "DatabaseUser \<Rightarrow> string list" where
  "user_names user =
     (let names = [us_Username (du_Spec user)]
      in if us_Username (du_Spec user) \<noteq> ust_Username (du_Status user) \<and>
            ust_Username (du_Status user) \<noteq> []
         then names @ [ust_Username (du_Status user)] else names)"

definition UserMine :: "'s env \<Rightarrow> gormdb \<Rightarrow> DatabaseUser \<Rightarrow> ('s world, bool) go" where
  "UserMine E gormDB user = user_mine_loop E gormDB user (user_names user) zero_ManagedUser"

lemma DatabaseMine_emits [emits_intros, simp]:
  "emits P (DatabaseMine E h db)" "keeps_connections (DatabaseMine E h db)"
  "never_panics (DatabaseMine E h db)"
  unfolding DatabaseMine_def by (intro emits_intros)+

lemma user_mine_loop_emits:
  "emits P (user_mine_loop E h u ns m) \<and> keeps_connections (user_mine_loop E h u ns m) \<and>
     never_panics (user_mine_loop E h u ns m)"
proof (induction ns arbitrary: m)
  case Nil
  then show ?case by (simp add: emits_intros)
next
  case (Cons n ns)
  then show ?case by (auto intro!: emits_intros)
qed

lemma UserMine_emits [emits_intros, simp]:
  "emits P (UserMine E h u)" "keeps_connections (UserMine E h u)" "never_panics (UserMine E h u)"
  by (simp_all add: UserMine_def user_mine_loop_emits)

text \<open>The two checks in terms of the tables, where gorm reads them as it documents.\<close>

lemma DatabaseMine_run:
  assumes "schema_tables_ok E h schemas rows"
  shows "DatabaseMine E h database w =
     Ret (schemas (ext w) (ds_Name (db_Spec database)) = None \<or>
          database_row_matches
            (case rows (ext w) (om_UID (db_Meta database)) of
               Some row \<Rightarrow> row | None \<Rightarrow> zero_ManagedDatabase) database) w"
proof (cases "schemas (ext w) (ds_Name (db_Spec database))")
  case None
  then show ?thesis
    by (simp add: DatabaseMine_def go_bind_def DatabaseExists_run [OF assms])
next
  case (Some r)
  have "gorm_find_ManagedDatabase E h d u s = ((case rows s u of Some x \<Rightarrow> x | None \<Rightarrow> d), s)" for d u s
    using assms by (simp add: schema_tables_ok_def)
  with Some show ?thesis
    by (simp add: DatabaseMine_def go_bind_def DatabaseExists_run [OF assms] ask_def)
qed

definition user_owns ::
  "('s \<Rightarrow> string \<Rightarrow> MySqlUser option) \<Rightarrow> ('s \<Rightarrow> uid \<Rightarrow> ManagedUser option) \<Rightarrow> 's \<Rightarrow> DatabaseUser \<Rightarrow>
     ManagedUser \<Rightarrow> string \<Rightarrow> bool"
where
  "user_owns accounts rows s user d n \<longleftrightarrow>
     accounts s n = None \<or>
     user_row_matches (case rows s (om_UID (du_Meta user)) of Some row \<Rightarrow> row | None \<Rightarrow> d) n user"

lemma user_mine_loop_run:
  assumes "account_tables_ok E h accounts rows"
  shows "user_mine_loop E h user names d w =
     Ret (\<forall>n \<in> set names. user_owns accounts rows (ext w) user d n) w"
proof (induction names arbitrary: d)
  case Nil
  then show ?case by simp
next
  case (Cons n names)
  let ?row = "case rows (ext w) (om_UID (du_Meta user)) of Some row \<Rightarrow> row | None \<Rightarrow> d"
  have find: "gorm_find_ManagedUser E h d u s = ((case rows s u of Some x \<Rightarrow> x | None \<Rightarrow> d), s)"
    for d u s
    using assms by (simp add: account_tables_ok_def)
  have again: "user_owns accounts rows (ext w) user ?row = user_owns accounts rows (ext w) user d"
    by (auto simp: fun_eq_iff user_owns_def split: option.splits)
  show ?case
  proof (cases "accounts (ext w) n")
    case None
    then show ?thesis
      using Cons.IH by (simp add: go_bind_def UserExists_run [OF assms] user_owns_def)
  next
    case (Some a)
    then show ?thesis
      using Cons.IH [of ?row]
      by (simp add: go_bind_def UserExists_run [OF assms] ask_def find again)
         (simp add: user_owns_def)
  qed
qed

lemma UserMine_run:
  assumes "account_tables_ok E h accounts rows"
  shows "UserMine E h user w =
     Ret (\<forall>n \<in> set (user_names user). user_owns accounts rows (ext w) user zero_ManagedUser n) w"
  by (simp add: UserMine_def user_mine_loop_run [OF assms])

end
