(* ===== verification/Controller_Base.thy ===== *)
theory Controller_Base
  imports Admin_Connection
begin

text \<open>
  The beginning that the \<open>Database\<close> and the \<open>DatabaseUser\<close> reconcile loops share line by line
  (the admin connection and the database handle of the loop context), and the way they
  end the life of an object, as the locale \<open>deletion_flow\<close>: two reconcilers, one contract.
\<close>

section \<open>The admin connection of a loop\<close>

text \<open>The fields \<open>adminConnection\<close> and \<open>db\<close> of the loop context, and \<open>adminErr\<close>.\<close>

definition resolve_admin ::
  "'s env \<Rightarrow> string \<Rightarrow> AdminConnectionRef \<Rightarrow>
     ('s world, AdminConnection option \<times> gormdb option \<times> error option) go" where
  "resolve_admin E namespace ref =
     go_bind (GetAdminConnection E namespace ref) (\<lambda>(adminConnection, adminErr).
     case (adminConnection, adminErr) of
       (Some adm, None) \<Rightarrow>
         go_bind (GetDatabaseConnection E adm) (\<lambda>r.
         case r of
           Inl err \<Rightarrow> ret (None, None, Some err)
         | Inr db \<Rightarrow> ret (Some adm, Some db, None))
     | _ \<Rightarrow> ret (adminConnection, None, adminErr))"

text \<open>
  What connecting may do: open and close pools, create and select the control database, migrate its
  tables.
\<close>

definition connection_effect :: "effect \<Rightarrow> bool" where
  "connection_effect e \<longleftrightarrow>
     (case e of
        OpenConnection d \<Rightarrow> True
      | CloseConnection d \<Rightarrow> True
      | AutoMigrate h \<Rightarrow> True
      | Exec h q \<Rightarrow> q \<in> {''CREATE DATABASE IF NOT EXISTS '' @ DatabaseName, ''USE '' @ DatabaseName}
      | _ \<Rightarrow> False)"

lemma getDbConfig_emits [emits_intros, simp]:
  "emits P (getDbConfig E adm)" "keeps_connections (getDbConfig E adm)"
  "never_panics (getDbConfig E adm)"
  unfolding getDbConfig_def Let_def by (intro emits_intros)+

lemma switchDatabase_emits [emits_intros]: "emits connection_effect (switchDatabase E h)"
  unfolding switchDatabase_def Let_def by (intro emits_intros) (simp_all add: connection_effect_def)

lemma switchDatabase_keeps [emits_intros, simp]:
  "keeps_connections (switchDatabase E h)" "never_panics (switchDatabase E h)"
  unfolding switchDatabase_def Let_def by (intro emits_intros)+

lemma createFreshConnection_emits [emits_intros]:
  "emits connection_effect (createFreshConnection E cfg)"
  unfolding createFreshConnection_def
  by (intro emits_intros) (simp_all add: connection_effect_def)

lemma createFreshConnection_keeps [emits_intros, simp]:
  "keeps_connections (createFreshConnection E cfg)" "never_panics (createFreshConnection E cfg)"
  unfolding createFreshConnection_def by (intro emits_intros)+

lemma needs_new_connection_emits [emits_intros]:
  "emits connection_effect (needs_new_connection E c cfg)"
  unfolding needs_new_connection_def by (intro emits_intros) (simp_all add: connection_effect_def)

lemma needs_new_connection_keeps [emits_intros, simp]:
  "keeps_connections (needs_new_connection E c cfg)" "never_panics (needs_new_connection E c cfg)"
  unfolding needs_new_connection_def by (intro emits_intros)+

lemma GetDatabaseConnection_emits [emits_intros]:
  "emits connection_effect (GetDatabaseConnection E adm)"
  unfolding GetDatabaseConnection_def by (intro emits_intros)

lemma resolve_admin_emits [emits_intros]: "emits connection_effect (resolve_admin E ns ref)"
  unfolding resolve_admin_def by (intro emits_intros)

section \<open>The end of an object\<close>

text \<open>
  Both reconcilers treat an object that is marked for deletion in the same way: with the finalizer
  present, drop what is owned (\<open>mine\<close>), or only report, and then update the object without the
  finalizer. \<open>flow\<close> is the reconciler's code; the laws are what it is made of.
\<close>

locale deletion_flow =
  fixes has_finalizer :: "'o \<Rightarrow> bool"
    and mine :: "gormdb \<Rightarrow> 'o \<Rightarrow> ('s world, bool) go"
    and finalize :: "gormdb \<Rightarrow> 'o \<Rightarrow> ('s world, error option) go"
    and drops :: "gormdb \<Rightarrow> 'o \<Rightarrow> effect list"
    and update :: "'o \<Rightarrow> ('s world, error option) go"
    and updates :: "'o \<Rightarrow> effect"
    and flow :: "AdminConnection option \<Rightarrow> gormdb option \<Rightarrow> 'o \<Rightarrow> ('s world, error option) go"
  assumes mine_observes: "observes (mine h x)"
    and mine_returns: "never_panics (mine h x)"
    and finalize_run: "\<exists>s. finalize h x w =
          Ret None (w\<lparr>ext := s, effects := effects w @ drops h x\<rparr>)"
    and update_run: "\<exists>s e. update x w = Ret e (w\<lparr>ext := s, effects := effects w @ [updates x]\<rparr>)"
    and flow_skip: "\<not> has_finalizer x \<Longrightarrow> flow adm d x = ret None"
    and flow_owner: "has_finalizer x \<Longrightarrow> flow (Some a) (Some h) x =
          go_bind (mine h x) (\<lambda>m.
          if m then go_bind (finalize h x) (\<lambda>err. case err of Some e \<Rightarrow> ret (Some e) | None \<Rightarrow> update x)
          else update x)"
    and flow_no_db: "has_finalizer x \<Longrightarrow> flow (Some a) None x = update x"
    and flow_no_admin: "has_finalizer x \<Longrightarrow> flow None d x = panics NilDereference"
begin

text \<open>Nothing is dropped and nothing is updated when there is no admin connection: the loop panics.\<close>

lemma no_admin_panics: "has_finalizer x \<Longrightarrow> flow None d x w = Panic NilDereference w"
  by (simp add: flow_no_admin)

text \<open>What the loop drops, it owns; it updates the object in any case.\<close>

lemma owned_flow:
  assumes "has_finalizer x" and "mine h x w = Ret True w1"
  shows "\<exists>e w'. flow (Some a) (Some h) x w = Ret e w' \<and>
     effects w' = effects w @ drops h x @ [updates x] \<and> connections w' = connections w"
proof -
  have same: "effects w1 = effects w" "connections w1 = connections w"
    using observes_Ret [OF mine_observes assms(2)] by auto
  obtain s where f: "finalize h x w1 = Ret None (w1\<lparr>ext := s, effects := effects w1 @ drops h x\<rparr>)"
    using finalize_run by blast
  let ?w2 = "w1\<lparr>ext := s, effects := effects w1 @ drops h x\<rparr>"
  obtain s' e where u: "update x ?w2 = Ret e (?w2\<lparr>ext := s', effects := effects ?w2 @ [updates x]\<rparr>)"
    using update_run by blast
  show ?thesis
    using f u assms same by (simp add: flow_owner go_bind_def)
qed

lemma foreign_flow:
  assumes "has_finalizer x" and "mine h x w = Ret False w1"
  shows "\<exists>e w'. flow (Some a) (Some h) x w = Ret e w' \<and>
     effects w' = effects w @ [updates x] \<and> connections w' = connections w"
proof -
  have same: "effects w1 = effects w" "connections w1 = connections w"
    using observes_Ret [OF mine_observes assms(2)] by auto
  obtain s' e where u: "update x w1 = Ret e (w1\<lparr>ext := s', effects := effects w1 @ [updates x]\<rparr>)"
    using update_run by blast
  show ?thesis
    using u assms same by (simp add: flow_owner go_bind_def)
qed

lemma flow_cases:
  assumes "has_finalizer x"
  shows "\<exists>e w'. flow (Some a) (Some h) x w = Ret e w' \<and>
     effects w' = effects w @ (if returned (mine h x w) = Some True then drops h x else []) @ [updates x]"
proof -
  obtain m w1 where m: "mine h x w = Ret m w1"
    using never_panics_Ret [OF mine_returns] by blast
  show ?thesis
  proof (cases m)
    case True
    with m owned_flow [OF assms, of h w w1 a] show ?thesis by auto
  next
    case False
    with m foreign_flow [OF assms, of h w w1 a] show ?thesis by auto
  qed
qed

end

end
