(* ===== verification/Sql_Text.thy ===== *)
theory Sql_Text
  imports Api_Types
begin

text \<open>
  \<open>Escape\<close> of \<open>api/v1alpha1/common.go\<close>, byte by byte, and what it is for: a byte string
  that goes through \<open>Escape\<close> and between single quotes is one MySQL string literal with
  exactly that value. MySQL's rules for a quoted literal (backslash escapes, a doubled quote, the closing
  quote) are the reference \<open>read_literal\<close>. The contract between the function that escapes and the
  code that builds statements is the locale \<open>quoting\<close>.
\<close>

section \<open>Escape\<close>

definition escape_byte :: "char \<Rightarrow> char option" where
  "escape_byte c =
     (if c = CHR 0x00 then Some (CHR ''0'')
      else if c = CHR 0x0A then Some (CHR ''n'')
      else if c = CHR 0x0D then Some (CHR ''r'')
      else if c = CHR 0x5C then Some (CHR 0x5C)
      else if c = CHR 0x27 then Some (CHR 0x27)
      else if c = CHR 0x22 then Some (CHR 0x22)
      else if c = CHR 0x1A then Some (CHR ''Z'')
      else None)"

fun escape_loop :: "string \<Rightarrow> string \<Rightarrow> string" where
  "escape_loop [] dest = dest"
| "escape_loop (c # sql) dest =
     (case escape_byte c of
        Some escape \<Rightarrow> escape_loop sql (dest @ [CHR 0x5C, escape])
      | None \<Rightarrow> escape_loop sql (dest @ [c]))"

definition Escape :: "string \<Rightarrow> string" where
  "Escape sql = escape_loop sql []"

definition escaped :: "char \<Rightarrow> string" where
  "escaped c = (case escape_byte c of Some e \<Rightarrow> [CHR 0x5C, e] | None \<Rightarrow> [c])"

lemma escape_loop_eq: "escape_loop sql dest = dest @ concat (map escaped sql)"
  by (induction sql arbitrary: dest) (auto simp: escaped_def split: option.splits)

lemma Escape_Nil [simp]: "Escape [] = []"
  by (simp add: Escape_def)

lemma Escape_Cons: "Escape (c # s) = escaped c @ Escape s"
  by (simp add: Escape_def escape_loop_eq)

lemma Escape_append: "Escape (s @ t) = Escape s @ Escape t"
  by (simp add: Escape_def escape_loop_eq)

section \<open>MySQL string literals\<close>

text \<open>What a backslash followed by a character stands for.\<close>

definition unescaped :: "char \<Rightarrow> string" where
  "unescaped c =
     (if c = CHR ''0'' then [CHR 0x00]
      else if c = CHR ''b'' then [CHR 0x08]
      else if c = CHR ''n'' then [CHR 0x0A]
      else if c = CHR ''r'' then [CHR 0x0D]
      else if c = CHR ''t'' then [CHR 0x09]
      else if c = CHR ''Z'' then [CHR 0x1A]
      else if c = CHR 0x25 \<or> c = CHR 0x5F then [CHR 0x5C, c]
      else [c])"

text \<open>
  The text after an opening single quote: the literal's value and the text after its closing
  quote, or \<open>None\<close> where the literal does not end.
\<close>

fun read_literal :: "string \<Rightarrow> (string \<times> string) option" where
  "read_literal [] = None"
| "read_literal [c] = (if c = CHR 0x27 then Some ([], []) else None)"
| "read_literal (c # d # rest) =
     (if c = CHR 0x5C then
        map_option (\<lambda>(v, r). (unescaped d @ v, r)) (read_literal rest)
      else if c = CHR 0x27 then
        (if d = CHR 0x27 then map_option (\<lambda>(v, r). (CHR 0x27 # v, r)) (read_literal rest)
         else Some ([], d # rest))
      else map_option (\<lambda>(v, r). (c # v, r)) (read_literal (d # rest)))"

text \<open>A text after which a literal really ends: the next character is not another quote.\<close>

definition ends_literal :: "string \<Rightarrow> bool" where
  "ends_literal rest = (rest = [] \<or> hd rest \<noteq> CHR 0x27)"

lemma ends_literal_simps [simp]: "ends_literal []" "ends_literal (CHR '' '' # s)"
  by (simp_all add: ends_literal_def)

lemma read_literal_close: "ends_literal rest \<Longrightarrow> read_literal (CHR 0x27 # rest) = Some ([], rest)"
  by (cases rest) (auto simp: ends_literal_def)

lemma escape_byte_Some:
  "escape_byte c = Some e \<Longrightarrow> unescaped e = [c]"
  by (auto simp: escape_byte_def unescaped_def split: if_splits)

lemma escape_byte_None: "escape_byte c = None \<Longrightarrow> c \<noteq> CHR 0x5C \<and> c \<noteq> CHR 0x27"
  by (auto simp: escape_byte_def split: if_splits)

lemma read_escaped:
  "ys \<noteq> [] \<Longrightarrow>
     read_literal (escaped c @ ys) = map_option (\<lambda>(v, r). (c # v, r)) (read_literal ys)"
  by (cases ys)
     (auto simp: escaped_def dest: escape_byte_Some escape_byte_None split: option.splits)

lemma read_Escape_append:
  "ys \<noteq> [] \<Longrightarrow>
     read_literal (Escape s @ ys) = map_option (\<lambda>(v, r). (s @ v, r)) (read_literal ys)"
proof (induction s)
  case Nil
  then show ?case by (simp add: option.map_ident split_beta)
next
  case (Cons c s)
  then have "read_literal (escaped c @ Escape s @ ys) =
      map_option (\<lambda>(v, r). (c # v, r)) (read_literal (Escape s @ ys))"
    by (simp add: read_escaped)
  with Cons show ?case
    by (simp add: Escape_Cons option.map_comp comp_def split_beta)
qed

section \<open>The quoting contract\<close>

text \<open>The value between the first pair of quotes of a statement, and what follows.\<close>

definition after_quote :: "string \<Rightarrow> string" where
  "after_quote stmt = tl (dropWhile (\<lambda>c. c \<noteq> CHR 0x27) stmt)"

lemma after_quote_intro:
  "CHR 0x27 \<notin> set intro \<Longrightarrow> after_quote (intro @ CHR 0x27 # rest) = rest"
  by (induction intro) (auto simp: after_quote_def)

text \<open>
  What a caller that puts escaped text between quotes relies on: \<open>scan\<close> reads back the text
  that \<open>encode\<close> was given, and stops at the quote the caller wrote.
\<close>

locale quoting =
  fixes encode :: "string \<Rightarrow> string"
    and scan :: "string \<Rightarrow> (string \<times> string) option"
    and stops :: "string \<Rightarrow> bool"
  assumes scan_encode: "stops rest \<Longrightarrow> scan (encode s @ CHR 0x27 # rest) = Some (s, rest)"
    and stops_Nil: "stops []"
    and stops_space: "stops (CHR '' '' # rest)"
begin

lemma statement_value:
  assumes "CHR 0x27 \<notin> set intro" and "stops rest"
  shows "scan (after_quote (intro @ CHR 0x27 # encode s @ CHR 0x27 # rest)) = Some (s, rest)"
  using assms by (simp add: after_quote_intro scan_encode)

lemma encode_inject: "encode s = encode t \<Longrightarrow> s = t"
  using scan_encode [OF stops_Nil, of s] scan_encode [OF stops_Nil, of t]
  by (metis option.inject prod.inject)

end

interpretation mysql_text: quoting Escape read_literal ends_literal
  by unfold_locales (simp_all add: read_Escape_append read_literal_close ends_literal_def)

section \<open>Properties of Escape\<close>

text \<open>
  C25: a value that goes through \<open>Escape\<close> and between single quotes is read back by the server
  unchanged, and the literal ends at the quote the operator wrote.
\<close>

theorem escape_roundtrip:
  assumes "ends_literal rest"
  shows "read_literal (Escape s @ CHR 0x27 # rest) = Some (s, rest)"
  by (rule mysql_text.scan_encode [OF assms])

lemma escape_roundtrip_witness:
  "read_literal (Escape [CHR 0x27, CHR '' '', CHR 0x5C] @ CHR 0x27 # '' REQUIRE SSL'') =
     Some ([CHR 0x27, CHR '' '', CHR 0x5C], '' REQUIRE SSL'')"
  by (rule escape_roundtrip) (simp add: ends_literal_def)

lemma escaped_safe:
  "d \<in> set (escaped c) \<Longrightarrow> d \<notin> {CHR 0x00, CHR 0x0A, CHR 0x0D, CHR 0x1A}"
  by (auto simp: escaped_def escape_byte_def split: if_splits)

lemma length_escaped: "1 \<le> length (escaped c) \<and> length (escaped c) \<le> 2"
  by (simp add: escaped_def split: option.splits)

theorem Escape_bounds:
  "length s \<le> length (Escape s) \<and> length (Escape s) \<le> 2 * length s \<and>
     set (Escape s) \<inter> {CHR 0x00, CHR 0x0A, CHR 0x0D, CHR 0x1A} = {}"
proof (induction s)
  case Nil
  then show ?case by simp
next
  case (Cons c s)
  then show ?case
    using length_escaped [of c] escaped_safe [of _ c] by (auto simp: Escape_Cons)
qed

end
