(* ===== verification/Database_User_Controller.thy ===== *)
theory Database_User_Controller
  imports Controller_Base Sql_Text
begin

text \<open>
  \<open>controllers/databaseuser_controller.go\<close>: the reconcile loop of \<open>DatabaseUser\<close>. One pass ends the
  life of an object that is marked for deletion, or does the first of these that is
  due: record the user name, take ownership of the secret, add the finalizer, create or update the account
  (name, authentication, TLS, grants).
\<close>

section \<open>Statements\<close>

definition userFinalizer :: string where
  "userFinalizer = ''mysql.apps.cuppett.dev/user-finalizer''"

definition quoted :: "string \<Rightarrow> string" where
  "quoted s = CHR 0x27 # s @ [CHR 0x27]"

definition status_username :: "DatabaseUser \<Rightarrow> string" where
  "status_username inst = ust_Username (du_Status inst)"

definition spec_username :: "DatabaseUser \<Rightarrow> string" where
  "spec_username inst = us_Username (du_Spec inst)"

definition create_user_stmt :: "DatabaseUser \<Rightarrow> string \<Rightarrow> string" where
  "create_user_stmt inst userDetails =
     ''CREATE USER '' @ quoted (Escape (status_username inst)) @ userDetails"

definition rename_user_stmt :: "DatabaseUser \<Rightarrow> string" where
  "rename_user_stmt inst =
     ''RENAME USER '' @ quoted (Escape (status_username inst)) @ '' TO '' @
     quoted (Escape (spec_username inst))"

definition alter_user_stmt :: "DatabaseUser \<Rightarrow> string \<Rightarrow> string" where
  "alter_user_stmt inst userDetails =
     ''ALTER USER '' @ quoted (Escape (status_username inst)) @ userDetails"

definition revoke_stmt :: "DatabaseUser \<Rightarrow> string" where
  "revoke_stmt inst =
     ''REVOKE ALL PRIVILEGES, GRANT OPTION FROM '' @ quoted (Escape (status_username inst))"

definition show_grants_stmt :: "DatabaseUser \<Rightarrow> string" where
  "show_grants_stmt inst = ''SHOW GRANTS FOR '' @ quoted (Escape (status_username inst))"

definition drop_user_stmt :: "DatabaseUser \<Rightarrow> string" where
  "drop_user_stmt inst = ''DROP USER IF EXISTS '' @ quoted (Escape (status_username inst))"

definition ascii_upper :: "char \<Rightarrow> char" where
  "ascii_upper c =
     (if (97::nat) \<le> of_char c \<and> of_char c \<le> (122::nat) then char_of (of_char c - 32 :: nat) else c)"

text \<open>\<open>strings.ToUpper\<close>; the Unicode tables that a text outside ASCII needs are a parameter.\<close>

definition ToUpper :: "'s env \<Rightarrow> string \<Rightarrow> string" where
  "ToUpper E s =
     (if list_all (\<lambda>c. of_char c < (128::nat)) s then map ascii_upper s else unicode_to_upper E s)"

fun join_grants :: "'s env \<Rightarrow> nat \<Rightarrow> string list \<Rightarrow> string \<Rightarrow> string" where
  "join_grants E i [] grantQuery = grantQuery"
| "join_grants E i (individualPermission # rest) grantQuery =
     join_grants E (Suc i) rest
       ((if i > 0 then grantQuery @ '', '' else grantQuery) @ ToUpper E individualPermission)"

definition grant_stmt :: "'s env \<Rightarrow> DatabaseUser \<Rightarrow> DatabasePermission \<Rightarrow> string \<Rightarrow> string" where
  "grant_stmt E inst permission schema =
     (if length (elems (dp_Grants permission)) = 0 then ''GRANT '' @ ''ALL''
      else join_grants E 0 (elems (dp_Grants permission)) ''GRANT '') @
     '' ON `'' @ schema @ ''`.* TO '' @ quoted (Escape (status_username inst))"

definition managed_user :: "DatabaseUser \<Rightarrow> ManagedUser" where
  "managed_user inst =
     \<lparr>mu_Uuid = om_UID (du_Meta inst), mu_Namespace = om_Namespace (du_Meta inst),
      mu_Name = om_Name (du_Meta inst), mu_Username = spec_username inst\<rparr>"

definition set_user_status ::
  "(DatabaseUserStatus \<Rightarrow> DatabaseUserStatus) \<Rightarrow> DatabaseUser \<Rightarrow> DatabaseUser" where
  "set_user_status f inst = inst\<lparr>du_Status := f (du_Status inst)\<rparr>"

definition user_message :: "string \<Rightarrow> DatabaseUser \<Rightarrow> DatabaseUser" where
  "user_message m inst = set_user_status (\<lambda>st. st\<lparr>ust_Message := m\<rparr>) inst"

section \<open>Operations\<close>

definition runStmt :: "'s env \<Rightarrow> gormdb \<Rightarrow> string \<Rightarrow> ('s world, error option) go" where
  "runStmt E db query =
     go_bind (perform (Exec db query) (gorm_exec E db query)) (\<lambda>tx. ret (tx_Error tx))"

text \<open>\<open>Save\<close> of the managed row and \<open>Commit\<close>; the errors of both are dropped.\<close>

definition save_managed_user :: "'s env \<Rightarrow> gormdb \<Rightarrow> DatabaseUser \<Rightarrow> ('s world, unit) go" where
  "save_managed_user E db inst =
     go_bind (perform (SaveManagedUser db (managed_user inst))
                (gorm_save_ManagedUser E db (managed_user inst))) (\<lambda>tx.
     perform (Commit (tx_DB tx)) (gorm_commit E (tx_DB tx)))"

definition createSecret ::
  "'s env \<Rightarrow> string \<Rightarrow> SecretKeySelector \<Rightarrow> ('s world, Secret \<times> error option) go" where
  "createSecret E namespace secretSelector =
     go_bind (GeneratePassword E 24 1 1 1) (\<lambda>password.
     let secret =
       \<lparr>sec_Meta = \<lparr>om_Name = sel_Name secretSelector, om_Namespace = namespace, om_UID = [],
          om_ResourceVersion = [], om_DeletionTimestamp = None, om_Finalizers = [],
          om_OwnerReferences = None\<rparr>,
        sec_Data = [(sel_Key secretSelector, password)]\<rparr>
     in perform (CreateSecret secret) (k_create_Secret E secret))"

fun owner_loop :: "DatabaseUser \<Rightarrow> OwnerReference list \<Rightarrow> ('w, bool) go" where
  "owner_loop inst [] = ret False"
| "owner_loop inst (owner # rest) =
     (if or_UID owner = om_UID (du_Meta inst) then
        go_bind (deref (or_Controller owner)) (\<lambda>controller.
        if controller then ret True else owner_loop inst rest)
      else owner_loop inst rest)"

definition secretOwnershipOk :: "DatabaseUser \<Rightarrow> Secret option \<Rightarrow> ('w, bool) go" where
  "secretOwnershipOk inst secret =
     (case secret of
        None \<Rightarrow> ret True
      | Some s \<Rightarrow>
          (case om_OwnerReferences (sec_Meta s) of
             None \<Rightarrow> ret False
           | Some owners \<Rightarrow> owner_loop inst owners))"

definition userExists ::
  "'s env \<Rightarrow> gormdb \<Rightarrow> DatabaseUser \<Rightarrow> ('s world, DatabaseUser \<times> bool \<times> error option) go" where
  "userExists E db inst =
     go_bind (UserExists E db (status_username inst)) (\<lambda>user.
     case user of
       None \<Rightarrow> ret (inst, False, None)
     | Some user \<Rightarrow>
         ret (set_user_status (\<lambda>st. st\<lparr>ust_Identification :=
               (case ust_Identification st of
                  None \<Rightarrow> Some \<lparr>id_AuthPlugin = mysql_Plugin user, id_AuthString = None, id_ClearText = False\<rparr>
                | Some i \<Rightarrow> Some (i\<lparr>id_AuthPlugin := mysql_Plugin user\<rparr>))\<rparr>) inst, True, None))"

subsection \<open>Authentication\<close>

definition identification_fragment :: "string \<Rightarrow> string \<Rightarrow> bool \<Rightarrow> string" where
  "identification_fragment authPlugin authString clearText =
     (if authPlugin \<noteq> [] then
        '' IDENTIFIED WITH '' @ quoted authPlugin @
        (if authString \<noteq> [] then
           (if clearText then '' BY '' @ quoted authString else '' AS '' @ quoted authString)
         else [])
      else if authString \<noteq> [] then
        '' IDENTIFIED BY'' @ (if \<not> clearText then '' PASSWORD'' else []) @ '' '' @ quoted authString
      else [])"

definition tls_fragment :: "DatabaseUser \<Rightarrow> string" where
  "tls_fragment inst =
     (if us_TlsOptions (du_Spec inst) \<noteq> ust_TlsOptions (du_Status inst)
      then (if tls_Required (us_TlsOptions (du_Spec inst)) then '' REQUIRE SSL'' else '' REQUIRE NONE'')
      else [])"

definition plugins_diff :: "Identification \<Rightarrow> DatabaseUser \<Rightarrow> bool" where
  "plugins_diff ident inst \<longleftrightarrow>
     (case ust_Identification (du_Status inst) of
        None \<Rightarrow> False
      | Some st \<Rightarrow> id_AuthPlugin ident \<noteq> id_AuthPlugin st \<and> id_AuthPlugin ident \<noteq> [])"

definition userDetailString ::
  "'s env \<Rightarrow> DatabaseUser \<Rightarrow> Secret option \<Rightarrow> bool \<Rightarrow>
     ('s world, DatabaseUser \<times> string \<times> error option) go" where
  "userDetailString E inst secret createUser =
     (case us_Identification (du_Spec inst) of
        None \<Rightarrow> ret (inst, [], None)
      | Some ident \<Rightarrow>
          go_bind (case id_AuthString ident of
                     None \<Rightarrow> ret False
                   | Some _ \<Rightarrow>
                       go_bind (deref secret) (\<lambda>s.
                       ret (ust_IdentificationResourceVersion (du_Status inst)
                              \<noteq> om_ResourceVersion (sec_Meta s)))) (\<lambda>passwordUpdated.
          go_bind (case id_AuthString ident of
                     None \<Rightarrow> ret (Inr [])
                   | Some src \<Rightarrow>
                       GetSecretRefValue E (om_Namespace (du_Meta inst)) (sks_SecretKeyRef src)) (\<lambda>r.
          case r of
            Inl err \<Rightarrow> ret (inst, [], Some err)
          | Inr authString \<Rightarrow>
              let authString = Escape authString;
                  authPlugin = Escape (id_AuthPlugin ident);
                  queryFragment =
                    (if passwordUpdated \<or> plugins_diff ident inst \<or> createUser
                     then identification_fragment authPlugin authString (id_ClearText ident) else []) @
                    tls_fragment inst
              in go_bind (deref secret) (\<lambda>s.
                 ret (set_user_status (\<lambda>st. st\<lparr>
                        ust_IdentificationResourceVersion := om_ResourceVersion (sec_Meta s),
                        ust_Identification := Some ident,
                        ust_TlsOptions := us_TlsOptions (du_Spec inst)\<rparr>) inst,
                      queryFragment, None)))))"

subsection \<open>Grants\<close>

fun contains :: "string list \<Rightarrow> string \<Rightarrow> bool" where
  "contains [] x = False"
| "contains (n # a) x = (if x = n then True else contains a x)"

text \<open>The \<open>%v\<close> verb on a column value.\<close>

fun print_value :: "column_value \<Rightarrow> string" where
  "print_value (VString s) = s"
| "print_value VNil = ''<nil>''"
| "print_value (VOther s) = s"

fun row_loop :: "row \<Rightarrow> string slice \<times> bool \<Rightarrow> string slice \<times> bool" where
  "row_loop [] acc = acc"
| "row_loop ((key, v) # rest) (grants, update) =
     (if \<not> contains (elems grants) (print_value v)
      then row_loop rest (Some (elems grants @ [print_value v]), True)
      else row_loop rest (grants, update))"

fun rows_loop :: "nat \<Rightarrow> row list \<Rightarrow> string slice \<times> bool \<Rightarrow> string slice \<times> bool" where
  "rows_loop i [] acc = acc"
| "rows_loop i (row # rows) acc =
     rows_loop (Suc i) rows (if i > 0 then row_loop row acc else acc)"

definition grantStatusUpdate ::
  "'s env \<Rightarrow> gormdb \<Rightarrow> DatabaseUser \<Rightarrow> bool \<Rightarrow> ('s world, DatabaseUser \<times> bool \<times> error option) go" where
  "grantStatusUpdate E db inst emptied =
     (let inst = (if emptied then set_user_status (\<lambda>st. st\<lparr>ust_Grants := Some []\<rparr>) inst else inst)
      in go_bind (ask (gorm_raw_scan E db (show_grants_stmt inst))) (\<lambda>(results, txError).
         case txError of
           Some err \<Rightarrow> ret (inst, False, Some err)
         | None \<Rightarrow>
             let (grants, update) = rows_loop 0 results (ust_Grants (du_Status inst), False)
             in ret (set_user_status (\<lambda>st. st\<lparr>ust_Grants := grants\<rparr>) inst, update, None)))"

primrec grant_loop ::
  "'s env \<Rightarrow> gormdb \<Rightarrow> DatabaseUser \<Rightarrow> DatabasePermission list \<Rightarrow> ('s world, error option) go" where
  "grant_loop E db inst [] = ret None"
| "grant_loop E db inst (permission # rest) =
     go_bind (ask (k_get_Database E
        \<lparr>nn_Namespace = om_Namespace (du_Meta inst), nn_Name = dp_Name permission\<rparr>)) (\<lambda>r.
     case r of
       Inl err \<Rightarrow> ret (Some err)
     | Inr database \<Rightarrow>
         go_bind (DatabaseMine E db database) (\<lambda>mine.
         if mine \<and> dst_Name (db_Status database) \<noteq> [] then
           go_bind (runStmt E db (grant_stmt E inst permission (dst_Name (db_Status database)))) (\<lambda>_.
           grant_loop E db inst rest)
         else grant_loop E db inst rest))"

definition grant ::
  "'s env \<Rightarrow> gormdb \<Rightarrow> DatabaseUser \<Rightarrow> ('s world, DatabaseUser \<times> bool \<times> error option) go" where
  "grant E db inst =
     go_bind (grant_loop E db inst (elems (us_DatabaseList (du_Spec inst)))) (\<lambda>err.
     case err of
       Some err \<Rightarrow> ret (inst, False, Some err)
     | None \<Rightarrow>
         grantStatusUpdate E db
           (set_user_status (\<lambda>st. st\<lparr>ust_DatabaseList := us_DatabaseList (du_Spec inst)\<rparr>) inst) False)"

definition revoke ::
  "'s env \<Rightarrow> gormdb \<Rightarrow> DatabaseUser \<Rightarrow> ('s world, DatabaseUser \<times> bool \<times> error option) go" where
  "revoke E db inst =
     go_bind (runStmt E db (revoke_stmt inst)) (\<lambda>err.
     case err of
       Some err \<Rightarrow> ret (inst, False, Some err)
     | None \<Rightarrow>
         grantStatusUpdate E db (set_user_status (\<lambda>st. st\<lparr>ust_DatabaseList := Some []\<rparr>) inst) True)"

subsection \<open>Create, update, drop\<close>

definition userCreate ::
  "'s env \<Rightarrow> gormdb \<Rightarrow> DatabaseUser \<Rightarrow> Secret option \<Rightarrow> ('s world, DatabaseUser \<times> error option) go" where
  "userCreate E db inst secret =
     go_bind (userDetailString E inst secret True) (\<lambda>(inst, userDetails, err).
     case err of
       Some err \<Rightarrow> ret (inst, Some err)
     | None \<Rightarrow>
         go_bind (runStmt E db (create_user_stmt inst userDetails)) (\<lambda>err.
         case err of
           Some err \<Rightarrow> ret (inst, Some err)
         | None \<Rightarrow>
             go_bind (grant E db (set_user_status (\<lambda>st. st\<lparr>ust_Grants := Some []\<rparr>) inst))
               (\<lambda>(inst, _, err).
             go_bind (save_managed_user E db inst) (\<lambda>_.
             ret (inst, err)))))"

definition userRename ::
  "'s env \<Rightarrow> gormdb \<Rightarrow> DatabaseUser \<Rightarrow> ('s world, DatabaseUser \<times> bool \<times> error option) go" where
  "userRename E db inst =
     go_bind (runStmt E db (rename_user_stmt inst)) (\<lambda>err.
     case err of
       Some err \<Rightarrow> ret (inst, False, Some err)
     | None \<Rightarrow>
         let inst = set_user_status (\<lambda>st. st\<lparr>ust_Username := spec_username inst,
                      ust_Message := ''User renamed''\<rparr>) inst
         in go_bind (save_managed_user E db inst) (\<lambda>_. ret (inst, True, None)))"

definition userPermissions ::
  "'s env \<Rightarrow> gormdb \<Rightarrow> DatabaseUser \<Rightarrow> ('s world, DatabaseUser \<times> bool \<times> error option) go" where
  "userPermissions E db inst =
     go_bind (grantStatusUpdate E db inst False) (\<lambda>(inst, permsDiff, err).
     if err = None \<and> (permsDiff \<or> \<not> PermissionListEqual inst) then
       go_bind (if length (elems (ust_Grants (du_Status inst))) > 0
                then go_bind (revoke E db inst) (\<lambda>(inst, _, err). ret (inst, err))
                else ret (inst, None)) (\<lambda>(inst, err).
       if err = None
       then go_bind (grant E db inst) (\<lambda>(inst, _, err). ret (inst, True, err))
       else ret (inst, True, err))
     else ret (inst, permsDiff, err))"

definition userUpdate ::
  "'s env \<Rightarrow> gormdb \<Rightarrow> DatabaseUser \<Rightarrow> Secret option \<Rightarrow>
     ('s world, DatabaseUser \<times> bool \<times> error option) go" where
  "userUpdate E db inst secret =
     (if spec_username inst \<noteq> status_username inst then userRename E db inst
      else
        go_bind (userDetailString E inst secret False) (\<lambda>(inst, userDetails, err).
        case err of
          Some err \<Rightarrow> ret (inst, False, Some err)
        | None \<Rightarrow>
            if userDetails \<noteq> [] then
              go_bind (runStmt E db (alter_user_stmt inst userDetails)) (\<lambda>err.
              case err of
                Some err \<Rightarrow> ret (inst, False, Some err)
              | None \<Rightarrow> ret (user_message ''User altered'' inst, True, None))
            else userPermissions E db inst))"

definition finalizeUser :: "'s env \<Rightarrow> gormdb \<Rightarrow> DatabaseUser \<Rightarrow> ('s world, error option) go" where
  "finalizeUser E db inst =
     go_bind (perform (Exec db (drop_user_stmt inst)) (gorm_exec E db (drop_user_stmt inst))) (\<lambda>tx.
     go_bind (perform (DeleteManagedUser db (om_UID (du_Meta inst)))
                (gorm_delete_ManagedUser E db (om_UID (du_Meta inst)))) (\<lambda>_.
     ret None))"

section \<open>Reconcile\<close>

definition set_user_finalizers :: "(string list \<Rightarrow> string list) \<Rightarrow> DatabaseUser \<Rightarrow> DatabaseUser" where
  "set_user_finalizers f inst =
     inst\<lparr>du_Meta := (du_Meta inst)\<lparr>om_Finalizers := f (om_Finalizers (du_Meta inst))\<rparr>\<rparr>"

definition user_has_finalizer :: "'s env \<Rightarrow> DatabaseUser \<Rightarrow> bool" where
  "user_has_finalizer E inst \<longleftrightarrow>
     contains_finalizer E (om_Finalizers (du_Meta inst)) userFinalizer"

definition user_release :: "'s env \<Rightarrow> DatabaseUser \<Rightarrow> DatabaseUser" where
  "user_release E inst = set_user_finalizers (\<lambda>fs. remove_finalizer E fs userFinalizer) inst"

definition update_released_user :: "'s env \<Rightarrow> DatabaseUser \<Rightarrow> ('s world, error option) go" where
  "update_released_user E inst =
     perform (UpdateDatabaseUser (user_release E inst)) (k_update_DatabaseUser E (user_release E inst))"

definition user_deletion ::
  "'s env \<Rightarrow> AdminConnection option \<Rightarrow> gormdb option \<Rightarrow> DatabaseUser \<Rightarrow> ('s world, error option) go" where
  "user_deletion E adminConnection db inst =
     (if user_has_finalizer E inst then
        go_bind (case (adminConnection, db) of
                   (Some adm, Some h) \<Rightarrow> UserMine E h inst
                 | _ \<Rightarrow> ret False) (\<lambda>mine.
        go_bind (if mine then go_bind (deref db) (\<lambda>h. finalizeUser E h inst)
                 else go_bind (deref adminConnection) (\<lambda>adm. ret None)) (\<lambda>err.
        case err of
          Some err \<Rightarrow> ret (Some err)
        | None \<Rightarrow> update_released_user E inst))
      else ret None)"

definition user_unreachable ::
  "'s env \<Rightarrow> DatabaseUser \<Rightarrow> error option \<Rightarrow> ('s world, error option) go" where
  "user_unreachable E inst adminErr =
     (let inst = user_message ''Failed to further reconcile against current admin connection.'' inst
      in go_bind (perform (StatusDatabaseUser inst) (k_status_DatabaseUser E inst)) (\<lambda>err.
         case err of Some err \<Rightarrow> ret (Some err) | None \<Rightarrow> ret adminErr))"

text \<open>The secret of the loop context: read, or made with a generated password when it is not found.\<close>

definition user_secret ::
  "'s env \<Rightarrow> DatabaseUser \<Rightarrow> ('s world, Secret option \<times> error option) go" where
  "user_secret E inst =
     (case us_Identification (du_Spec inst) of
        None \<Rightarrow> ret (None, None)
      | Some ident \<Rightarrow>
          (case id_AuthString ident of
             None \<Rightarrow> ret (None, None)
           | Some src \<Rightarrow>
               go_bind (GetSecret E (om_Namespace (du_Meta inst)) (sks_SecretKeyRef src)) (\<lambda>r.
               case r of
                 Inr secret \<Rightarrow> ret (Some secret, None)
               | Inl err \<Rightarrow>
                   if is_not_found E err then
                     go_bind (createSecret E (om_Namespace (du_Meta inst)) (sks_SecretKeyRef src))
                       (\<lambda>(secret, err). ret (Some secret, err))
                   else ret (None, Some err))))"

definition user_claim_name :: "'s env \<Rightarrow> DatabaseUser \<Rightarrow> ('s world, error option) go" where
  "user_claim_name E inst =
     (let inst = set_user_status (\<lambda>st. st\<lparr>ust_Username := spec_username inst\<rparr>) inst
      in perform (StatusDatabaseUser inst) (k_status_DatabaseUser E inst))"

definition user_own_secret ::
  "'s env \<Rightarrow> DatabaseUser \<Rightarrow> Secret option \<Rightarrow> ('s world, error option) go" where
  "user_own_secret E inst secret =
     go_bind (deref secret) (\<lambda>s.
     case set_controller_reference E inst s of
       (s', Some err) \<Rightarrow> ret (Some err)
     | (s', None) \<Rightarrow> perform (UpdateSecret s') (k_update_Secret E s'))"

definition user_add_finalizer :: "'s env \<Rightarrow> DatabaseUser \<Rightarrow> ('s world, error option) go" where
  "user_add_finalizer E inst =
     (let inst = set_user_finalizers (\<lambda>fs. add_finalizer E fs userFinalizer) inst
      in perform (UpdateDatabaseUser inst) (k_update_DatabaseUser E inst))"

definition user_align ::
  "'s env \<Rightarrow> gormdb \<Rightarrow> DatabaseUser \<Rightarrow> Secret option \<Rightarrow> bool \<Rightarrow>
     ('s world, DatabaseUser \<times> error option) go" where
  "user_align E db inst secret exists =
     (if \<not> exists then
        go_bind (userCreate E db inst secret) (\<lambda>(inst, err).
        go_bind (ask (now E)) (\<lambda>t.
        ret (set_user_status (\<lambda>st. st\<lparr>ust_CreationTime := Some t,
               ust_Message := ''Created user''\<rparr>) inst, err)))
      else
        go_bind (UserMine E db inst) (\<lambda>mine.
        if mine then
          go_bind (userUpdate E db inst secret) (\<lambda>(inst, updated, err).
          if updated then
            go_bind (ask (now E)) (\<lambda>t.
            ret (set_user_status (\<lambda>st. st\<lparr>ust_SyncTime := Some t\<rparr>) inst, err))
          else ret (inst, err))
        else ret (user_message ''Ownership failed. Unable to update user.'' inst, None)))"

text \<open>
  The branch that does the work. Its \<open>err\<close> is declared again inside the branch, so the error of the
  function stays nil; the status is written only when that inner error is nil.
\<close>

definition user_sync ::
  "'s env \<Rightarrow> gormdb \<Rightarrow> DatabaseUser \<Rightarrow> Secret option \<Rightarrow> ('s world, error option) go" where
  "user_sync E db inst secret =
     go_bind (userExists E db inst) (\<lambda>(inst, exists, _).
     go_bind (user_align E db inst secret exists) (\<lambda>(inst, err).
     if err \<noteq> None then ret None
     else go_bind (perform (StatusDatabaseUser inst) (k_status_DatabaseUser E inst)) (\<lambda>_. ret None)))"

definition user_invalid_name :: "'s env \<Rightarrow> DatabaseUser \<Rightarrow> ('s world, error option) go" where
  "user_invalid_name E inst =
     (let inst = user_message ''Invalid username specified.'' inst
      in perform (StatusDatabaseUser inst) (k_status_DatabaseUser E inst))"

definition user_steps ::
  "'s env \<Rightarrow> gormdb \<Rightarrow> DatabaseUser \<Rightarrow> Secret option \<Rightarrow> ('s world, error option) go" where
  "user_steps E db inst secret =
     go_bind (if status_username inst = [] then UserMine E db inst else ret False) (\<lambda>claim.
     if claim then user_claim_name E inst
     else
       go_bind (secretOwnershipOk inst secret) (\<lambda>owned.
       if \<not> owned then user_own_secret E inst secret
       else if \<not> user_has_finalizer E inst then user_add_finalizer E inst
       else if status_username inst \<noteq> [] then user_sync E db inst secret
       else user_invalid_name E inst))"

definition user_pass ::
  "'s env \<Rightarrow> DatabaseUser \<Rightarrow> AdminConnection option \<Rightarrow> gormdb option \<Rightarrow> error option \<Rightarrow>
     ('s world, error option) go" where
  "user_pass E inst adminConnection db adminErr =
     (if om_DeletionTimestamp (du_Meta inst) \<noteq> None then user_deletion E adminConnection db inst
      else case adminConnection of
        None \<Rightarrow> user_unreachable E inst adminErr
      | Some adm \<Rightarrow>
          go_bind (user_secret E inst) (\<lambda>(secret, err).
          case err of
            Some err \<Rightarrow> ret (Some err)
          | None \<Rightarrow> go_bind (deref db) (\<lambda>h. user_steps E h inst secret)))"

definition user_Reconcile :: "'s env \<Rightarrow> NamespacedName \<Rightarrow> ('s world, error option) go" where
  "user_Reconcile E req =
     go_bind (ask (k_get_DatabaseUser E req)) (\<lambda>r.
     case r of
       Inl err \<Rightarrow> (if is_not_found E err then ret None else ret (Some err))
     | Inr inst \<Rightarrow>
         go_bind (resolve_admin E (om_Namespace (du_Meta inst)) (us_AdminConnection (du_Spec inst)))
           (\<lambda>(adminConnection, db, adminErr).
         user_pass E inst adminConnection db adminErr))"

section \<open>Deletion\<close>

definition user_drops :: "gormdb \<Rightarrow> DatabaseUser \<Rightarrow> effect list" where
  "user_drops h inst = [Exec h (drop_user_stmt inst), DeleteManagedUser h (om_UID (du_Meta inst))]"

lemma finalizeUser_run:
  "\<exists>s. finalizeUser E h x w = Ret None (w\<lparr>ext := s, effects := effects w @ user_drops h x\<rparr>)"
proof -
  have "finalizeUser E h x w = Ret None (w\<lparr>ext := snd (gorm_delete_ManagedUser E h (om_UID (du_Meta x))
      (snd (gorm_exec E h (drop_user_stmt x) (ext w)))), effects := effects w @ user_drops h x\<rparr>)"
    by (simp add: finalizeUser_def bind_perform user_drops_def)
  then show ?thesis by (rule exI)
qed

lemma user_deletion_owner:
  assumes "user_has_finalizer E x"
  shows "user_deletion E (Some a) (Some h) x =
     go_bind (UserMine E h x) (\<lambda>m.
     if m then go_bind (finalizeUser E h x) (\<lambda>err.
       case err of Some e \<Rightarrow> ret (Some e) | None \<Rightarrow> update_released_user E x)
     else update_released_user E x)"
  using assms by (simp add: user_deletion_def go_bind_if cong del: if_weak_cong)

lemma user_deletion_other:
  "\<not> user_has_finalizer E x \<Longrightarrow> user_deletion E adm db x = ret None"
  "user_has_finalizer E x \<Longrightarrow> user_deletion E (Some a) None x = update_released_user E x"
  "user_has_finalizer E x \<Longrightarrow> user_deletion E None d x = panics NilDereference"
  by (simp_all add: user_deletion_def)

interpretation user_end: deletion_flow "user_has_finalizer E" "UserMine E"
  "finalizeUser E" user_drops "update_released_user E"
  "\<lambda>inst. UpdateDatabaseUser (user_release E inst)" "user_deletion E" for E
proof
  fix E :: "'a env"
  show "observes (UserMine E h x)" for h x
    by (simp add: observesI)
  show "never_panics (UserMine E h x)" for h x
    by simp
  show "\<exists>s. finalizeUser E h x w = Ret None (w\<lparr>ext := s, effects := effects w @ user_drops h x\<rparr>)"
    for h x w
    by (rule finalizeUser_run)
  show "\<exists>s e. update_released_user E x w =
      Ret e (w\<lparr>ext := s, effects := effects w @ [UpdateDatabaseUser (user_release E x)]\<rparr>)" for x w
    by (auto simp: update_released_user_def perform_def split: prod.splits)
  show "\<not> user_has_finalizer E x \<Longrightarrow> user_deletion E adm d x = ret None" for adm d x
    by (rule user_deletion_other)
  show "user_has_finalizer E x \<Longrightarrow> user_deletion E (Some a) (Some h) x =
      go_bind (UserMine E h x) (\<lambda>m.
      if m then go_bind (finalizeUser E h x) (\<lambda>err.
        case err of Some e \<Rightarrow> ret (Some e) | None \<Rightarrow> update_released_user E x)
      else update_released_user E x)" for a h x
    by (rule user_deletion_owner)
  show "user_has_finalizer E x \<Longrightarrow> user_deletion E (Some a) None x = update_released_user E x" for a x
    by (rule user_deletion_other)
  show "user_has_finalizer E x \<Longrightarrow> user_deletion E None d x = panics NilDereference" for d x
    by (rule user_deletion_other)
qed

end
