(* ===== verification/User_Effects.thy ===== *)
theory User_Effects
  imports Database_User_Controller
begin

text \<open>
  What one pass over a \<open>DatabaseUser\<close> can do to the outside: \<open>user_effect\<close> lists it, and
  \<open>user_pass_emits\<close> shows that the list is complete. The loop's instance keeps its metadata, its
  specification and, up to a rename, its user name, so every statement of the pass is about the
  two names the object has.
\<close>

definition same_account :: "DatabaseUser \<Rightarrow> DatabaseUser \<Rightarrow> bool" where
  "same_account inst i \<longleftrightarrow> du_Meta i = du_Meta inst \<and> du_Spec i = du_Spec inst \<and>
     status_username i = status_username inst"

definition same_user :: "DatabaseUser \<Rightarrow> DatabaseUser \<Rightarrow> bool" where
  "same_user inst i \<longleftrightarrow> du_Meta i = du_Meta inst \<and> du_Spec i = du_Spec inst \<and>
     status_username i \<in> {status_username inst, spec_username inst}"

text \<open>What the authentication and TLS options of an object may become in a statement.\<close>

definition details :: "string \<Rightarrow> bool" where
  "details d \<longleftrightarrow>
     (\<exists>p a clear t. t \<in> {[], '' REQUIRE SSL'', '' REQUIRE NONE''} \<and>
        d = identification_fragment (Escape p) (Escape a) clear @ t)"

text \<open>The statements for a live object.\<close>

definition account_statement :: "'s env \<Rightarrow> DatabaseUser \<Rightarrow> string \<Rightarrow> bool" where
  "account_statement E inst q \<longleftrightarrow>
     (\<exists>d. details d \<and> q = create_user_stmt inst d) \<or> (\<exists>d. details d \<and> q = alter_user_stmt inst d) \<or>
     q = rename_user_stmt inst \<or> q = revoke_stmt inst \<or>
     (\<exists>p sch. p \<in> set (elems (us_DatabaseList (du_Spec inst))) \<and> q = grant_stmt E inst p sch)"

definition user_deleted :: "DatabaseUser \<Rightarrow> bool" where
  "user_deleted inst \<longleftrightarrow> om_DeletionTimestamp (du_Meta inst) \<noteq> None"

text \<open>An object is ready for the account to be touched once its name is claimed and it has the finalizer.\<close>

definition user_ready :: "'s env \<Rightarrow> DatabaseUser \<Rightarrow> bool" where
  "user_ready E inst \<longleftrightarrow>
     \<not> user_deleted inst \<and> user_has_finalizer E inst \<and> status_username inst \<noteq> []"

text \<open>
  The secret of an object is the one that its identification names, in its own namespace. It comes from the API server, which
  was asked for it by that key, or asked to create it under that key.
\<close>

definition secret_selector :: "DatabaseUser \<Rightarrow> SecretKeySelector option" where
  "secret_selector inst =
     Option.bind (us_Identification (du_Spec inst)) (\<lambda>ident. map_option sks_SecretKeyRef (id_AuthString ident))"

definition names_secret :: "DatabaseUser \<Rightarrow> NamespacedName \<Rightarrow> bool" where
  "names_secret inst k \<longleftrightarrow>
     (\<exists>sel. secret_selector inst = Some sel \<and> k = \<lparr>nn_Namespace = om_Namespace (du_Meta inst), nn_Name = sel_Name sel\<rparr>)"

definition new_secret :: "DatabaseUser \<Rightarrow> Secret \<Rightarrow> bool" where
  "new_secret inst x \<longleftrightarrow>
     (\<exists>sel password. secret_selector inst = Some sel \<and> om_Namespace (sec_Meta x) = om_Namespace (du_Meta inst) \<and>
        om_Name (sec_Meta x) = sel_Name sel \<and> sec_Data x = [(sel_Key sel, password)])"

definition own_secret :: "'s env \<Rightarrow> DatabaseUser \<Rightarrow> Secret \<Rightarrow> bool" where
  "own_secret E inst x \<longleftrightarrow>
     (\<exists>k s. names_secret inst k \<and> fst (k_get_Secret E k s) = Inr x) \<or>
     (\<exists>made s. new_secret inst made \<and> fst (fst (k_create_Secret E made s)) = x)"

definition user_effect :: "'s env \<Rightarrow> DatabaseUser \<Rightarrow> effect \<Rightarrow> bool" where
  "user_effect E inst e \<longleftrightarrow>
     (case e of
        Exec h q \<Rightarrow>
          (user_ready E inst \<and> account_statement E inst q) \<or>
          (user_deleted inst \<and> user_has_finalizer E inst \<and> q = drop_user_stmt inst)
      | SaveManagedUser h row \<Rightarrow> user_ready E inst \<and> row = managed_user inst
      | DeleteManagedUser h u \<Rightarrow>
          user_deleted inst \<and> user_has_finalizer E inst \<and> u = om_UID (du_Meta inst)
      | Commit h \<Rightarrow> user_ready E inst
      | CreateSecret x \<Rightarrow> \<not> user_deleted inst \<and> new_secret inst x
      | UpdateSecret x' \<Rightarrow>
          \<not> user_deleted inst \<and> (\<exists>x. own_secret E inst x \<and> set_controller_reference E inst x = (x', None))
      | StatusDatabaseUser i \<Rightarrow> \<not> user_deleted inst \<and> same_user inst i
      | UpdateDatabaseUser i \<Rightarrow>
          (\<not> user_deleted inst \<and> i = set_user_finalizers (\<lambda>fs. add_finalizer E fs userFinalizer) inst) \<or>
          (user_deleted inst \<and> user_has_finalizer E inst \<and> i = user_release E inst)
      | _ \<Rightarrow> False)"

lemma same_account_refl [simp]: "same_account inst inst" "same_user inst inst"
  by (simp_all add: same_account_def same_user_def)

lemma same_account_user: "same_account inst i \<Longrightarrow> same_user inst i"
  by (simp add: same_account_def same_user_def)

lemma same_account_status:
  "(\<And>st. ust_Username (f st) = ust_Username st) \<Longrightarrow>
     same_account inst (set_user_status f i) = same_account inst i"
  by (simp add: same_account_def set_user_status_def status_username_def)

lemma same_user_status:
  "(\<And>st. ust_Username (f st) = ust_Username st) \<Longrightarrow>
     same_user inst (set_user_status f i) = same_user inst i"
  by (simp add: same_user_def set_user_status_def status_username_def)

lemma same_user_message [simp]:
  "same_account inst (user_message m i) = same_account inst i"
  "same_user inst (user_message m i) = same_user inst i"
  by (simp_all add: user_message_def same_account_status same_user_status)

lemma same_account_texts:
  assumes "same_account inst i"
  shows "create_user_stmt i = create_user_stmt inst" "alter_user_stmt i = alter_user_stmt inst"
    "rename_user_stmt i = rename_user_stmt inst" "revoke_stmt i = revoke_stmt inst"
    "grant_stmt E i = grant_stmt E inst" "managed_user i = managed_user inst"
    "us_DatabaseList (du_Spec i) = us_DatabaseList (du_Spec inst)"
  using assms
  by (simp_all add: same_account_def fun_eq_iff create_user_stmt_def alter_user_stmt_def
      rename_user_stmt_def revoke_stmt_def grant_stmt_def managed_user_def spec_username_def)

text \<open>Every result of an operation is the instance with another status, next to something else.\<close>

abbreviation keeps_account :: "DatabaseUser \<Rightarrow> DatabaseUser \<times> 'b \<Rightarrow> bool" where
  "keeps_account inst \<equiv> \<lambda>(i, _). same_account inst i"

abbreviation keeps_user :: "DatabaseUser \<Rightarrow> DatabaseUser \<times> 'b \<Rightarrow> bool" where
  "keeps_user inst \<equiv> \<lambda>(i, _). same_user inst i"

named_theorems user_facts
  \<open>effects and results of the operations on an account\<close>

lemma yields_keeps_bind:
  assumes "yields (keeps_account inst) m"
    and "\<And>i x. same_account inst i \<Longrightarrow> yields R (f (i, x))"
  shows "yields R (go_bind m f)"
  by (rule yields_bind [OF assms(1)]) (auto intro: assms(2))

lemma emits_keeps_bind:
  assumes "emits P m" "yields (keeps_account inst) m"
    and "\<And>i x. same_account inst i \<Longrightarrow> emits P (f (i, x))"
  shows "emits P (go_bind m f)"
  by (rule emits_bind_yields [OF assms(1,2)]) (auto intro: assms(3))

lemma keeps_account_user: "yields (keeps_account inst) m \<Longrightarrow> yields (keeps_user inst) m"
  by (force simp: yields_def same_account_user split: run.splits)

lemma yields_sum:
  "(\<And>y. x = Inl y \<Longrightarrow> yields R (f y)) \<Longrightarrow> (\<And>y. x = Inr y \<Longrightarrow> yields R (g y)) \<Longrightarrow>
     yields R (case x of Inl y \<Rightarrow> f y | Inr y \<Rightarrow> g y)"
  by (cases x) auto

section \<open>The operations on an account\<close>

lemma userExists_keeps [user_facts]:
  "emits P (userExists E h i)" "same_account inst i \<Longrightarrow> yields (keeps_account inst) (userExists E h i)"
  unfolding userExists_def
  by (intro emits_intros, intro yields_after yields_case_option yields_ret)
     (auto simp: same_account_status)

lemma userDetailString_keeps [user_facts]:
  "emits P (userDetailString E i secret b)"
  "same_account inst i \<Longrightarrow> yields (keeps_account inst) (userDetailString E i secret b)"
  unfolding userDetailString_def Let_def
  by (intro emits_intros GetSecretRefValue_emits,
      intro yields_after yields_case_option yields_sum yields_ret)
     (auto simp: same_account_status)

lemma details_tls: "details (tls_fragment i)" "details []"
proof -
  have "details t" if "t \<in> {[], '' REQUIRE SSL'', '' REQUIRE NONE''}" for t
    using that unfolding details_def
    by (intro exI [of _ "[]"] exI [of _ t]) (simp add: identification_fragment_def)
  then show "details (tls_fragment i)" "details []" by (simp_all add: tls_fragment_def)
qed

lemma details_fragment: "details (identification_fragment (Escape p) (Escape a) clear @ tls_fragment i)"
  unfolding details_def
  by (intro exI [of _ p] exI [of _ a] exI [of _ clear] exI [of _ "tls_fragment i"])
     (simp add: tls_fragment_def)

lemma userDetailString_details:
  "same_account inst i \<Longrightarrow>
     yields (\<lambda>(j, d, err). same_account inst j \<and> details d) (userDetailString E i secret b)"
  unfolding userDetailString_def Let_def
  by (intro yields_after yields_case_option yields_sum yields_ret)
     (auto simp: same_account_status details_tls details_fragment)

lemma emits_details:
  assumes "same_account inst i"
    and "\<And>j d err. same_account inst j \<Longrightarrow> details d \<Longrightarrow> emits P (f j d err)"
  shows "emits P (go_bind (userDetailString E i secret b) (\<lambda>(j, d, err). f j d err))"
  by (rule emits_bind_yields [OF userDetailString_keeps(1) userDetailString_details [OF assms(1)]])
     (auto intro: assms(2))

lemma grantStatusUpdate_keeps [user_facts]:
  "emits P (grantStatusUpdate E h i b)"
  "same_account inst i \<Longrightarrow> yields (keeps_account inst) (grantStatusUpdate E h i b)"
  unfolding grantStatusUpdate_def Let_def
  by (intro emits_intros, intro yields_after yields_case_prod yields_case_option yields_ret)
     (auto simp: same_account_status)

lemma runStmt_emits: "(\<And>g. P (Exec g q)) \<Longrightarrow> emits P (runStmt E h q)"
  unfolding runStmt_def by (intro emits_intros)

lemma grant_loop_emits:
  assumes "\<And>g p sch. p \<in> set ps \<Longrightarrow> P (Exec g (grant_stmt E i p sch))"
  shows "emits P (grant_loop E h i ps)"
  using assms
proof (induction ps)
  case Nil
  then show ?case by simp
next
  case (Cons p ps)
  then have "emits P (grant_loop E h i ps)" by simp
  moreover have "emits P (runStmt E h (grant_stmt E i p sch))" for sch
    by (rule runStmt_emits) (simp add: Cons.prems)
  ultimately show ?case
    unfolding grant_loop.simps by (intro emits_intros) auto
qed

lemma statement_effect:
  "user_ready E inst \<Longrightarrow> account_statement E inst q \<Longrightarrow> user_effect E inst (Exec g q)"
  by (simp add: user_effect_def)

lemma account_statements [user_facts]:
  assumes "same_account inst i"
  shows "details d \<Longrightarrow> account_statement E inst (create_user_stmt i d)"
    "details d \<Longrightarrow> account_statement E inst (alter_user_stmt i d)"
    "account_statement E inst (rename_user_stmt i)"
    "account_statement E inst (revoke_stmt i)"
    "p \<in> set (elems (us_DatabaseList (du_Spec i))) \<Longrightarrow> account_statement E inst (grant_stmt E i p sch)"
  unfolding account_statement_def same_account_texts [OF assms] by blast+

lemma run_account_statement:
  "user_ready E inst \<Longrightarrow> account_statement E inst q \<Longrightarrow> emits (user_effect E inst) (runStmt E h q)"
  by (intro runStmt_emits statement_effect)

lemma grant_keeps [user_facts]:
  assumes "user_ready E inst" and "same_account inst i"
  shows "emits (user_effect E inst) (grant E h i)"
  unfolding grant_def
  by (intro emits_intros grant_loop_emits user_facts statement_effect assms)

lemma revoke_keeps [user_facts]:
  assumes "user_ready E inst" and "same_account inst i"
  shows "emits (user_effect E inst) (revoke E h i)"
  unfolding revoke_def
  by (intro emits_intros run_account_statement user_facts assms)

lemma grant_revoke_yields [user_facts]:
  assumes "same_account inst i"
  shows "yields (keeps_account inst) (grant E h i)" "yields (keeps_account inst) (revoke E h i)"
  unfolding grant_def revoke_def using assms
  by (intro yields_after yields_case_option yields_ret user_facts; simp add: same_account_status)+

lemma save_managed_user_emits [user_facts]:
  assumes "user_ready E inst" and "managed_user i = managed_user inst"
  shows "emits (user_effect E inst) (save_managed_user E h i)"
  unfolding save_managed_user_def
  by (intro emits_intros) (simp_all add: user_effect_def assms)

section \<open>Create and update\<close>

lemma yields_keeps_pair:
  "yields (keeps_account inst) m \<Longrightarrow>
     (\<And>i y z. same_account inst i \<Longrightarrow> yields R (f i y z)) \<Longrightarrow> yields R (go_bind m (\<lambda>(i, y, z). f i y z))"
  by (rule yields_keeps_bind) auto

lemma emits_keeps_pair:
  "emits P m \<Longrightarrow> yields (keeps_account inst) m \<Longrightarrow>
     (\<And>i y z. same_account inst i \<Longrightarrow> emits P (f i y z)) \<Longrightarrow> emits P (go_bind m (\<lambda>(i, y, z). f i y z))"
  by (rule emits_keeps_bind) auto

lemma userCreate_keeps [user_facts]:
  assumes r: "user_ready E inst" and i: "same_account inst i"
  shows "emits (user_effect E inst) (userCreate E h i secret)"
    and "yields (keeps_account inst) (userCreate E h i secret)"
proof -
  have save: "emits (user_effect E inst) (save_managed_user E h j)" if "same_account inst j" for j
    using that by (intro user_facts r) (rule same_account_texts)
  have grants: "same_account inst (set_user_status (\<lambda>st. st\<lparr>ust_Grants := Some []\<rparr>) j)"
    if "same_account inst j" for j
    using that by (simp add: same_account_status)
  have tail: "emits (user_effect E inst)
      (go_bind (grant E h (set_user_status (\<lambda>st. st\<lparr>ust_Grants := Some []\<rparr>) j)) (\<lambda>(inst, _, err).
        go_bind (save_managed_user E h inst) (\<lambda>_. ret (inst, err))))" if "same_account inst j" for j
    by (rule emits_keeps_pair [OF grant_keeps [OF r grants [OF that]]
          grant_revoke_yields(1) [OF grants [OF that]]])
      (intro emits_intros save)
  show "emits (user_effect E inst) (userCreate E h i secret)"
    unfolding userCreate_def
    by (rule emits_details [OF i])
      (intro emits_case_option emits_bind emits_ret tail run_account_statement user_facts r)
  show "yields (keeps_account inst) (userCreate E h i secret)"
    unfolding userCreate_def
    apply (rule yields_keeps_pair [OF userDetailString_keeps(2) [OF i]])
    apply (intro yields_case_option yields_after [where m = "runStmt _ _ _"] yields_ret; simp?)
    apply (rule yields_keeps_pair [OF grant_revoke_yields(1) [OF grants]], assumption)
    apply (intro yields_after yields_ret, simp)
    done
qed

lemma userRename_keeps [user_facts]:
  assumes r: "user_ready E inst" and i: "same_account inst i"
  shows "emits (user_effect E inst) (userRename E h i)"
    and "yields (keeps_user inst) (userRename E h i)"
proof -
  have spec: "managed_user (set_user_status f i) = managed_user inst" for f
    using same_account_texts(6) [OF i] by (simp add: managed_user_def spec_username_def set_user_status_def)
  show "emits (user_effect E inst) (userRename E h i)"
    unfolding userRename_def Let_def
    by (intro emits_intros run_account_statement user_facts r i spec)
  show "yields (keeps_user inst) (userRename E h i)"
    unfolding userRename_def Let_def using i
    by (intro yields_after yields_case_option yields_ret)
       (simp_all add: same_user_def same_account_def set_user_status_def status_username_def spec_username_def)
qed

lemma userPermissions_keeps [user_facts]:
  assumes r: "user_ready E inst" and i: "same_account inst i"
  shows "emits (user_effect E inst) (userPermissions E h i)"
    and "yields (keeps_account inst) (userPermissions E h i)"
proof -
  let ?clear = "\<lambda>j. (if length (elems (ust_Grants (du_Status j))) > 0
       then go_bind (revoke E h j) (\<lambda>(j, _, err). ret (j, err)) else ret (j, None))"
  have clear: "emits (user_effect E inst) (?clear j)" "yields (keeps_account inst) (?clear j)"
    if "same_account inst j" for j
    using that
    by (intro emits_intros user_facts r; simp)
       (intro yields_if yields_keeps_pair [OF grant_revoke_yields(2)] yields_ret; simp add: that)
  show "emits (user_effect E inst) (userPermissions E h i)"
    unfolding userPermissions_def
    by (rule emits_keeps_pair [OF grantStatusUpdate_keeps(1) grantStatusUpdate_keeps(2) [OF i]],
        intro emits_if emits_ret emits_keeps_bind [OF clear], assumption+,
        auto intro!: emits_intros user_facts r)
  show "yields (keeps_account inst) (userPermissions E h i)"
    unfolding userPermissions_def
    by (rule yields_keeps_pair [OF grantStatusUpdate_keeps(2) [OF i]],
        intro yields_if yields_keeps_bind [OF clear(2)], assumption,
        auto intro!: yields_if yields_ret yields_keeps_pair [OF grant_revoke_yields(1)])
qed

lemma userUpdate_keeps [user_facts]:
  assumes r: "user_ready E inst" and i: "same_account inst i"
  shows "emits (user_effect E inst) (userUpdate E h i secret)"
    and "yields (keeps_user inst) (userUpdate E h i secret)"
proof -
  have run: "emits (user_effect E inst) (runStmt E h (alter_user_stmt j d))"
    if "same_account inst j" "details d" for j d
    by (intro run_account_statement user_facts r that)
  show "emits (user_effect E inst) (userUpdate E h i secret)"
    unfolding userUpdate_def
    by (rule emits_if, rule userRename_keeps [OF r i], rule emits_details [OF i])
       (auto intro!: emits_case_option emits_bind emits_ret run userPermissions_keeps r)
  show "yields (keeps_user inst) (userUpdate E h i secret)"
    unfolding userUpdate_def
    by (rule yields_if, rule userRename_keeps [OF r i],
        rule yields_keeps_pair [OF userDetailString_keeps(2) [OF i]])
       (auto intro!: yields_case_option yields_after [where m = "runStmt _ _ _"] yields_ret
          keeps_account_user userPermissions_keeps r same_account_user)
qed

section \<open>The pass\<close>

lemma user_align_keeps [user_facts]:
  assumes r: "user_ready E inst" and i: "same_account inst i"
  shows "emits (user_effect E inst) (user_align E h i secret ex)"
    and "yields (keeps_user inst) (user_align E h i secret ex)"
proof -
  show "emits (user_effect E inst) (user_align E h i secret ex)"
    unfolding user_align_def
    by (intro emits_intros user_facts r i)
  have stamp: "same_user inst (set_user_status (\<lambda>st. st\<lparr>ust_SyncTime := t\<rparr>) j)"
    "same_user inst (set_user_status (\<lambda>st. st\<lparr>ust_CreationTime := t, ust_Message := m\<rparr>) j)"
    if "same_user inst j" for j t m
    using that by (simp_all add: same_user_status)
  have created: "yields (keeps_user inst) (go_bind (userCreate E h i secret) f)"
    if "\<And>j err. same_account inst j \<Longrightarrow> yields (keeps_user inst) (f (j, err))" for f
    by (rule yields_keeps_bind [OF userCreate_keeps(2) [OF r i]]) (rule that)
  have updated: "yields (keeps_user inst) (go_bind (userUpdate E h i secret) f)"
    if "\<And>j x. same_user inst j \<Longrightarrow> yields (keeps_user inst) (f (j, x))" for f
    by (rule yields_bind [OF userUpdate_keeps(2) [OF r i]]) (auto intro!: that)
  show "yields (keeps_user inst) (user_align E h i secret ex)"
    unfolding user_align_def using i same_account_user [OF i]
    by (auto intro!: created updated yields_ask yields_ret stamp
        yields_after [where m = "UserMine E h i"] dest: same_account_user)
qed

lemma status_effect: "\<not> user_deleted inst \<Longrightarrow> same_user inst i \<Longrightarrow> user_effect E inst (StatusDatabaseUser i)"
  by (simp add: user_effect_def)

lemma user_sync_emits [user_facts]:
  assumes r: "user_ready E inst"
  shows "emits (user_effect E inst) (user_sync E h inst secret)"
proof -
  have "\<not> user_deleted inst" using r by (simp add: user_ready_def)
  note status = status_effect [OF this]
  have tail: "emits (user_effect E inst) (go_bind (user_align E h i secret ex) (\<lambda>(i, err).
      if err \<noteq> None then ret None
      else go_bind (perform (StatusDatabaseUser i) (k_status_DatabaseUser E i)) (\<lambda>_. ret None)))"
    if "same_account inst i" for i ex
    by (rule emits_bind_yields [OF user_align_keeps [OF r that]])
       (auto intro!: emits_intros status)
  show ?thesis
    unfolding user_sync_def
    by (rule emits_keeps_pair [OF userExists_keeps(1) userExists_keeps(2) [OF same_account_refl(1)]])
      (rule tail)
qed

lemma createSecret_emits:
  "(\<And>x password. om_Namespace (sec_Meta x) = ns \<Longrightarrow> om_Name (sec_Meta x) = sel_Name sel \<Longrightarrow>
      sec_Data x = [(sel_Key sel, password)] \<Longrightarrow> P (CreateSecret x)) \<Longrightarrow>
    emits P (createSecret E ns sel)"
  unfolding createSecret_def GeneratePassword_def Let_def
  by (intro emits_bind emits_perform append_random_emits shuffle_loop_emits) simp

lemma user_secret_emits: "\<not> user_deleted inst \<Longrightarrow> emits (user_effect E inst) (user_secret E inst)"
  unfolding user_secret_def
  by (intro emits_intros createSecret_emits) (simp add: user_effect_def new_secret_def secret_selector_def)

text \<open>The secret that the pass goes on with is the object's own, even when its creation has failed.\<close>

lemma yields_ask_result: "(\<And>s. yields R (f (fst (g s)))) \<Longrightarrow> yields R (go_bind (ask g) f)"
  by (simp add: yields_def bind_ask split_beta)

lemma yields_perform_result: "(\<And>s. yields R (f (fst (g s)))) \<Longrightarrow> yields R (go_bind (perform e g) f)"
  by (simp add: yields_def bind_perform split_beta)

lemma user_secret_yields:
  "yields (\<lambda>(secret, err). \<forall>x. secret = Some x \<longrightarrow> own_secret E inst x) (user_secret E inst)"
proof -
  have own: "own_secret E inst x"
    if "secret_selector inst = Some sel"
      "fst (k_get_Secret E \<lparr>nn_Namespace = om_Namespace (du_Meta inst), nn_Name = sel_Name sel\<rparr> s) = Inr x" for sel s x
    using that unfolding own_secret_def names_secret_def by blast
  have made: "own_secret E inst (fst (fst (k_create_Secret E m s)))" if "new_secret inst m" for m s
    using that unfolding own_secret_def by blast
  have create: "yields (\<lambda>(secret, err). \<forall>x. secret = Some x \<longrightarrow> own_secret E inst x)
      (go_bind (createSecret E (om_Namespace (du_Meta inst)) sel) (\<lambda>(secret, err). ret (Some secret, err)))"
    if "secret_selector inst = Some sel" for sel
    unfolding createSecret_def Let_def go_bind_assoc using that
    by (intro yields_after yields_perform_result) (simp add: split_beta yields_ret made new_secret_def)
  show ?thesis
    unfolding user_secret_def GetSecret_def
    by (intro yields_case_option yields_ask_result yields_sum yields_if yields_ret create)
       (auto intro: own simp: secret_selector_def)
qed

lemma secretOwnershipOk_emits: "emits P (secretOwnershipOk inst secret)"
proof -
  have "emits P (owner_loop inst owners)" for owners
    by (induction owners) (auto intro!: emits_intros)
  then show ?thesis
    unfolding secretOwnershipOk_def by (intro emits_intros)
qed

lemma user_steps_emits:
  assumes "\<not> user_deleted inst" and "\<And>x. secret = Some x \<Longrightarrow> own_secret E inst x"
  shows "emits (user_effect E inst) (user_steps E h inst secret)"
proof -
  have "emits (user_effect E inst) (user_claim_name E inst)"
    unfolding user_claim_name_def Let_def
    by (intro emits_perform status_effect assms(1))
       (simp add: same_user_def set_user_status_def status_username_def spec_username_def)
  moreover have "emits (user_effect E inst) (user_own_secret E inst secret)"
  proof (cases secret)
    case (Some x)
    then show ?thesis
      unfolding user_own_secret_def deref_def using assms
      by (auto intro!: emits_intros simp: user_effect_def)
  qed (simp add: user_own_secret_def)
  moreover have "emits (user_effect E inst) (user_add_finalizer E inst)"
    unfolding user_add_finalizer_def Let_def using assms(1)
    by (intro emits_intros) (simp add: user_effect_def)
  moreover have "emits (user_effect E inst) (user_invalid_name E inst)"
    unfolding user_invalid_name_def Let_def by (intro emits_perform status_effect assms(1)) simp
  ultimately show ?thesis
    unfolding user_steps_def using assms(1)
    by (intro emits_intros secretOwnershipOk_emits user_facts) (simp_all add: user_ready_def)
qed

lemma user_deletion_emits:
  assumes "user_deleted inst"
  shows "emits (user_effect E inst) (user_deletion E adm db inst)"
  unfolding user_deletion_def finalizeUser_def update_released_user_def using assms
  by (auto intro!: emits_intros simp: user_effect_def)

lemma user_pass_emits: "emits (user_effect E inst) (user_pass E inst adm db err)"
proof (cases "user_deleted inst")
  case True
  then show ?thesis
    using user_deletion_emits [of inst E adm db] by (simp add: user_pass_def user_deleted_def)
next
  case False
  then have "emits (user_effect E inst) (user_unreachable E inst err)"
    unfolding user_unreachable_def Let_def by (intro emits_intros status_effect) simp_all
  moreover have "emits (user_effect E inst) (go_bind (user_secret E inst) (\<lambda>(secret, err).
      case err of Some err \<Rightarrow> ret (Some err) | None \<Rightarrow> go_bind (deref db) (\<lambda>h. user_steps E h inst secret)))"
    by (rule emits_bind_yields [OF user_secret_emits [OF False] user_secret_yields])
       (auto intro!: emits_intros user_steps_emits False)
  ultimately show ?thesis
    using False unfolding user_pass_def by (cases adm) (simp_all add: user_deleted_def)
qed

end
