(* ===== verification/Database_Controller.thy ===== *)
theory Database_Controller
  imports Controller_Base
begin

text \<open>
  \<open>controllers/database_controller.go\<close>: the reconcile loop of \<open>Database\<close>. One pass either ends the life of
  an object that is marked for deletion, or records that there is no admin connection, or
  adds the finalizer, or brings the schema of the server in line with the object
  (\<open>databaseExists\<close>, \<open>databaseCreate\<close>, \<open>databaseUpdate\<close>) and writes the status.
\<close>

section \<open>Statements\<close>

definition dbFinalizer :: string where
  "dbFinalizer = ''mysql.apps.cuppett.dev/db-finalizer''"

definition create_database_stmt :: "DatabaseSpec \<Rightarrow> string" where
  "create_database_stmt spec =
     ''CREATE DATABASE `'' @ ds_Name spec @ ''`'' @
     (if ds_CharacterSet spec \<noteq> [] then '' CHARACTER SET '' @ ds_CharacterSet spec else []) @
     (if ds_Collate spec \<noteq> [] then '' COLLATE '' @ ds_Collate spec else [])"

definition charset_differs :: "Database \<Rightarrow> bool" where
  "charset_differs inst \<longleftrightarrow> ds_CharacterSet (db_Spec inst) \<noteq> [] \<and>
     ds_CharacterSet (db_Spec inst) \<noteq> dst_CharacterSet (db_Status inst)"

definition collate_differs :: "Database \<Rightarrow> bool" where
  "collate_differs inst \<longleftrightarrow> ds_Collate (db_Spec inst) \<noteq> [] \<and>
     ds_Collate (db_Spec inst) \<noteq> dst_Collate (db_Status inst)"

definition alter_database_stmt :: "Database \<Rightarrow> string" where
  "alter_database_stmt inst =
     ''ALTER DATABASE `'' @ ds_Name (db_Spec inst) @ ''`'' @
     (if charset_differs inst then '' CHARACTER SET '' @ ds_CharacterSet (db_Spec inst) else []) @
     (if collate_differs inst then '' COLLATE '' @ ds_Collate (db_Spec inst) else [])"

definition drop_database_stmt :: "string \<Rightarrow> string" where
  "drop_database_stmt n = ''DROP DATABASE IF EXISTS `'' @ n @ ''`''"

definition managed_database :: "Database \<Rightarrow> ManagedDatabase" where
  "managed_database inst =
     \<lparr>md_Uuid = om_UID (db_Meta inst), md_Namespace = om_Namespace (db_Meta inst),
      md_Name = om_Name (db_Meta inst), md_DatabaseName = ds_Name (db_Spec inst)\<rparr>"

definition set_db_status :: "(DatabaseStatus \<Rightarrow> DatabaseStatus) \<Rightarrow> Database \<Rightarrow> Database" where
  "set_db_status f inst = inst\<lparr>db_Status := f (db_Status inst)\<rparr>"

definition set_db_finalizers :: "(string list \<Rightarrow> string list) \<Rightarrow> Database \<Rightarrow> Database" where
  "set_db_finalizers f inst =
     inst\<lparr>db_Meta := (db_Meta inst)\<lparr>om_Finalizers := f (om_Finalizers (db_Meta inst))\<rparr>\<rparr>"

lemma set_db_status_simps [simp]:
  "db_Spec (set_db_status f inst) = db_Spec inst" "db_Meta (set_db_status f inst) = db_Meta inst"
  "db_Status (set_db_status f inst) = f (db_Status inst)"
  by (simp_all add: set_db_status_def)

section \<open>Operations\<close>

text \<open>Each returns the loop's instance as it leaves it, next to the results of the Go function.\<close>

definition databaseExists ::
  "'s env \<Rightarrow> gormdb \<Rightarrow> Database \<Rightarrow> ('s world, Database \<times> bool \<times> error option) go" where
  "databaseExists E db inst =
     go_bind (DatabaseExists E db (ds_Name (db_Spec inst))) (\<lambda>schema.
     case schema of
       None \<Rightarrow> ret (inst, False, None)
     | Some schema \<Rightarrow>
         let inst = set_db_status (\<lambda>st.
               if dst_Collate st = [] \<or> dst_Collate st \<noteq> sch_DefaultCollation schema
               then st\<lparr>dst_Collate := sch_DefaultCollation schema\<rparr> else st) inst;
             inst = set_db_status (\<lambda>st.
               if dst_CharacterSet st = [] \<or> dst_CharacterSet st \<noteq> sch_DefaultCharacterSet schema
               then st\<lparr>dst_CharacterSet := sch_DefaultCharacterSet schema\<rparr> else st) inst
         in ret (inst, True, None))"

definition databaseUpdate ::
  "'s env \<Rightarrow> gormdb \<Rightarrow> Database \<Rightarrow> ('s world, Database \<times> bool \<times> error option) go" where
  "databaseUpdate E db inst =
     (let requireAlter = charset_differs inst \<or> collate_differs inst;
          alterQuery = alter_database_stmt inst;
          inst' = set_db_status (\<lambda>st. if charset_differs inst
                    then st\<lparr>dst_CharacterSet := ds_CharacterSet (db_Spec inst)\<rparr> else st) inst;
          inst' = set_db_status (\<lambda>st. if collate_differs inst
                    then st\<lparr>dst_Collate := ds_Collate (db_Spec inst)\<rparr> else st) inst'
      in if requireAlter then
           go_bind (perform (Exec db alterQuery) (gorm_exec E db alterQuery)) (\<lambda>tx.
           case tx_Error tx of
             Some err \<Rightarrow> ret (inst', False, Some err)
           | None \<Rightarrow>
               go_bind (databaseExists E db inst') (\<lambda>(inst', _, err). ret (inst', requireAlter, err)))
         else
           go_bind (databaseExists E db inst') (\<lambda>(inst', _, err). ret (inst', requireAlter, err)))"

definition databaseCreate ::
  "'s env \<Rightarrow> gormdb \<Rightarrow> Database \<Rightarrow> ('s world, Database \<times> bool \<times> error option) go" where
  "databaseCreate E db inst =
     (let createQuery = create_database_stmt (db_Spec inst);
          inst = set_db_status (\<lambda>st. if ds_CharacterSet (db_Spec inst) \<noteq> []
                   then st\<lparr>dst_CharacterSet := ds_CharacterSet (db_Spec inst)\<rparr> else st) inst;
          inst = set_db_status (\<lambda>st. if ds_Collate (db_Spec inst) \<noteq> []
                   then st\<lparr>dst_Collate := ds_Collate (db_Spec inst)\<rparr> else st) inst
      in go_bind (perform (Exec db createQuery) (gorm_exec E db createQuery)) (\<lambda>tx.
         case tx_Error tx of
           Some err \<Rightarrow> ret (inst, False, Some err)
         | None \<Rightarrow>
             go_bind (perform (CreateManagedDatabase (tx_DB tx) (managed_database inst))
                        (gorm_create_ManagedDatabase E (tx_DB tx) (managed_database inst))) (\<lambda>tx.
             go_bind (perform (Commit (tx_DB tx)) (gorm_commit E (tx_DB tx))) (\<lambda>_.
             databaseExists E db inst))))"

definition finalizeDatabase ::
  "'s env \<Rightarrow> gormdb \<Rightarrow> Database \<Rightarrow> ('s world, error option) go" where
  "finalizeDatabase E db inst =
     (let stmt = drop_database_stmt (ds_Name (db_Spec inst))
      in go_bind (perform (Exec db stmt) (gorm_exec E db stmt)) (\<lambda>tx.
         go_bind (perform (DeleteManagedDatabase db (om_UID (db_Meta inst)))
                    (gorm_delete_ManagedDatabase E db (om_UID (db_Meta inst)))) (\<lambda>_.
         ret None)))"

section \<open>Reconcile\<close>

definition database_has_finalizer :: "'s env \<Rightarrow> Database \<Rightarrow> bool" where
  "database_has_finalizer E inst \<longleftrightarrow>
     contains_finalizer E (om_Finalizers (db_Meta inst)) dbFinalizer"

text \<open>\<open>RemoveFinalizer\<close> and the update of the object.\<close>

definition database_release :: "'s env \<Rightarrow> Database \<Rightarrow> Database" where
  "database_release E inst = set_db_finalizers (\<lambda>fs. remove_finalizer E fs dbFinalizer) inst"

definition update_released_database :: "'s env \<Rightarrow> Database \<Rightarrow> ('s world, error option) go" where
  "update_released_database E inst =
     perform (UpdateDatabase (database_release E inst)) (k_update_Database E (database_release E inst))"

text \<open>
  The branch for an object with a deletion timestamp. The log line of the branch that does not drop
  reads \<open>adminConnection.Spec.Host\<close>.
\<close>

definition database_deletion ::
  "'s env \<Rightarrow> AdminConnection option \<Rightarrow> gormdb option \<Rightarrow> Database \<Rightarrow> ('s world, error option) go" where
  "database_deletion E adminConnection db inst =
     (if database_has_finalizer E inst then
        go_bind (case (adminConnection, db) of
                   (Some adm, Some h) \<Rightarrow> DatabaseMine E h inst
                 | _ \<Rightarrow> ret False) (\<lambda>mine.
        go_bind (if mine then go_bind (deref db) (\<lambda>h. finalizeDatabase E h inst)
                 else go_bind (deref adminConnection) (\<lambda>adm. ret None)) (\<lambda>err.
        case err of
          Some err \<Rightarrow> ret (Some err)
        | None \<Rightarrow> update_released_database E inst))
      else ret None)"

definition db_message :: "string \<Rightarrow> Database \<Rightarrow> Database" where
  "db_message m inst = set_db_status (\<lambda>st. st\<lparr>dst_Message := m\<rparr>) inst"

text \<open>Host, port, name and time, as far as the object is in reach of a server.\<close>

definition database_observed :: "AdminConnection \<Rightarrow> time \<Rightarrow> Database \<Rightarrow> Database" where
  "database_observed adm t inst =
     set_db_status (\<lambda>st. st\<lparr>dst_Host := acs_Host (ac_Spec adm), dst_Port := acs_Port (ac_Spec adm),
        dst_Name := ds_Name (db_Spec inst), dst_SyncTime := Some t\<rparr>) inst"

definition database_align ::
  "'s env \<Rightarrow> gormdb \<Rightarrow> Database \<Rightarrow> bool \<Rightarrow> ('s world, Database) go" where
  "database_align E db inst exists =
     (if \<not> exists then
        go_bind (databaseCreate E db inst) (\<lambda>(inst, created, err).
        if err = None \<and> created then
          go_bind (ask (now E)) (\<lambda>t.
          ret (set_db_status (\<lambda>st. st\<lparr>dst_CreationTime := Some t,
                 dst_Message := ''Created database''\<rparr>) inst))
        else ret inst)
      else
        go_bind (DatabaseMine E db inst) (\<lambda>mine.
        if mine then
          go_bind (databaseUpdate E db inst) (\<lambda>(inst, updated, err).
          if err = None \<and> updated then ret (db_message ''Altered database'' inst)
          else if err = None then ret (db_message ''Database in sync'' inst)
          else ret (db_message ''Failed to update database'' inst))
        else ret (db_message ''No permission to this database.'' inst)))"

text \<open>
  The branch that does the work. Its \<open>err\<close> is declared again inside the branch, so the error of the
  function stays nil.
\<close>

definition database_sync ::
  "'s env \<Rightarrow> AdminConnection \<Rightarrow> gormdb \<Rightarrow> Database \<Rightarrow> ('s world, error option) go" where
  "database_sync E adm db inst =
     go_bind (databaseExists E db inst) (\<lambda>(inst, exists, err).
     case err of
       Some err \<Rightarrow> ret (Some err)
     | None \<Rightarrow>
         go_bind (ask (now E)) (\<lambda>t.
         go_bind (database_align E db (database_observed adm t inst) exists) (\<lambda>inst.
         go_bind (perform (StatusDatabase inst) (k_status_Database E inst)) (\<lambda>_.
         ret None))))"

definition database_add_finalizer :: "'s env \<Rightarrow> Database \<Rightarrow> ('s world, error option) go" where
  "database_add_finalizer E inst =
     (let inst = set_db_finalizers (\<lambda>fs. add_finalizer E fs dbFinalizer) inst
      in perform (UpdateDatabase inst) (k_update_Database E inst))"

definition database_unreachable ::
  "'s env \<Rightarrow> Database \<Rightarrow> error option \<Rightarrow> ('s world, error option) go" where
  "database_unreachable E inst adminErr =
     (let inst = db_message ''Failed to further reconcile against current admin connection.'' inst
      in go_bind (perform (StatusDatabase inst) (k_status_Database E inst)) (\<lambda>err.
         case err of Some err \<Rightarrow> ret (Some err) | None \<Rightarrow> ret adminErr))"

definition database_pass ::
  "'s env \<Rightarrow> Database \<Rightarrow> AdminConnection option \<Rightarrow> gormdb option \<Rightarrow> error option \<Rightarrow>
     ('s world, error option) go" where
  "database_pass E inst adminConnection db adminErr =
     (if om_DeletionTimestamp (db_Meta inst) \<noteq> None then database_deletion E adminConnection db inst
      else case adminConnection of
        None \<Rightarrow> database_unreachable E inst adminErr
      | Some adm \<Rightarrow>
          if \<not> database_has_finalizer E inst then database_add_finalizer E inst
          else go_bind (deref db) (\<lambda>h. database_sync E adm h inst))"

definition database_Reconcile :: "'s env \<Rightarrow> NamespacedName \<Rightarrow> ('s world, error option) go" where
  "database_Reconcile E req =
     go_bind (ask (k_get_Database E req)) (\<lambda>r.
     case r of
       Inl err \<Rightarrow> (if is_not_found E err then ret None else ret (Some err))
     | Inr inst \<Rightarrow>
         go_bind (resolve_admin E (om_Namespace (db_Meta inst)) (ds_AdminConnection (db_Spec inst)))
           (\<lambda>(adminConnection, db, adminErr).
         database_pass E inst adminConnection db adminErr))"

section \<open>Deletion\<close>

definition database_drops :: "gormdb \<Rightarrow> Database \<Rightarrow> effect list" where
  "database_drops h inst =
     [Exec h (drop_database_stmt (ds_Name (db_Spec inst))),
      DeleteManagedDatabase h (om_UID (db_Meta inst))]"

lemma finalizeDatabase_run:
  "\<exists>s. finalizeDatabase E h x w = Ret None (w\<lparr>ext := s, effects := effects w @ database_drops h x\<rparr>)"
proof -
  have "finalizeDatabase E h x w = Ret None (w\<lparr>ext := snd (gorm_delete_ManagedDatabase E h (om_UID (db_Meta x))
      (snd (gorm_exec E h (drop_database_stmt (ds_Name (db_Spec x))) (ext w)))),
      effects := effects w @ database_drops h x\<rparr>)"
    by (simp add: finalizeDatabase_def Let_def bind_perform database_drops_def)
  then show ?thesis by (rule exI)
qed

interpretation database_end: deletion_flow "database_has_finalizer E" "DatabaseMine E"
  "finalizeDatabase E" database_drops "update_released_database E"
  "\<lambda>inst. UpdateDatabase (database_release E inst)" "database_deletion E" for E
proof unfold_locales
  show "observes (DatabaseMine E h x)" for h x
    by (simp add: observesI)
  show "\<exists>s. finalizeDatabase E h x w = Ret None (w\<lparr>ext := s, effects := effects w @ database_drops h x\<rparr>)"
    for h x and w :: "'a world"
    by (rule finalizeDatabase_run)
  show "\<exists>s e. update_released_database E x w =
      Ret e (w\<lparr>ext := s, effects := effects w @ [UpdateDatabase (database_release E x)]\<rparr>)"
    for x and w :: "'a world"
    by (auto simp: update_released_database_def perform_def split: prod.splits)
qed (simp_all add: database_deletion_def go_bind_if cong del: if_weak_cong)

section \<open>What a pass may do\<close>

text \<open>The loop's instance changes in its status only, apart from the finalizer.\<close>

definition same_database :: "Database \<Rightarrow> Database \<Rightarrow> bool" where
  "same_database inst i \<longleftrightarrow> db_Meta i = db_Meta inst \<and> db_Spec i = db_Spec inst"

definition database_deleted :: "Database \<Rightarrow> bool" where
  "database_deleted inst \<longleftrightarrow> om_DeletionTimestamp (db_Meta inst) \<noteq> None"

text \<open>The schema may be created or altered once the object has the finalizer.\<close>

definition database_ready :: "'s env \<Rightarrow> Database \<Rightarrow> bool" where
  "database_ready E inst \<longleftrightarrow> \<not> database_deleted inst \<and> database_has_finalizer E inst"

definition database_effect :: "'s env \<Rightarrow> Database \<Rightarrow> effect \<Rightarrow> bool" where
  "database_effect E inst e \<longleftrightarrow>
     (case e of
        Exec h q \<Rightarrow>
          (database_ready E inst \<and>
            (q = create_database_stmt (db_Spec inst) \<or>
             (\<exists>i. same_database inst i \<and> q = alter_database_stmt i))) \<or>
          (database_deleted inst \<and> database_has_finalizer E inst \<and>
            q = drop_database_stmt (ds_Name (db_Spec inst)))
      | CreateManagedDatabase h row \<Rightarrow> database_ready E inst \<and> row = managed_database inst
      | DeleteManagedDatabase h u \<Rightarrow>
          database_deleted inst \<and> database_has_finalizer E inst \<and> u = om_UID (db_Meta inst)
      | Commit h \<Rightarrow> database_ready E inst
      | StatusDatabase i \<Rightarrow> same_database inst i
      | UpdateDatabase i \<Rightarrow> db_Spec i = db_Spec inst \<and> om_UID (db_Meta i) = om_UID (db_Meta inst)
      | _ \<Rightarrow> False)"

lemma same_database_simps [simp]:
  "same_database inst inst"
  "same_database inst (set_db_status f i) = same_database inst i"
  "same_database inst (db_message m i) = same_database inst i"
  "same_database inst (database_observed adm t i) = same_database inst i"
  by (simp_all add: same_database_def set_db_status_def db_message_def database_observed_def)

lemma databaseExists_facts [emits_intros, simp]:
  "emits P (databaseExists E h i)" "keeps_connections (databaseExists E h i)"
  "never_panics (databaseExists E h i)"
  unfolding databaseExists_def Let_def by (intro emits_intros)+

lemma databaseExists_yields:
  "same_database inst i \<Longrightarrow>
     yields (\<lambda>(i', ex, err). same_database inst i' \<and> err = None) (databaseExists E h i)"
  unfolding databaseExists_def Let_def
  by (intro yields_after) (auto simp: yields_def split: option.splits)

lemma databaseUpdate_facts:
  assumes "same_database inst i" and "database_ready E inst"
  shows "emits (database_effect E inst) (databaseUpdate E h i)"
    and "yields (\<lambda>(i', up, err). same_database inst i') (databaseUpdate E h i)"
proof -
  have "database_effect E inst (Exec h (alter_database_stmt i))"
    using assms by (auto simp: database_effect_def)
  then show "emits (database_effect E inst) (databaseUpdate E h i)"
    unfolding databaseUpdate_def Let_def by (intro emits_intros)
  have again: "yields (\<lambda>(i', up, err). same_database inst i')
      (go_bind (databaseExists E h j) (\<lambda>(i', _, err). ret (i', b, err)))"
    if "same_database inst j" for j b
    by (rule yields_bind [OF databaseExists_yields [OF that]]) (auto intro!: yields_ret)
  show "yields (\<lambda>(i', up, err). same_database inst i') (databaseUpdate E h i)"
    unfolding databaseUpdate_def Let_def using assms
    by (intro yields_steps again) auto
qed

lemma databaseCreate_facts:
  assumes "same_database inst i" and "database_ready E inst"
  shows "emits (database_effect E inst) (databaseCreate E h i)"
    and "yields (\<lambda>(i', created, err). same_database inst i') (databaseCreate E h i)"
proof -
  have eff: "database_effect E inst (Exec h (create_database_stmt (db_Spec i)))"
    "\<And>g f. database_effect E inst (CreateManagedDatabase g (managed_database (set_db_status f i)))"
    "\<And>g f f'. database_effect E inst (CreateManagedDatabase g (managed_database (set_db_status f (set_db_status f' i))))"
    "\<And>g. database_effect E inst (Commit g)"
    using assms by (auto simp: database_effect_def same_database_def managed_database_def set_db_status_def)
  then show "emits (database_effect E inst) (databaseCreate E h i)"
    unfolding databaseCreate_def Let_def by (intro emits_intros)
  have *: "yields (\<lambda>(i', created, err). same_database inst i') (databaseExists E h j)"
    if "same_database inst j" for j
    using databaseExists_yields [OF that, of E h] by (force simp: yields_def split: run.splits)
  show "yields (\<lambda>(i', created, err). same_database inst i') (databaseCreate E h i)"
    unfolding databaseCreate_def Let_def using assms
    by (intro yields_steps *) auto
qed

lemma database_align_facts:
  assumes "same_database inst i" and "database_ready E inst"
  shows "emits (database_effect E inst) (database_align E h i ex)"
    and "yields (same_database inst) (database_align E h i ex)"
proof -
  show "emits (database_effect E inst) (database_align E h i ex)"
    unfolding database_align_def
    by (intro emits_intros databaseCreate_facts [OF assms] databaseUpdate_facts [OF assms])
  have up: "yields (same_database inst) (go_bind (databaseUpdate E h i) f)"
    if "\<And>i' up err. same_database inst i' \<Longrightarrow> yields (same_database inst) (f (i', up, err))" for f
    by (rule yields_bind [OF databaseUpdate_facts(2) [OF assms]]) (auto intro!: that)
  have cr: "yields (same_database inst) (go_bind (databaseCreate E h i) f)"
    if "\<And>i' up err. same_database inst i' \<Longrightarrow> yields (same_database inst) (f (i', up, err))" for f
    by (rule yields_bind [OF databaseCreate_facts(2) [OF assms]]) (auto intro!: that)
  show "yields (same_database inst) (database_align E h i ex)"
    unfolding database_align_def using assms
    by (auto intro!: up cr yields_ask yields_ret yields_after [where m = "DatabaseMine E h i"])
qed

lemma database_sync_emits:
  assumes "database_ready E inst"
  shows "emits (database_effect E inst) (database_sync E adm h inst)"
proof -
  have eff: "database_effect E inst (StatusDatabase i)" if "same_database inst i" for i
    using that by (simp add: database_effect_def)
  have align: "emits (database_effect E inst) (go_bind (database_align E h j ex) (\<lambda>inst.
      go_bind (perform (StatusDatabase inst) (k_status_Database E inst)) (\<lambda>_. ret None)))"
    if "same_database inst j" for j ex
    by (rule emits_bind_yields [OF database_align_facts [OF that assms]]) (intro emits_intros eff)
  show ?thesis
    unfolding database_sync_def
    by (rule emits_bind_yields [OF _ databaseExists_yields])
      (auto intro!: align emits_bind emits_ask)
qed

text \<open>
  A pass of the reconciler over an object sends only statements for the schema the object names; it
  drops the schema, or forgets the row, only when the object is marked for deletion.
\<close>

lemma database_pass_emits: "emits (database_effect E inst) (database_pass E inst adm db err)"
proof -
  have "emits (database_effect E inst) (database_deletion E adm db inst)"
    if "database_deleted inst"
    unfolding database_deletion_def finalizeDatabase_def update_released_database_def Let_def
    using that
    by (intro emits_intros)
       (auto simp: database_effect_def database_release_def set_db_finalizers_def intro!: emits_intros)
  moreover have "emits (database_effect E inst) (database_unreachable E inst err)"
    unfolding database_unreachable_def Let_def
    by (intro emits_intros) (simp add: database_effect_def)
  moreover have "emits (database_effect E inst) (database_add_finalizer E inst)"
    unfolding database_add_finalizer_def Let_def
    by (intro emits_intros) (simp add: database_effect_def set_db_finalizers_def)
  ultimately show ?thesis
    unfolding database_pass_def
    by (auto intro!: emits_intros database_sync_emits
        simp: database_ready_def database_deleted_def split: option.splits)
qed

end
