(* ===== verification/Charsets.thy ===== *)
theory Charsets
  imports Environment
begin

text \<open>
  The two ends of \<open>AdminConnectionStatus.AvailableCharsets\<close>. The producer is the grouping loop of
  \<open>getCharSets\<close> (\<open>controllers/adminconnection_controller.go\<close>): a Go map from character set
  names to collations, turned into a list in the iteration order of the map. The consumer is the search of
  \<open>ValidateCharsetCollationCombo\<close> (\<open>api/v1alpha1/database_webhook.go\<close>). Their contract is the
  locale \<open>charset_catalog\<close>.
\<close>

section \<open>Grouping the rows\<close>

text \<open>A row of \<open>SHOW COLLATION\<close> after its three reads: charset, collation, is-default.\<close>

type_synonym collation_row = "string \<times> string \<times> bool"

text \<open>The map \<open>sortedResults\<close>, as its entries in the order of their first insertion.\<close>

type_synonym charset_groups = "(string \<times> Collation list) list"

fun group_append :: "string \<Rightarrow> Collation \<Rightarrow> charset_groups \<Rightarrow> charset_groups" where
  "group_append charset c [] = [(charset, [c])]"
| "group_append charset c ((name, cs) # rest) =
     (if name = charset then (name, cs @ [c]) # rest
      else (name, cs) # group_append charset c rest)"

fun group_rows :: "collation_row list \<Rightarrow> charset_groups \<Rightarrow> charset_groups" where
  "group_rows [] groups = groups"
| "group_rows ((charset, collation, isDefault) # rows) groups =
     group_rows rows
       (group_append charset \<lparr>coll_Name = collation, coll_Default = isDefault\<rparr> groups)"

fun charsets_in_order :: "charset_groups \<Rightarrow> string list \<Rightarrow> Charset list" where
  "charsets_in_order groups [] = []"
| "charsets_in_order groups (charset # order) =
     \<lparr>cs_Name = charset,
      cs_Collations = (case map_of groups charset of Some cs \<Rightarrow> cs | None \<Rightarrow> [])\<rparr>
     # charsets_in_order groups order"

lemma group_append_keys:
  "set (map fst (group_append ch c gs)) = insert ch (set (map fst gs))"
  by (induction gs rule: group_append.induct) auto

lemma group_append_distinct:
  "distinct (map fst gs) \<Longrightarrow> distinct (map fst (group_append ch c gs))"
  by (induction ch c gs rule: group_append.induct) (auto simp: group_append_keys simp flip: set_map)

lemma map_of_group_append:
  "map_of (group_append ch c gs) x =
     (if x = ch then Some ((case map_of gs ch of Some cs \<Rightarrow> cs | None \<Rightarrow> []) @ [c])
      else map_of gs x)"
  by (induction ch c gs rule: group_append.induct) auto

lemma group_rows_distinct: "distinct (map fst gs) \<Longrightarrow> distinct (map fst (group_rows rows gs))"
  by (induction rows gs rule: group_rows.induct) (simp_all add: group_append_distinct)

text \<open>Each charset gets exactly its collations, in the order of the rows.\<close>

definition collations_of :: "string \<Rightarrow> collation_row list \<Rightarrow> Collation list" where
  "collations_of ch rows =
     map (\<lambda>(_, co, d). \<lparr>coll_Name = co, coll_Default = d\<rparr>) (filter (\<lambda>(c, _). c = ch) rows)"

lemma map_of_group_rows:
  "map_of (group_rows rows gs) ch =
     (if collations_of ch rows = [] then map_of gs ch
      else Some ((case map_of gs ch of Some cs \<Rightarrow> cs | None \<Rightarrow> []) @ collations_of ch rows))"
proof (induction rows gs rule: group_rows.induct)
  case (1 gs)
  then show ?case by (simp add: collations_of_def)
next
  case (2 c co d rows gs)
  then show ?case
    by (cases "c = ch")
      (auto simp: map_of_group_append collations_of_def split: option.splits)
qed

lemma group_rows_keys:
  "set (map fst (group_rows rows [])) = fst ` set rows"
proof -
  have "set (map fst (group_rows rows gs)) = set (map fst gs) \<union> fst ` set rows" for gs
  proof (induction rows gs rule: group_rows.induct)
    case (1 gs)
    then show ?case by simp
  next
    case (2 c co d rows gs)
    then show ?case using group_append_keys [of c "\<lparr>coll_Name = co, coll_Default = d\<rparr>" gs] by auto
  qed
  then show ?thesis by simp
qed

lemma charsets_in_order_map:
  "charsets_in_order gs order =
     map (\<lambda>ch. \<lparr>cs_Name = ch, cs_Collations = (case map_of gs ch of Some cs \<Rightarrow> cs | None \<Rightarrow> [])\<rparr>) order"
  by (induction order) auto

lemma names_in_order: "map cs_Name (charsets_in_order gs order) = order"
  by (simp add: charsets_in_order_map comp_def)

lemma charsets_of_rows:
  "charsets_in_order (group_rows rows []) order =
     map (\<lambda>ch. \<lparr>cs_Name = ch, cs_Collations = collations_of ch rows\<rparr>) order"
  by (simp add: charsets_in_order_map map_of_group_rows)

section \<open>Searching a charset and a collation\<close>

datatype combo_result = UnknownCharset | BadCombination | NotDefault | DefaultCombination

fun collation_loop :: "Collation list \<Rightarrow> string \<Rightarrow> combo_result" where
  "collation_loop [] collation = BadCombination"
| "collation_loop (collationEntry # rest) collation =
     (if coll_Name collationEntry = collation
      then (if \<not> coll_Default collationEntry then NotDefault else DefaultCombination)
      else collation_loop rest collation)"

fun charset_loop :: "Charset list \<Rightarrow> string \<Rightarrow> string \<Rightarrow> combo_result" where
  "charset_loop [] charset collation = UnknownCharset"
| "charset_loop (combo # rest) charset collation =
     (if cs_Name combo = charset then collation_loop (cs_Collations combo) collation
      else charset_loop rest charset collation)"

lemma collation_loop_find:
  "collation_loop cs co =
     (case find (\<lambda>c. coll_Name c = co) cs of
        None \<Rightarrow> BadCombination
      | Some c \<Rightarrow> if coll_Default c then DefaultCombination else NotDefault)"
  by (induction cs) auto

lemma charset_loop_find:
  "charset_loop css ch co =
     (case find (\<lambda>c. cs_Name c = ch) css of
        None \<Rightarrow> UnknownCharset | Some c \<Rightarrow> collation_loop (cs_Collations c) co)"
  by (induction css) auto

lemma collations_of_iff:
  "\<lparr>coll_Name = co, coll_Default = d\<rparr> \<in> set (collations_of ch rows) \<longleftrightarrow> (ch, co, d) \<in> set rows"
  by (force simp: collations_of_def image_iff)

lemma collations_of_named:
  "(\<exists>c. c \<in> set (collations_of ch rows) \<and> coll_Name c = co) \<longleftrightarrow> (\<exists>d. (ch, co, d) \<in> set rows)"
proof
  assume "\<exists>c. c \<in> set (collations_of ch rows) \<and> coll_Name c = co"
  then obtain c where c: "c \<in> set (collations_of ch rows)" "coll_Name c = co" by blast
  from c(2) have "c = \<lparr>coll_Name = co, coll_Default = coll_Default c\<rparr>"
    by (cases c) auto
  with c(1) have "\<lparr>coll_Name = co, coll_Default = coll_Default c\<rparr> \<in> set (collations_of ch rows)"
    by simp
  then show "\<exists>d. (ch, co, d) \<in> set rows" by (auto simp: collations_of_iff)
next
  assume "\<exists>d. (ch, co, d) \<in> set rows"
  then obtain d where "\<lparr>coll_Name = co, coll_Default = d\<rparr> \<in> set (collations_of ch rows)"
    by (auto simp: collations_of_iff)
  then show "\<exists>c. c \<in> set (collations_of ch rows) \<and> coll_Name c = co"
    by (metis Collation.select_convs(1))
qed

section \<open>The contract\<close>

text \<open>
  What the search needs of a catalog built from the server's rows: one entry per character set,
  and in each entry exactly the collations of that character set, in order.
\<close>

locale charset_catalog =
  fixes catalog :: "collation_row list \<Rightarrow> Charset list"
  assumes catalog_names: "set (map cs_Name (catalog rows)) = fst ` set rows"
    and catalog_distinct: "distinct (map cs_Name (catalog rows))"
    and catalog_entries: "c \<in> set (catalog rows) \<Longrightarrow> cs_Collations c = collations_of (cs_Name c) rows"
begin

lemma search_catalog:
  "charset_loop (catalog rows) ch co =
     (if ch \<notin> fst ` set rows then UnknownCharset else collation_loop (collations_of ch rows) co)"
proof (cases "find (\<lambda>c. cs_Name c = ch) (catalog rows)")
  case None
  then have "ch \<notin> set (map cs_Name (catalog rows))"
    by (auto simp: find_None_iff)
  then have "ch \<notin> fst ` set rows"
    by (simp only: catalog_names not_False_eq_True)
  with None show ?thesis by (simp add: charset_loop_find)
next
  case (Some c)
  then have c: "c \<in> set (catalog rows)" "cs_Name c = ch"
    by (auto simp: find_Some_iff)
  then have "ch \<in> fst ` set rows"
    using catalog_names [of rows] by (metis image_eqI list.set_map)
  with Some c show ?thesis
    by (simp add: charset_loop_find catalog_entries)
qed

text \<open>Any two catalogs of the same rows give the same answers, so their order does not matter.\<close>

lemma search_accepts_iff:
  "charset_loop (catalog rows) ch co \<in> {NotDefault, DefaultCombination} \<longleftrightarrow>
     (\<exists>d. (ch, co, d) \<in> set rows)"
proof -
  have "find (\<lambda>c. coll_Name c = co) (collations_of ch rows) = None \<longleftrightarrow> \<not> (\<exists>d. (ch, co, d) \<in> set rows)"
    using collations_of_named [of ch rows co] by (auto simp: find_None_iff)
  then show ?thesis
    by (force simp: search_catalog collation_loop_find image_iff split: option.splits)
qed

end

interpretation first_insertion: charset_catalog
  "\<lambda>rows. charsets_in_order (group_rows rows []) (map fst (group_rows rows []))"
proof unfold_locales
  fix rows :: "collation_row list"
  show "set (map cs_Name (charsets_in_order (group_rows rows []) (map fst (group_rows rows []))))
      = fst ` set rows"
    by (simp only: names_in_order group_rows_keys)
  show "distinct (map cs_Name (charsets_in_order (group_rows rows []) (map fst (group_rows rows []))))"
    by (simp only: names_in_order) (simp add: group_rows_distinct)
  fix c
  assume "c \<in> set (charsets_in_order (group_rows rows []) (map fst (group_rows rows [])))"
  then show "cs_Collations c = collations_of (cs_Name c) rows"
    by (auto simp: charsets_of_rows)
qed

text \<open>The iteration order of the Go map is any arrangement of its keys.\<close>

lemma charset_loop_any_order:
  assumes "mset order = mset (map fst (group_rows rows []))"
  shows "charset_loop (charsets_in_order (group_rows rows []) order) ch co =
     charset_loop (charsets_in_order (group_rows rows []) (map fst (group_rows rows []))) ch co"
proof -
  let ?g = "group_rows rows []"
  have find_order: "find (\<lambda>c. cs_Name c = ch) (charsets_in_order ?g ks) =
      (if ch \<in> set ks then Some \<lparr>cs_Name = ch, cs_Collations = collations_of ch rows\<rparr> else None)"
    for ks
    unfolding charsets_of_rows by (induction ks) auto
  have "set order = set (map fst ?g)"
    using assms by (metis set_mset_mset)
  then show ?thesis by (simp add: charset_loop_find find_order)
qed

lemma charset_search_iff:
  assumes "mset order = mset (map fst (group_rows rows []))"
  shows "charset_loop (charsets_in_order (group_rows rows []) order) ch co \<in> {NotDefault, DefaultCombination}
     \<longleftrightarrow> (\<exists>d. (ch, co, d) \<in> set rows)"
  unfolding charset_loop_any_order [OF assms] by (rule first_insertion.search_accepts_iff)

end
