(* ===== verification/Admin_Controller.thy ===== *)
theory Admin_Controller
  imports Admin_Connection Charsets Sql_Text
begin

text \<open>
  \<open>controllers/adminconnection_controller.go\<close>: the reconcile loop of \<open>AdminConnection\<close>, which
  connects to the server and records its defaults and its character sets in the status, and the two
  queries it makes. A type assertion on a column that is absent or not a string panics.
\<close>

section \<open>Queries\<close>

definition as_string :: "column_value option \<Rightarrow> ('w, string) go" where
  "as_string v = (case v of Some (VString s) \<Rightarrow> ret s | _ \<Rightarrow> panics FailedTypeAssertion)"

definition variable_query :: "string \<Rightarrow> string" where
  "variable_query name = ''SHOW VARIABLES LIKE '' @ CHR 0x27 # Escape name @ [CHR 0x27]"

definition not_one_row :: "nat \<Rightarrow> error" where
  "not_one_row n = Errorf (''expected 1 row, got '' @ itoa (int n))"

definition getVariable :: "'s env \<Rightarrow> string \<Rightarrow> gormdb \<Rightarrow> ('s world, error + string) go" where
  "getVariable E name db =
     go_bind (ask (gorm_raw_scan E db (variable_query name))) (\<lambda>(results, txError).
     case txError of
       Some err \<Rightarrow> ret (Inl err)
     | None \<Rightarrow>
         (case results of
            [row] \<Rightarrow> go_bind (as_string (map_of row ''Value'')) (\<lambda>v. ret (Inr v))
          | _ \<Rightarrow> ret (Inl (not_one_row (length results)))))"

definition collation_query :: string where
  "collation_query = ''SHOW COLLATION WHERE Charset IS NOT NULL''"

fun read_collations :: "row list \<Rightarrow> ('w, collation_row list) go" where
  "read_collations [] = ret []"
| "read_collations (row # rows) =
     go_bind (as_string (map_of row ''Collation'')) (\<lambda>collation.
     go_bind (as_string (map_of row ''Charset'')) (\<lambda>charset.
     go_bind (as_string (map_of row ''Default'')) (\<lambda>isDefault.
     go_bind (read_collations rows) (\<lambda>rest.
     ret ((charset, collation, isDefault = ''Yes'') # rest)))))"

definition getCharSets :: "'s env \<Rightarrow> gormdb \<Rightarrow> ('s world, error + Charset list) go" where
  "getCharSets E db =
     go_bind (ask (gorm_raw_scan E db collation_query)) (\<lambda>(results, txError).
     case txError of
       Some err \<Rightarrow> ret (Inl err)
     | None \<Rightarrow>
         go_bind (read_collations results) (\<lambda>rows.
         go_bind (ask (map_order E (map fst (group_rows rows [])))) (\<lambda>order.
         ret (Inr (charsets_in_order (group_rows rows []) order)))))"

section \<open>Reconcile\<close>

definition set_admin_status ::
  "(AdminConnectionStatus \<Rightarrow> AdminConnectionStatus) \<Rightarrow> AdminConnection \<Rightarrow> AdminConnection" where
  "set_admin_status f adm = adm\<lparr>ac_Status := f (ac_Status adm)\<rparr>"

text \<open>
  The body between the deferred status update and the return: the object whose status the
  deferred call writes, and the error, or the panic that is under way. A function that fails returns
  an empty value next to its error, and the assignment stores it; a function that
  panics stores nothing.
\<close>

type_synonym admin_outcome = "AdminConnection \<times> (panic + error option)"

definition record_charsets ::
  "'s env \<Rightarrow> gormdb \<Rightarrow> AdminConnection \<Rightarrow> ('s world, admin_outcome) go" where
  "record_charsets E db adm =
     go_bind (attempt (getCharSets E db)) (\<lambda>r.
     case r of
       Inl p \<Rightarrow> ret (adm, Inl p)
     | Inr (Inl err) \<Rightarrow>
         ret (set_admin_status (\<lambda>st. st\<lparr>acst_AvailableCharsets := [],
                acst_Message := ''Failed to retrieve available character sets''\<rparr>) adm, Inr (Some err))
     | Inr (Inr cs) \<Rightarrow>
         ret (set_admin_status (\<lambda>st. st\<lparr>acst_AvailableCharsets := cs,
                acst_Message := ''Successfully pinged database'',
                acst_ControlDatabase := DatabaseName\<rparr>) adm, Inr None))"

definition record_collation ::
  "'s env \<Rightarrow> gormdb \<Rightarrow> AdminConnection \<Rightarrow> ('s world, admin_outcome) go" where
  "record_collation E db adm =
     go_bind (attempt (getVariable E ''collation_server'' db)) (\<lambda>r.
     case r of
       Inl p \<Rightarrow> ret (adm, Inl p)
     | Inr (Inl err) \<Rightarrow>
         ret (set_admin_status (\<lambda>st. st\<lparr>acst_Collation := [],
                acst_Message := ''Failed to retrieve default server collation''\<rparr>) adm, Inr (Some err))
     | Inr (Inr v) \<Rightarrow>
         record_charsets E db (set_admin_status (\<lambda>st. st\<lparr>acst_Collation := v\<rparr>) adm))"

definition record_server ::
  "'s env \<Rightarrow> gormdb \<Rightarrow> AdminConnection \<Rightarrow> ('s world, admin_outcome) go" where
  "record_server E db adm =
     go_bind (attempt (getVariable E ''character_set_server'' db)) (\<lambda>r.
     case r of
       Inl p \<Rightarrow> ret (adm, Inl p)
     | Inr (Inl err) \<Rightarrow>
         ret (set_admin_status (\<lambda>st. st\<lparr>acst_CharacterSet := [],
                acst_Message := ''Failed to retrieve default server character set''\<rparr>) adm, Inr (Some err))
     | Inr (Inr v) \<Rightarrow>
         record_collation E db (set_admin_status (\<lambda>st. st\<lparr>acst_CharacterSet := v\<rparr>) adm))"

definition admin_body :: "'s env \<Rightarrow> AdminConnection \<Rightarrow> ('s world, admin_outcome) go" where
  "admin_body E adm =
     go_bind (GetDatabaseConnection E adm) (\<lambda>r.
     case r of
       Inl err \<Rightarrow>
         ret (set_admin_status (\<lambda>st. st\<lparr>acst_Message := ''Failed to connect or ping database''\<rparr>) adm,
              Inr (Some err))
     | Inr db \<Rightarrow> record_server E db adm)"

text \<open>
  The deferred status update runs after the body, also when the body panics, and its own
  error is dropped.
\<close>

definition admin_Reconcile :: "'s env \<Rightarrow> NamespacedName \<Rightarrow> ('s world, error option) go" where
  "admin_Reconcile E req =
     go_bind (ask (k_get_AdminConnection E req)) (\<lambda>r.
     case r of
       Inl err \<Rightarrow> (if is_not_found E err then ret None else ret (Some err))
     | Inr adm \<Rightarrow>
         go_bind (ask (now E)) (\<lambda>t.
         go_bind (admin_body E (set_admin_status (\<lambda>st. st\<lparr>acst_SyncTime := Some t\<rparr>) adm))
           (\<lambda>(adm', outcome).
         go_bind (perform (StatusAdminConnection adm') (k_status_AdminConnection E adm')) (\<lambda>_.
         resume outcome))))"

end
