(* ===== verification/Exact_Records.thy ===== *)
theory Exact_Records
  imports Trace User_Effects Database_Controller Admin_Controller
begin

text \<open>
  Every operation of the three reconcilers records exactly the calls it makes. With the lists of
  effects of \<open>Database_Controller\<close> and \<open>User_Effects\<close> this gives the two rules at the end: an
  invariant of the outside that each listed call keeps is kept by a whole pass.
\<close>

section \<open>Shared parts\<close>

lemma common_conducts [conducts_intros]:
  "conducts E (GetSecret E ns sel)" "conducts E (GetSecretRefValue E ns sel)"
  "conducts E (DatabaseExists E h n)" "conducts E (UserExists E h n)"
  "conducts E (GetAdminConnection E ns ref)" "conducts E (DatabaseMine E h db)"
  unfolding GetSecretRefValue_def GetSecret_def DatabaseExists_def UserExists_def
    GetAdminConnection_def DatabaseMine_def
  by (intro conducts_intros)+

lemma user_mine_loop_conducts: "conducts E (user_mine_loop E h u ns m)"
  by (induction ns arbitrary: m) (auto intro!: conducts_intros)

lemma connection_conducts [conducts_intros]:
  "conducts E (UserMine E h u)" "conducts E (getDbConfig E adm)" "conducts E (switchDatabase E h)"
  "conducts E (needs_new_connection E c cfg)"
  unfolding UserMine_def getDbConfig_def switchDatabase_def needs_new_connection_def Let_def
  by (intro conducts_intros user_mine_loop_conducts)+

lemma fresh_conducts [conducts_intros]: "conducts E (createFreshConnection E cfg)"
  unfolding createFreshConnection_def by (intro conducts_intros)

lemma resolve_conducts [conducts_intros]:
  "conducts E (GetDatabaseConnection E adm)" "conducts E (resolve_admin E ns ref)"
  unfolding resolve_admin_def GetDatabaseConnection_def by (intro conducts_intros)+

section \<open>The reconcilers\<close>

lemma database_operations_conduct [conducts_intros]:
  "conducts E (databaseExists E h i)" "conducts E (finalizeDatabase E h i)"
  "conducts E (update_released_database E i)" "conducts E (database_add_finalizer E i)"
  "conducts E (database_unreachable E i err)"
  unfolding databaseExists_def finalizeDatabase_def update_released_database_def
    database_add_finalizer_def database_unreachable_def Let_def
  by (intro conducts_intros)+

lemma database_changes_conduct [conducts_intros]:
  "conducts E (databaseUpdate E h i)" "conducts E (databaseCreate E h i)"
  unfolding databaseUpdate_def databaseCreate_def Let_def by (intro conducts_intros)+

lemma database_sync_conducts [conducts_intros]:
  "conducts E (database_sync E adm h i)"
  unfolding database_sync_def database_align_def by (intro conducts_intros)

lemma database_pass_conducts [conducts_intros]:
  "conducts E (database_pass E i adm d err)"
  unfolding database_pass_def database_deletion_def by (intro conducts_intros)

lemma database_Reconcile_conducts: "conducts E (database_Reconcile E req)"
  unfolding database_Reconcile_def by (intro conducts_intros)

lemma random_conducts [conducts_intros]:
  "conducts E (append_random E cs n p)" "conducts E (shuffle_loop E is s)"
proof -
  have draw: "conducts E (draw E m)" for m
    unfolding draw_def by (intro conducts_intros)
  have index: "conducts E (index_at s i)" for s i
    unfolding index_at_def by (intro conducts_intros)
  show "conducts E (append_random E cs n p)"
    by (induction n arbitrary: p) (auto intro!: conducts_intros draw index)
  show "conducts E (shuffle_loop E is s)"
    by (induction "is" arbitrary: s) (auto intro!: conducts_intros draw)
qed

lemma owner_loop_conducts: "conducts E (owner_loop inst owners)"
  by (induction owners) (auto intro!: conducts_intros)

lemma user_operations_conduct [conducts_intros]:
  "conducts E (userExists E h i)" "conducts E (finalizeUser E h i)" "conducts E (runStmt E h q)"
  "conducts E (save_managed_user E h i)" "conducts E (userDetailString E i secret b)"
  "conducts E (grantStatusUpdate E h i b)" "conducts E (createSecret E ns sel)"
  "conducts E (secretOwnershipOk i secret)"
  unfolding userExists_def finalizeUser_def runStmt_def save_managed_user_def userDetailString_def
    grantStatusUpdate_def createSecret_def GeneratePassword_def secretOwnershipOk_def Let_def
  by (intro conducts_intros owner_loop_conducts)+

lemma grant_loop_conducts: "conducts E (grant_loop E h i ps)"
proof (induction ps)
  case Nil
  then show ?case by (simp add: conducts_intros)
next
  case (Cons p ps)
  then show ?case unfolding grant_loop.simps by (intro conducts_intros)
qed

lemma user_changes_conduct [conducts_intros]:
  "conducts E (grant E h i)" "conducts E (revoke E h i)" "conducts E (userRename E h i)"
  unfolding grant_def revoke_def userRename_def Let_def
  by (intro conducts_intros grant_loop_conducts)+

lemma user_align_conducts [conducts_intros]:
  "conducts E (userCreate E h i secret)" "conducts E (userPermissions E h i)"
  "conducts E (userUpdate E h i secret)" "conducts E (user_align E h i secret ex)"
proof -
  show create: "conducts E (userCreate E h i secret)" for i
    unfolding userCreate_def by (intro conducts_intros)
  have permissions: "conducts E (userPermissions E h i)" for i
    unfolding userPermissions_def by (intro conducts_intros)
  then show "conducts E (userPermissions E h i)" .
  show update: "conducts E (userUpdate E h i secret)"
    unfolding userUpdate_def by (intro conducts_intros permissions)
  show "conducts E (user_align E h i secret ex)"
    unfolding user_align_def by (intro conducts_intros create update)
qed

lemma user_phases_conduct [conducts_intros]:
  "conducts E (user_sync E h i secret)" "conducts E (user_claim_name E i)"
  "conducts E (user_own_secret E i secret)" "conducts E (user_add_finalizer E i)"
  "conducts E (user_invalid_name E i)" "conducts E (user_secret E i)"
  "conducts E (user_unreachable E i err)" "conducts E (update_released_user E i)"
  unfolding user_sync_def user_claim_name_def user_own_secret_def user_add_finalizer_def
    user_invalid_name_def user_secret_def user_unreachable_def update_released_user_def Let_def
  by (intro conducts_intros)+

lemma user_pass_conducts [conducts_intros]: "conducts E (user_pass E i adm d err)"
  unfolding user_pass_def user_deletion_def user_steps_def by (intro conducts_intros)

lemma user_Reconcile_conducts: "conducts E (user_Reconcile E req)"
  unfolding user_Reconcile_def by (intro conducts_intros)

lemma read_collations_conducts: "conducts E (read_collations rows)"
  by (induction rows) (auto simp: as_string_def intro!: conducts_intros split: option.splits column_value.splits)

lemma admin_queries_conduct [conducts_intros]:
  "conducts E (getVariable E n h)" "conducts E (getCharSets E h)"
proof -
  have "conducts E (as_string v)" for v
    by (auto simp: as_string_def intro!: conducts_intros split: option.splits column_value.splits)
  then show "conducts E (getVariable E n h)"
    unfolding getVariable_def
    by (intro conducts_intros) (auto intro!: conducts_intros split: list.splits)
  show "conducts E (getCharSets E h)"
    unfolding getCharSets_def by (intro conducts_intros read_collations_conducts)
qed

lemma admin_Reconcile_conducts: "conducts E (admin_Reconcile E req)"
  unfolding admin_Reconcile_def admin_body_def record_server_def record_collation_def record_charsets_def
  by (intro conducts_intros)

section \<open>Invariants of a pass\<close>

lemma database_pass_maintains:
  "stable E (database_effect E inst) I \<Longrightarrow> maintains I (database_pass E inst adm d err)"
  by (rule conducts_maintains [OF database_pass_conducts database_pass_emits])

lemma user_pass_maintains:
  "stable E (user_effect E inst) I \<Longrightarrow> maintains I (user_pass E inst adm d err)"
  by (rule conducts_maintains [OF user_pass_conducts user_pass_emits])

lemma resolve_admin_maintains:
  "stable E connection_effect I \<Longrightarrow> maintains I (resolve_admin E ns ref)"
  by (rule conducts_maintains [OF resolve_conducts(2) resolve_admin_emits])

end
