(* ===== verification/Server.thy ===== *)
theory Server
  imports Exact_Records
begin

text \<open>
  What the theorems about schemata and accounts take for granted of a MySQL server behind gorm, as named
  hypotheses over two views of the outside state: \<open>schemas\<close> and \<open>rows\<close> (the schemata of the server
  and the rows of \<open>managed_databases\<close>), \<open>accounts\<close> and \<open>rows\<close> (\<open>mysql.user\<close> and \<open>managed_users\<close>).
  A call that fails may or may not have taken place. The driver refuses several statements in
  one \<open>Exec\<close>, so the first words of a statement say what kind it is.
\<close>

section \<open>Schemata\<close>

definition plain_name :: "string \<Rightarrow> bool" where
  "plain_name n \<longleftrightarrow> n \<noteq> [] \<and> CHR 0x60 \<notin> set n"

definition plain_word :: "string \<Rightarrow> bool" where
  "plain_word s \<longleftrightarrow> list_all (\<lambda>c. c \<in> set (lowerCharSet @ ''uvwxyz_'' @ upperCharSet @ numberSet)) s"

definition plain_spec :: "DatabaseSpec \<Rightarrow> bool" where
  "plain_spec spec \<longleftrightarrow>
     plain_name (ds_Name spec) \<and> plain_word (ds_CharacterSet spec) \<and> plain_word (ds_Collate spec)"

definition changes_schemata :: "effect \<Rightarrow> bool" where
  "changes_schemata e \<longleftrightarrow>
     (case e of
        Exec h q \<Rightarrow> prefix ''CREATE DATABASE '' q \<or> prefix ''ALTER DATABASE '' q \<or>
          prefix ''DROP DATABASE '' q
      | CreateManagedDatabase h r \<Rightarrow> True
      | DeleteManagedDatabase h u \<Rightarrow> True
      | _ \<Rightarrow> False)"

type_synonym 's schemata = "'s \<Rightarrow> string \<Rightarrow> DatabaseSchema option"
type_synonym 's database_rows = "'s \<Rightarrow> uid \<Rightarrow> ManagedDatabase option"

definition same_schemata :: "'s schemata \<Rightarrow> 's database_rows \<Rightarrow> 's \<Rightarrow> 's \<Rightarrow> bool" where
  "same_schemata schemas rows s s' \<longleftrightarrow> schemas s' = schemas s \<and> rows s' = rows s"

text \<open>Only the statements for databases, and the calls on their rows, change the two views.\<close>

definition schemata_frame :: "'s env \<Rightarrow> 's schemata \<Rightarrow> 's database_rows \<Rightarrow> bool" where
  "schemata_frame E schemas rows \<longleftrightarrow>
     (\<forall>h. schema_tables_ok E h schemas rows) \<and>
     (\<forall>s s'. reading E s s' \<longrightarrow> same_schemata schemas rows s s') \<and>
     (\<forall>e s. \<not> changes_schemata e \<longrightarrow> same_schemata schemas rows s (after E e s))"

definition create_ok :: "'s env \<Rightarrow> 's schemata \<Rightarrow> 's database_rows \<Rightarrow> bool" where
  "create_ok E schemas rows \<longleftrightarrow>
     (\<forall>h spec s tx s'. plain_spec spec \<longrightarrow> gorm_exec E h (create_database_stmt spec) s = (tx, s') \<longrightarrow>
        rows s' = rows s \<and>
        ((schemas s (ds_Name spec) = None \<and> (\<exists>r. schemas s' = (schemas s)(ds_Name spec \<mapsto> r))) \<or>
         (schemas s' = schemas s \<and> tx_Error tx \<noteq> None)))"

definition alter_ok :: "'s env \<Rightarrow> 's schemata \<Rightarrow> 's database_rows \<Rightarrow> bool" where
  "alter_ok E schemas rows \<longleftrightarrow>
     (\<forall>h inst s. plain_spec (db_Spec inst) \<longrightarrow>
        (let s' = snd (gorm_exec E h (alter_database_stmt inst) s)
         in rows s' = rows s \<and> (\<forall>n. n \<noteq> ds_Name (db_Spec inst) \<longrightarrow> schemas s' n = schemas s n) \<and>
            dom (schemas s') = dom (schemas s)))"

definition drop_ok :: "'s env \<Rightarrow> 's schemata \<Rightarrow> 's database_rows \<Rightarrow> bool" where
  "drop_ok E schemas rows \<longleftrightarrow>
     (\<forall>h n s. plain_name n \<longrightarrow>
        (let s' = snd (gorm_exec E h (drop_database_stmt n) s)
         in rows s' = rows s \<and> (schemas s' = schemas s \<or> schemas s' = (schemas s)(n := None))))"

definition rows_ok :: "'s env \<Rightarrow> 's schemata \<Rightarrow> 's database_rows \<Rightarrow> bool" where
  "rows_ok E schemas rows \<longleftrightarrow>
     (\<forall>h r s tx s'. gorm_create_ManagedDatabase E h r s = (tx, s') \<longrightarrow>
        schemas s' = schemas s \<and>
        (rows s' = (rows s)(md_Uuid r \<mapsto> r) \<or> (rows s' = rows s \<and> tx_Error tx \<noteq> None))) \<and>
     (\<forall>h u s. let s' = snd (gorm_delete_ManagedDatabase E h u s)
        in schemas s' = schemas s \<and> (rows s' = rows s \<or> rows s' = (rows s)(u := None)))"

text \<open>The control database is created under its own name.\<close>

definition control_ok :: "'s env \<Rightarrow> 's schemata \<Rightarrow> 's database_rows \<Rightarrow> bool" where
  "control_ok E schemas rows \<longleftrightarrow>
     (\<forall>h s. let s' = snd (gorm_exec E h (''CREATE DATABASE IF NOT EXISTS '' @ DatabaseName) s)
        in rows s' = rows s \<and> (\<forall>n. n \<noteq> DatabaseName \<longrightarrow> schemas s' n = schemas s n))"

definition schemata_server :: "'s env \<Rightarrow> 's schemata \<Rightarrow> 's database_rows \<Rightarrow> bool" where
  "schemata_server E schemas rows \<longleftrightarrow>
     schemata_frame E schemas rows \<and> create_ok E schemas rows \<and> alter_ok E schemas rows \<and>
     drop_ok E schemas rows \<and> rows_ok E schemas rows \<and> control_ok E schemas rows"

lemma server_tables: "schemata_server E schemas rows \<Longrightarrow> schema_tables_ok E h schemas rows"
  by (simp add: schemata_server_def schemata_frame_def)

lemma server_reading:
  "schemata_server E schemas rows \<Longrightarrow> reading E s s' \<Longrightarrow> schemas s' = schemas s \<and> rows s' = rows s"
  by (simp add: schemata_server_def schemata_frame_def same_schemata_def)

lemma server_frame:
  "schemata_server E schemas rows \<Longrightarrow> \<not> changes_schemata e \<Longrightarrow>
     schemas (after E e s) = schemas s \<and> rows (after E e s) = rows s"
  by (simp add: schemata_server_def schemata_frame_def same_schemata_def)

lemma server_create:
  "schemata_server E schemas rows \<Longrightarrow> plain_spec spec \<Longrightarrow>
     gorm_exec E h (create_database_stmt spec) s = (tx, s') \<Longrightarrow>
     rows s' = rows s \<and>
     ((schemas s (ds_Name spec) = None \<and> (\<exists>r. schemas s' = (schemas s)(ds_Name spec \<mapsto> r))) \<or>
      (schemas s' = schemas s \<and> tx_Error tx \<noteq> None))"
  unfolding schemata_server_def create_ok_def by blast

lemma server_alter:
  "schemata_server E schemas rows \<Longrightarrow> plain_spec (db_Spec inst) \<Longrightarrow>
     s' = snd (gorm_exec E h (alter_database_stmt inst) s) \<Longrightarrow>
     rows s' = rows s \<and> (\<forall>n. n \<noteq> ds_Name (db_Spec inst) \<longrightarrow> schemas s' n = schemas s n) \<and>
     dom (schemas s') = dom (schemas s)"
  unfolding schemata_server_def alter_ok_def Let_def by blast

lemma server_drop:
  "schemata_server E schemas rows \<Longrightarrow> plain_name n \<Longrightarrow>
     s' = snd (gorm_exec E h (drop_database_stmt n) s) \<Longrightarrow>
     rows s' = rows s \<and> (schemas s' = schemas s \<or> schemas s' = (schemas s)(n := None))"
  unfolding schemata_server_def drop_ok_def Let_def by blast

lemma server_rows:
  "schemata_server E schemas rows \<Longrightarrow> s' = snd (gorm_create_ManagedDatabase E h r s) \<Longrightarrow>
     schemas s' = schemas s \<and> (rows s' = (rows s)(md_Uuid r \<mapsto> r) \<or> rows s' = rows s)"
  "schemata_server E schemas rows \<Longrightarrow> s' = snd (gorm_delete_ManagedDatabase E h u s) \<Longrightarrow>
     schemas s' = schemas s \<and> (rows s' = rows s \<or> rows s' = (rows s)(u := None))"
  unfolding schemata_server_def rows_ok_def Let_def by (metis prod.collapse, blast)

lemma server_row_created:
  "schemata_server E schemas rows \<Longrightarrow> gorm_create_ManagedDatabase E h r s = (tx, s') \<Longrightarrow>
     tx_Error tx = None \<Longrightarrow> schemas s' = schemas s \<and> rows s' = (rows s)(md_Uuid r \<mapsto> r)"
  unfolding schemata_server_def rows_ok_def by blast

lemma server_control:
  "schemata_server E schemas rows \<Longrightarrow>
     s' = snd (gorm_exec E h (''CREATE DATABASE IF NOT EXISTS '' @ DatabaseName) s) \<Longrightarrow>
     rows s' = rows s \<and> (\<forall>n. n \<noteq> DatabaseName \<longrightarrow> schemas s' n = schemas s n)"
  unfolding schemata_server_def control_ok_def Let_def by blast

lemmas server_laws = server_reading server_frame server_create server_alter server_drop server_rows
  server_control

end
