(* ===== verification/Sample_Cluster.thy ===== *)
theory Sample_Cluster
  imports Environment Sql_Text
begin

text \<open>
  One concrete environment, for the witnesses: a cluster with lists of objects and one small
  MySQL server with lists of schemata, accounts, grants and managed rows. It is an instance of
  the parameter \<open>env\<close>, so that the hypotheses of the theorems are seen to hold together; no theorem
  about the operator rests on it.
\<close>

record cluster =
  c_admins :: "AdminConnection list"
  c_databases :: "Database list"
  c_users :: "DatabaseUser list"
  c_secrets :: "Secret list"
  c_schemas :: "DatabaseSchema list"
  c_accounts :: "MySqlUser list"
  c_grants :: "(string \<times> string) list"
  c_managed_databases :: "ManagedDatabase list"
  c_managed_users :: "ManagedUser list"
  c_collations :: "row list"
  c_up :: bool

definition empty_cluster :: cluster where
  "empty_cluster = \<lparr>c_admins = [], c_databases = [], c_users = [], c_secrets = [], c_schemas = [],
     c_accounts = [], c_grants = [], c_managed_databases = [], c_managed_users = [],
     c_collations = [], c_up = True\<rparr>"

section \<open>The API server\<close>

definition keyed :: "NamespacedName \<Rightarrow> ObjectMeta \<Rightarrow> bool" where
  "keyed k m \<longleftrightarrow> om_Name m = nn_Name k \<and> om_Namespace m = nn_Namespace k"

definition same_key :: "ObjectMeta \<Rightarrow> ObjectMeta \<Rightarrow> bool" where
  "same_key m n \<longleftrightarrow> om_Name m = om_Name n \<and> om_Namespace m = om_Namespace n"

definition found :: "'a option \<Rightarrow> error + 'a" where
  "found x = (case x of None \<Rightarrow> Inl (External ''NotFound'') | Some y \<Rightarrow> Inr y)"

text \<open>
  An object that is being deleted goes away with its last finalizer. An update leaves the status alone, a
  status update leaves everything else alone.
\<close>

definition released :: "ObjectMeta \<Rightarrow> bool" where
  "released m \<longleftrightarrow> om_DeletionTimestamp m \<noteq> None \<and> om_Finalizers m = []"

definition put :: "('a \<Rightarrow> ObjectMeta) \<Rightarrow> ('a \<Rightarrow> 'a) \<Rightarrow> ObjectMeta \<Rightarrow> 'a list \<Rightarrow> 'a list" where
  "put meta f m xs = map (\<lambda>y. if same_key m (meta y) then f y else y) xs"

definition store :: "('a \<Rightarrow> ObjectMeta) \<Rightarrow> ('a \<Rightarrow> 'a) \<Rightarrow> ObjectMeta \<Rightarrow> 'a list \<Rightarrow> 'a list" where
  "store meta f m xs = filter (\<lambda>y. \<not> (same_key m (meta y) \<and> released (meta y))) (put meta f m xs)"

section \<open>The MySQL server\<close>

definition after_prefix :: "string \<Rightarrow> char \<Rightarrow> string \<Rightarrow> string option" where
  "after_prefix p stop q =
     (if take (length p) q = p then Some (takeWhile (\<lambda>c. c \<noteq> stop) (drop (length p) q)) else None)"

text \<open>The quoted names of a statement are read by the rules of the server.\<close>

definition literal_after :: "string \<Rightarrow> string \<Rightarrow> (string \<times> string) option" where
  "literal_after p q =
     (if take (length p + 1) q = p @ [CHR 0x27] then read_literal (drop (length p + 1) q) else None)"

definition last_quoted :: "string \<Rightarrow> string" where
  "last_quoted q = rev (takeWhile (\<lambda>c. c \<noteq> CHR 0x27) (tl (dropWhile (\<lambda>c. c \<noteq> CHR 0x27) (rev q))))"

definition ok :: "cluster \<Rightarrow> gorm_tx \<times> cluster" where
  "ok s = (\<lparr>tx_DB = 1, tx_Error = None\<rparr>, s)"

definition refused :: "cluster \<Rightarrow> gorm_tx \<times> cluster" where
  "refused s = (\<lparr>tx_DB = 1, tx_Error = Some (External ''refused'')\<rparr>, s)"

definition schema_named :: "cluster \<Rightarrow> string \<Rightarrow> DatabaseSchema option" where
  "schema_named s n = (if n = [] then None else find (\<lambda>r. sch_SchemaName r = n) (c_schemas s))"

definition account_named :: "cluster \<Rightarrow> string \<Rightarrow> MySqlUser option" where
  "account_named s n = (if n = [] then None else find (\<lambda>r. mysql_User r = n) (c_accounts s))"

definition database_row :: "cluster \<Rightarrow> uid \<Rightarrow> ManagedDatabase option" where
  "database_row s u = find (\<lambda>r. md_Uuid r = u) (c_managed_databases s)"

definition user_row :: "cluster \<Rightarrow> uid \<Rightarrow> ManagedUser option" where
  "user_row s u = find (\<lambda>r. mu_Uuid r = u) (c_managed_users s)"

definition create_schema :: "string \<Rightarrow> cluster \<Rightarrow> gorm_tx \<times> cluster" where
  "create_schema n s =
     (if n = [] \<or> schema_named s n \<noteq> None then refused s
      else ok (s\<lparr>c_schemas := c_schemas s @
        [\<lparr>sch_SchemaName = n, sch_DefaultCharacterSet = ''utf8mb4'',
          sch_DefaultCollation = ''utf8mb4_general_ci''\<rparr>]\<rparr>))"

definition create_account :: "string \<Rightarrow> cluster \<Rightarrow> gorm_tx \<times> cluster" where
  "create_account n s =
     (if n = [] \<or> account_named s n \<noteq> None then refused s
      else ok (s\<lparr>c_accounts := c_accounts s @
        [\<lparr>mysql_Host = ''%'', mysql_User = n, mysql_Plugin = ''caching_sha2_password''\<rparr>]\<rparr>))"

definition rename_account :: "string \<Rightarrow> string \<Rightarrow> cluster \<Rightarrow> gorm_tx \<times> cluster" where
  "rename_account n m s =
     (if account_named s n = None \<or> account_named s m \<noteq> None then refused s
      else ok (s\<lparr>c_accounts := map (\<lambda>r. if mysql_User r = n then r\<lparr>mysql_User := m\<rparr> else r) (c_accounts s)\<rparr>))"

definition sample_exec :: "gormdb \<Rightarrow> string \<Rightarrow> cluster \<Rightarrow> gorm_tx \<times> cluster" where
  "sample_exec h q s =
     (case after_prefix ''CREATE DATABASE `'' (CHR 0x60) q of Some n \<Rightarrow> create_schema n s | None \<Rightarrow>
      case after_prefix ''DROP DATABASE IF EXISTS `'' (CHR 0x60) q of
        Some n \<Rightarrow> ok (s\<lparr>c_schemas := filter (\<lambda>r. sch_SchemaName r \<noteq> n) (c_schemas s)\<rparr>) | None \<Rightarrow>
      case literal_after ''CREATE USER '' q of
        Some (n, rest) \<Rightarrow> create_account n s | None \<Rightarrow>
      case literal_after ''DROP USER IF EXISTS '' q of
        Some (n, rest) \<Rightarrow> ok (s\<lparr>c_accounts := filter (\<lambda>r. mysql_User r \<noteq> n) (c_accounts s)\<rparr>) | None \<Rightarrow>
      case literal_after ''RENAME USER '' q of
        Some (n, rest) \<Rightarrow>
          (case literal_after '' TO '' rest of Some (m, rest) \<Rightarrow> rename_account n m s | None \<Rightarrow> refused s)
      | None \<Rightarrow>
      case after_prefix ''GRANT '' (CHR 0x00) q of
        Some g \<Rightarrow> ok (s\<lparr>c_grants := c_grants s @ [(last_quoted q, ''GRANT '' @ g)]\<rparr>) | None \<Rightarrow>
      case after_prefix ''REVOKE '' (CHR 0x00) q of
        Some g \<Rightarrow> ok (s\<lparr>c_grants := filter (\<lambda>r. fst r \<noteq> last_quoted q) (c_grants s)\<rparr>) | None \<Rightarrow>
      ok s)"

definition sample_raw :: "gormdb \<Rightarrow> string \<Rightarrow> cluster \<Rightarrow> (row list \<times> error option) \<times> cluster" where
  "sample_raw h q s =
     (if take 12 q = ''SHOW GRANTS '' then
        (([(''Grants'', VString ''GRANT USAGE'')] #
          map (\<lambda>g. [(''Grants'', VString (snd g))]) (filter (\<lambda>g. fst g = last_quoted q) (c_grants s)),
          None), s)
      else if take 15 q = ''SHOW COLLATION '' then ((c_collations s, None), s)
      else (([[(''Value'', VString ''utf8mb4'')]], None), s))"

section \<open>The environment\<close>

definition sample_env :: "cluster env" where
  "sample_env = \<lparr>
     k_get_AdminConnection = (\<lambda>k s. (found (find (\<lambda>x. keyed k (ac_Meta x)) (c_admins s)), s)),
     k_get_Database = (\<lambda>k s. (found (find (\<lambda>x. keyed k (db_Meta x)) (c_databases s)), s)),
     k_get_DatabaseUser = (\<lambda>k s. (found (find (\<lambda>x. keyed k (du_Meta x)) (c_users s)), s)),
     k_get_Secret = (\<lambda>k s. (found (find (\<lambda>x. keyed k (sec_Meta x)) (c_secrets s)), s)),
     k_list_Databases = (\<lambda>ns s. (Inr (filter (\<lambda>x. ns = [] \<or> om_Namespace (db_Meta x) = ns) (c_databases s)), s)),
     k_list_DatabaseUsers = (\<lambda>ns s. (Inr (filter (\<lambda>x. ns = [] \<or> om_Namespace (du_Meta x) = ns) (c_users s)), s)),
     k_update_Database = (\<lambda>x s. (None, s\<lparr>c_databases := store db_Meta (\<lambda>y. x\<lparr>db_Status := db_Status y\<rparr>) (db_Meta x) (c_databases s)\<rparr>)),
     k_update_DatabaseUser = (\<lambda>x s. (None, s\<lparr>c_users := store du_Meta (\<lambda>y. x\<lparr>du_Status := du_Status y\<rparr>) (du_Meta x) (c_users s)\<rparr>)),
     k_update_Secret = (\<lambda>x s. (None, s\<lparr>c_secrets := put sec_Meta (\<lambda>y. x) (sec_Meta x) (c_secrets s)\<rparr>)),
     k_status_AdminConnection = (\<lambda>x s. (None, s\<lparr>c_admins := put ac_Meta (\<lambda>y. y\<lparr>ac_Status := ac_Status x\<rparr>) (ac_Meta x) (c_admins s)\<rparr>)),
     k_status_Database = (\<lambda>x s. (None, s\<lparr>c_databases := put db_Meta (\<lambda>y. y\<lparr>db_Status := db_Status x\<rparr>) (db_Meta x) (c_databases s)\<rparr>)),
     k_status_DatabaseUser = (\<lambda>x s. (None, s\<lparr>c_users := put du_Meta (\<lambda>y. y\<lparr>du_Status := du_Status x\<rparr>) (du_Meta x) (c_users s)\<rparr>)),
     k_create_Secret = (\<lambda>x s. ((x, None), s\<lparr>c_secrets := c_secrets s @ [x]\<rparr>)),
     is_not_found = (\<lambda>e. e = External ''NotFound''),
     contains_finalizer = (\<lambda>fs f. List.member fs f),
     add_finalizer = (\<lambda>fs f. if List.member fs f then fs else fs @ [f]),
     remove_finalizer = (\<lambda>fs f. filter (\<lambda>g. g \<noteq> f) fs),
     set_controller_reference = (\<lambda>u x. (x\<lparr>sec_Meta := (sec_Meta x)\<lparr>om_OwnerReferences :=
        Some [\<lparr>or_UID = om_UID (du_Meta u), or_Controller = Some True\<rparr>]\<rparr>\<rparr>, None)),
     format_dsn = cfg_Addr,
     sql_open = (\<lambda>d s. (Inr 1, s)),
     sql_ping = (\<lambda>d s. (if c_up s then None else Some (External ''down''), s)),
     sql_close = (\<lambda>d s. (None, s)),
     gorm_open = (\<lambda>d s. (Inr 1, s)),
     gorm_sql = (\<lambda>h s. (Inr 1, s)),
     gorm_automigrate = (\<lambda>h s. (None, s)),
     gorm_exec = sample_exec,
     gorm_raw_scan = sample_raw,
     gorm_first_schema = (\<lambda>h n s. (case schema_named s n of Some r \<Rightarrow> r
        | None \<Rightarrow> \<lparr>sch_SchemaName = [], sch_DefaultCharacterSet = [], sch_DefaultCollation = []\<rparr>, s)),
     gorm_first_user = (\<lambda>h n s. (case account_named s n of Some r \<Rightarrow> r
        | None \<Rightarrow> \<lparr>mysql_Host = [], mysql_User = [], mysql_Plugin = []\<rparr>, s)),
     gorm_find_ManagedDatabase = (\<lambda>h d u s. (case database_row s u of Some r \<Rightarrow> r | None \<Rightarrow> d, s)),
     gorm_find_ManagedUser = (\<lambda>h d u s. (case user_row s u of Some r \<Rightarrow> r | None \<Rightarrow> d, s)),
     gorm_create_ManagedDatabase = (\<lambda>h r s.
        if database_row s (md_Uuid r) \<noteq> None then refused s
        else ok (s\<lparr>c_managed_databases := c_managed_databases s @ [r]\<rparr>)),
     gorm_save_ManagedUser = (\<lambda>h r s.
        ok (s\<lparr>c_managed_users := filter (\<lambda>x. mu_Uuid x \<noteq> mu_Uuid r) (c_managed_users s) @ [r]\<rparr>)),
     gorm_delete_ManagedDatabase = (\<lambda>h u s.
        ((), s\<lparr>c_managed_databases := filter (\<lambda>x. md_Uuid x \<noteq> u) (c_managed_databases s)\<rparr>)),
     gorm_delete_ManagedUser = (\<lambda>h u s.
        ((), s\<lparr>c_managed_users := filter (\<lambda>x. mu_Uuid x \<noteq> u) (c_managed_users s)\<rparr>)),
     gorm_commit = (\<lambda>h s. ((), s)),
     now = (\<lambda>s. (7, s)),
     rand_int = (\<lambda>m s. (Some 0, s)),
     map_order = (\<lambda>ks s. (ks, s)),
     unicode_to_upper = (\<lambda>t. t)\<rparr>"

definition world_of :: "cluster \<Rightarrow> cluster world" where
  "world_of s = \<lparr>ext = s, connections = Map.empty, effects = []\<rparr>"

section \<open>Sample objects\<close>

definition meta :: "string \<Rightarrow> string \<Rightarrow> uid \<Rightarrow> ObjectMeta" where
  "meta ns n u = \<lparr>om_Name = n, om_Namespace = ns, om_UID = u, om_ResourceVersion = ''1'',
     om_DeletionTimestamp = None, om_Finalizers = [], om_OwnerReferences = None\<rparr>"

definition sample_admin :: AdminConnection where
  "sample_admin = \<lparr>ac_Meta = meta ''ops'' ''db1'' ''A'',
     ac_Spec = \<lparr>acs_Host = ''db'', acs_Port = 3306, acs_AdminUser = None, acs_AdminPassword = None,
       acs_AllowedNamespaces = [''tenant1'', ''blog-*'']\<rparr>,
     ac_Status = \<lparr>acst_SyncTime = None, acst_Message = [], acst_ControlDatabase = [],
       acst_CharacterSet = [], acst_Collation = [], acst_AvailableCharsets = []\<rparr>\<rparr>"

definition admin_ref :: AdminConnectionRef where
  "admin_ref = \<lparr>acr_Namespace = ''ops'', acr_Name = ''db1''\<rparr>"

definition sample_database :: Database where
  "sample_database = \<lparr>db_Meta = meta ''tenant1'' ''mydb'' ''D'',
     db_Spec = \<lparr>ds_AdminConnection = admin_ref, ds_Name = ''shop'', ds_CharacterSet = [], ds_Collate = []\<rparr>,
     db_Status = \<lparr>dst_CreationTime = None, dst_SyncTime = None, dst_CharacterSet = [], dst_Collate = [],
       dst_Message = [], dst_Name = [], dst_Host = [], dst_Port = 0\<rparr>\<rparr>"

definition sample_user :: DatabaseUser where
  "sample_user = \<lparr>du_Meta = meta ''tenant1'' ''alice'' ''U'',
     du_Spec = \<lparr>us_AdminConnection = admin_ref, us_Username = ''alice'', us_Identification = None,
       us_DatabaseList = Some [\<lparr>dp_Name = ''mydb'', dp_Grants = None\<rparr>],
       us_TlsOptions = \<lparr>tls_Required = False\<rparr>\<rparr>,
     du_Status = \<lparr>ust_CreationTime = None, ust_SyncTime = None, ust_Message = [], ust_Username = [],
       ust_DatabaseList = None, ust_Grants = None, ust_Identification = None,
       ust_IdentificationResourceVersion = [], ust_TlsOptions = \<lparr>tls_Required = False\<rparr>\<rparr>\<rparr>"

definition sample_cluster :: cluster where
  "sample_cluster = empty_cluster\<lparr>c_admins := [sample_admin], c_databases := [sample_database],
     c_users := [sample_user]\<rparr>"

lemma sample_env_simps [simp]:
  "k_get_Database sample_env k s = (found (find (\<lambda>x. keyed k (db_Meta x)) (c_databases s)), s)"
  "gorm_exec sample_env = sample_exec"
  "now sample_env s = (7, s)"
  by (simp_all add: sample_env_def)

lemma sample_finalizers_ok: "finalizers_ok sample_env"
  by (auto simp: finalizers_ok_def sample_env_def)

end
