(* ===== verification/Sample_Server.thy ===== *)
theory Sample_Server
  imports Server Sample_Cluster
begin

text \<open>
  The concrete environment of \<open>Sample_Cluster\<close> satisfies the hypotheses about the server: the laws of
  \<open>schemata_server\<close> hold of a server that really stores schemata and rows and really creates, drops
  and refuses.
\<close>

lemma find_append: "find P (xs @ ys) = (case find P xs of Some x \<Rightarrow> Some x | None \<Rightarrow> find P ys)"
  by (induction xs) auto

lemma find_filter_other:
  "(\<And>x. P x \<Longrightarrow> Q x) \<Longrightarrow> find P (filter Q xs) = find P xs"
  by (induction xs) auto

lemma find_filter_none: "find P (filter (\<lambda>x. \<not> P x) xs) = None"
  by (auto simp: find_None_iff)

lemma sample_reading: "reading sample_env s s' \<Longrightarrow> s' = s"
  by (erule reading_cases) (simp_all add: sample_env_def sample_raw_def)

lemma takeWhile_name: "CHR 0x60 \<notin> set n \<Longrightarrow> takeWhile (\<lambda>c. c \<noteq> CHR 0x60) (n @ CHR 0x60 # rest) = n"
  by (induction n) auto

lemma exec_create:
  assumes "plain_name (ds_Name spec)"
  shows "sample_exec h (create_database_stmt spec) s = create_schema (ds_Name spec) s"
  using assms
  by (simp add: sample_exec_def after_prefix_def create_database_stmt_def plain_name_def takeWhile_name)

lemma exec_drop:
  assumes "plain_name n"
  shows "sample_exec h (drop_database_stmt n) s =
     ok (s\<lparr>c_schemas := filter (\<lambda>r. sch_SchemaName r \<noteq> n) (c_schemas s)\<rparr>)"
  using assms
  by (simp add: sample_exec_def after_prefix_def drop_database_stmt_def plain_name_def takeWhile_name)

lemma exec_alter: "sample_exec h (alter_database_stmt inst) s = ok s"
  by (simp add: sample_exec_def after_prefix_def literal_after_def alter_database_stmt_def)

lemma exec_control: "sample_exec h (''CREATE DATABASE IF NOT EXISTS '' @ DatabaseName) s = ok s"
  by (simp add: sample_exec_def after_prefix_def literal_after_def DatabaseName_def)

lemma after_prefix_None: "\<not> prefix p q \<Longrightarrow> after_prefix p c q = None"
  by (auto simp: after_prefix_def prefix_def) (metis append_take_drop_id)

lemma exec_other:
  assumes "\<not> prefix ''CREATE DATABASE '' q" and "\<not> prefix ''DROP DATABASE '' q"
  shows "c_schemas (snd (sample_exec h q s)) = c_schemas s \<and>
     c_managed_databases (snd (sample_exec h q s)) = c_managed_databases s"
proof -
  have "prefix ''CREATE DATABASE '' q" if "prefix ''CREATE DATABASE `'' q"
    using prefix_order.trans [OF _ that, of "''CREATE DATABASE ''"] by simp
  moreover have "prefix ''DROP DATABASE '' q" if "prefix ''DROP DATABASE IF EXISTS `'' q"
    using prefix_order.trans [OF _ that, of "''DROP DATABASE ''"] by simp
  ultimately have "after_prefix ''CREATE DATABASE `'' (CHR 0x60) q = None"
    "after_prefix ''DROP DATABASE IF EXISTS `'' (CHR 0x60) q = None"
    using assms by (blast intro: after_prefix_None)+
  then show ?thesis
    by (simp add: sample_exec_def ok_def refused_def create_account_def rename_account_def
        split: option.splits prod.splits)
qed

lemma create_schema_result:
  "n \<noteq> [] \<Longrightarrow> create_schema n s = (tx, s') \<Longrightarrow>
     database_row s' = database_row s \<and>
     ((schema_named s n = None \<and> (\<exists>r. schema_named s' = (schema_named s)(n \<mapsto> r))) \<or>
      (schema_named s' = schema_named s \<and> tx_Error tx \<noteq> None))"
  by (auto simp: create_schema_def ok_def refused_def schema_named_def database_row_def fun_eq_iff
      find_append split: if_splits option.splits)

lemma drop_schema_result:
  "schema_named (s\<lparr>c_schemas := filter (\<lambda>r. sch_SchemaName r \<noteq> n) (c_schemas s)\<rparr>) =
     (schema_named s)(n := None)"
proof
  fix m
  have "find (\<lambda>r. sch_SchemaName r = m) (filter (\<lambda>r. sch_SchemaName r \<noteq> n) (c_schemas s)) =
      find (\<lambda>r. sch_SchemaName r = m) (c_schemas s)" if "m \<noteq> n"
    using that by (intro find_filter_other) auto
  then show "schema_named (s\<lparr>c_schemas := filter (\<lambda>r. sch_SchemaName r \<noteq> n) (c_schemas s)\<rparr>) m =
      ((schema_named s)(n := None)) m"
    by (auto simp: schema_named_def find_None_iff)
qed

lemma forget_row_result:
  "database_row (s\<lparr>c_managed_databases := filter (\<lambda>x. md_Uuid x \<noteq> u) (c_managed_databases s)\<rparr>) =
     (database_row s)(u := None)"
proof
  fix v
  have "find (\<lambda>x. md_Uuid x = v) (filter (\<lambda>x. md_Uuid x \<noteq> u) (c_managed_databases s)) =
      find (\<lambda>x. md_Uuid x = v) (c_managed_databases s)" if "v \<noteq> u"
    using that by (intro find_filter_other) auto
  then show "database_row (s\<lparr>c_managed_databases := filter (\<lambda>x. md_Uuid x \<noteq> u) (c_managed_databases s)\<rparr>) v =
      ((database_row s)(u := None)) v"
    by (auto simp: database_row_def find_None_iff)
qed

lemma find_satisfies: "find P xs = Some x \<Longrightarrow> P x"
  by (auto simp: find_Some_iff)

lemma sample_schema_tables: "schema_tables_ok sample_env h schema_named database_row"
proof -
  have "sch_SchemaName r \<noteq> []" if "schema_named s n = Some r" for s n r
    using that by (auto simp: schema_named_def split: if_splits dest: find_satisfies)
  then show ?thesis
    unfolding schema_tables_ok_def zero_DatabaseSchema_def by (simp add: sample_env_def)
qed

lemma sample_account_tables: "account_tables_ok sample_env h account_named user_row"
proof -
  have "mysql_User r \<noteq> []" if "account_named s n = Some r" for s n r
    using that by (auto simp: account_named_def split: if_splits dest: find_satisfies)
  then show ?thesis
    unfolding account_tables_ok_def zero_MySqlUser_def by (simp add: sample_env_def)
qed

lemma sample_frame: "schemata_frame sample_env schema_named database_row"
proof -
  have "c_schemas (after sample_env e s) = c_schemas s \<and>
      c_managed_databases (after sample_env e s) = c_managed_databases s"
    if "\<not> changes_schemata e" for e s
  proof (cases e)
    case (Exec h q)
    then show ?thesis
      using that exec_other [of q h s] by (simp add: changes_schemata_def)
  qed (use that in \<open>simp_all add: sample_env_def ok_def changes_schemata_def\<close>)
  then have "same_schemata schema_named database_row s (after sample_env e s)"
    if "\<not> changes_schemata e" for e s
    using that by (simp add: same_schemata_def schema_named_def database_row_def fun_eq_iff)
  moreover have "same_schemata schema_named database_row s s'" if "reading sample_env s s'" for s s'
    using sample_reading [OF that] by (simp add: same_schemata_def)
  ultimately show ?thesis
    unfolding schemata_frame_def using sample_schema_tables by blast
qed

lemma sample_rows: "rows_ok sample_env schema_named database_row"
proof -
  have "schema_named s' = schema_named s \<and>
      (database_row s' = (database_row s)(md_Uuid r \<mapsto> r) \<or>
       database_row s' = database_row s \<and> tx_Error tx \<noteq> None)"
    if "gorm_create_ManagedDatabase sample_env h r s = (tx, s')" for h r s tx s'
    using that
    by (auto simp: sample_env_def ok_def refused_def database_row_def schema_named_def fun_eq_iff
        find_append split: if_splits option.splits)
  moreover have "schema_named (s\<lparr>c_managed_databases := x\<rparr>) = schema_named s" for s x
    by (simp add: schema_named_def fun_eq_iff)
  ultimately show ?thesis
    by (auto simp: rows_ok_def Let_def sample_env_def forget_row_result)
qed

lemma sample_server: "schemata_server sample_env schema_named database_row"
proof -
  have "create_ok sample_env schema_named database_row"
    using create_schema_result
    by (fastforce simp: create_ok_def plain_spec_def exec_create plain_name_def)
  moreover have "alter_ok sample_env schema_named database_row"
    by (simp add: alter_ok_def exec_alter ok_def)
  moreover have "drop_ok sample_env schema_named database_row"
    by (auto simp: drop_ok_def exec_drop ok_def drop_schema_result database_row_def fun_eq_iff)
  moreover have "control_ok sample_env schema_named database_row"
    unfolding control_ok_def sample_env_simps exec_control by (simp add: ok_def)
  ultimately show ?thesis
    by (simp add: schemata_server_def sample_frame sample_rows)
qed

section \<open>Accounts\<close>

lemma literal_after_quoted [simp]:
  "ends_literal rest \<Longrightarrow> literal_after p (p @ quoted (Escape n) @ rest) = Some (n, rest)"
  using mysql_text.scan_encode [of rest n] by (simp add: literal_after_def quoted_def)

lemma literal_after_last: "literal_after p (p @ quoted (Escape n)) = Some (n, [])"
  using literal_after_quoted [of "[]" p n] by simp

end
