(* ===== verification/Connection_Correct.thy ===== *)
theory Connection_Correct
  imports Controller_Base Sample_Server
begin

text \<open>
  Properties of \<open>common.go\<close> and \<open>adminconnection_types.go\<close>: passwords, admitted namespaces,
  the lookup of the admin connection, the connection cache and the two ownership checks.
\<close>

section \<open>Passwords\<close>

text \<open>What the last loop draws, when the counts are no more than the length: the subtractions do not wrap.\<close>

lemma remaining_length:
  fixes n a b c :: "64 word"
  assumes "0 \<le> sint a" and "0 \<le> sint b" and "0 \<le> sint c" and "sint a + sint b + sint c \<le> sint n"
  shows "sint (n - a - b - c) = sint n - sint a - sint b - sint c"
proof -
  have "- (2 ^ 63) \<le> sint n - sint a - sint b - sint c" "sint n - sint a - sint b - sint c < 2 ^ 63"
    using assms sint_lt [of n] by simp_all
  moreover have "n - a - b - c = word_of_int (sint n - sint a - sint b - sint c)"
    by simp
  ultimately show ?thesis
    by (simp only: signed_of_int) (simp add: signed_take_bit_int_eq_self)
qed

text \<open>
  C27: while the random source answers, \<open>GeneratePassword\<close> returns a password made of the characters it was asked for, with
  at least the requested special characters, digits and upper-case letters. It has the requested length when the three counts are
  not negative and together at most that length; otherwise it is as long as its four loops draw.
\<close>

theorem GeneratePassword_meets_policy:
  assumes "rand_int_ok E"
  shows "\<exists>p w'. GeneratePassword E n a b c w = Ret p w' \<and>
     (0 \<le> sint a \<and> 0 \<le> sint b \<and> 0 \<le> sint c \<and> sint a + sint b + sint c \<le> sint n \<longrightarrow> length p = nat (sint n)) \<and>
     length p = nat (sint a) + nat (sint b) + nat (sint c) + nat (sint (n - a - b - c)) \<and>
     nat (sint a) \<le> length (filter (\<lambda>x. x \<in> set specialCharSet) p) \<and>
     nat (sint b) \<le> length (filter (\<lambda>x. x \<in> set numberSet) p) \<and>
     nat (sint c) \<le> length (filter (\<lambda>x. x \<in> set upperCharSet) p) \<and>
     set p \<subseteq> set allCharSet"
proof -
  note step = append_random_ok [OF assms]
  have sets: "set specialCharSet \<subseteq> set allCharSet" "set numberSet \<subseteq> set allCharSet"
    "set upperCharSet \<subseteq> set allCharSet"
    by (auto simp: allCharSet_def)
  have ne: "specialCharSet \<noteq> []" "numberSet \<noteq> []" "upperCharSet \<noteq> []" "allCharSet \<noteq> []"
    using charset_lengths by fastforce+
  obtain p1 w1 where 1: "append_random E specialCharSet (nat (sint a)) [] w = Ret p1 w1"
    "length p1 = nat (sint a)" "set p1 \<subseteq> set specialCharSet"
    using step [OF ne(1), of "nat (sint a)" "[]" w] by auto
  obtain p2 w2 where 2: "append_random E numberSet (nat (sint b)) p1 w1 = Ret (p1 @ p2) w2"
    "length p2 = nat (sint b)" "set p2 \<subseteq> set numberSet"
    using step [OF ne(2), of "nat (sint b)" p1 w1] by auto
  obtain p3 w3 where 3:
    "append_random E upperCharSet (nat (sint c)) (p1 @ p2) w2 = Ret (p1 @ p2 @ p3) w3"
    "length p3 = nat (sint c)" "set p3 \<subseteq> set upperCharSet"
    using step [OF ne(3), of "nat (sint c)" "p1 @ p2" w2] by auto
  obtain p4 w4 where 4:
    "append_random E allCharSet (nat (sint (n - a - b - c))) (p1 @ p2 @ p3) w3 =
       Ret (p1 @ p2 @ p3 @ p4) w4"
    "length p4 = nat (sint (n - a - b - c))" "set p4 \<subseteq> set allCharSet"
    using step [OF ne(4), of "nat (sint (n - a - b - c))" "p1 @ p2 @ p3" w3] by auto
  obtain p w' where sh: "shuffle_loop E [0..<length (p1 @ p2 @ p3 @ p4)] (p1 @ p2 @ p3 @ p4) w4 = Ret p w'"
    and m: "mset p = mset (p1 @ p2 @ p3 @ p4)"
    using shuffle_all_ok [OF assms, of "p1 @ p2 @ p3 @ p4" w4] by blast
  have count: "length q \<le> length (filter (\<lambda>x. x \<in> A) p)"
    if "set q \<subseteq> A" and "mset q \<subseteq># mset (p1 @ p2 @ p3 @ p4)" for q :: string and A
    using that m by (simp add: length_filter_submset)
  have eqs: "length p = length (p1 @ p2 @ p3 @ p4)" "set p = set (p1 @ p2 @ p3 @ p4)"
    using m by (metis size_mset, metis set_mset_mset)
  have run: "GeneratePassword E n a b c w = Ret p w'"
    using 1(1) 2(1) 3(1) 4(1) sh by (simp add: GeneratePassword_def go_bind_def)
  have "nat (sint a) + nat (sint b) + nat (sint c) + nat (sint (n - a - b - c)) = nat (sint n)"
    if "0 \<le> sint a \<and> 0 \<le> sint b \<and> 0 \<le> sint c \<and> sint a + sint b + sint c \<le> sint n"
  proof -
    have "sint (n - a - b - c) = sint n - sint a - sint b - sint c"
      using that by (intro remaining_length) simp_all
    with that show ?thesis by arith
  qed
  then show ?thesis
    using run eqs count [of p1 "set specialCharSet"] count [of p2 "set numberSet"]
      count [of p3 "set upperCharSet"] 1(2,3) 2(2,3) 3(2,3) 4(2,3) sets
    by (intro exI [of _ p] exI [of _ w']) auto
qed

lemma sample_rand_int_ok: "rand_int_ok sample_env"
  by (simp add: rand_int_ok_def sample_env_def)

lemma GeneratePassword_meets_policy_witness:
  "\<exists>p w'. GeneratePassword sample_env 24 1 1 1 (world_of sample_cluster) = Ret p w' \<and>
     length p = 24 \<and> set p \<subseteq> set allCharSet"
  using GeneratePassword_meets_policy [OF sample_rand_int_ok, of 24 1 1 1 "world_of sample_cluster"]
  by fastforce

text \<open>
  The lower-case letters from \<open>u\<close> to \<open>z\<close> are never in a password, although the set of
  lower-case letters is meant to be the alphabet; \<open>d\<close> is in the set twice.
\<close>

theorem lowerCharSet_incomplete:
  "set ''uvwxyz'' \<inter> set allCharSet = {} \<and> count_list lowerCharSet (CHR ''d'') = 2"
  by (simp add: allCharSet_def lowerCharSet_def upperCharSet_def specialCharSet_def numberSet_def)

section \<open>Namespaces\<close>

text \<open>
  An \<open>AdminConnection\<close> admits its own namespace, the namespaces it lists, and those that start with
  a listed prefix followed by a star, and no others.
\<close>

theorem AllowedNamespace_iff:
  "AllowedNamespace conn n \<longleftrightarrow>
     n = om_Namespace (ac_Meta conn) \<or> (\<exists>a \<in> set (acs_AllowedNamespaces (ac_Spec conn)). admits a n)"
  by (simp add: AllowedNamespace_def allowed_loop_iff)

lemma sample_lookup:
  "k_get_AdminConnection sample_env \<lparr>nn_Namespace = ''ops'', nn_Name = ''db1''\<rparr> sample_cluster =
     (Inr sample_admin, sample_cluster)"
  by (simp add: sample_env_def sample_cluster_def empty_cluster_def found_def keyed_def sample_admin_def meta_def)

section \<open>The connection cache\<close>

text \<open>The configuration of the sample admin connection, and worlds with a cached connection to it.\<close>

definition sample_config :: MysqlConfig where
  "sample_config = \<lparr>cfg_Net = ''tcp'', cfg_DBName = ''mysql'', cfg_ParseTime = True,
     cfg_AllowNativePasswords = True, cfg_TLSConfig = ''preferred'', cfg_Addr = ''db:3306'',
     cfg_User = ''root'', cfg_Passwd = []\<rparr>"

lemma sample_config_run: "getDbConfig sample_env sample_admin w = Ret (Inr sample_config) w"
  by (simp add: getDbConfig_def sample_admin_def sample_config_def itoa_def digits_of.simps char_of_def bit_Suc_0_iff)

definition cached_world :: "MysqlConfig \<Rightarrow> cluster world" where
  "cached_world cfg = (world_of sample_cluster)\<lparr>connections := [''A'' \<mapsto> \<lparr>cd_Config = cfg, cd_DB = 1\<rparr>]\<rparr>"

lemma cached_world_simps [simp]:
  "connections (cached_world cfg) = [''A'' \<mapsto> \<lparr>cd_Config = cfg, cd_DB = 1\<rparr>]"
  "ext (cached_world cfg) = sample_cluster" "effects (cached_world cfg) = []"
  "om_UID (ac_Meta sample_admin) = ''A''"
  by (simp_all add: cached_world_def world_of_def sample_admin_def meta_def)

lemma sample_pool: "gorm_sql sample_env h s = (Inr (Suc 0), s)" "sql_ping sample_env (Suc 0) sample_cluster = (None, sample_cluster)"
  by (simp_all add: sample_env_def sample_cluster_def empty_cluster_def)

text \<open>The configuration of an admin connection, as far as the secrets can be read.\<close>

lemma getDbConfig_same:
  "getDbConfig E adm w = Ret r w1 \<Longrightarrow> effects w1 = effects w \<and> connections w1 = connections w"
  using observes_Ret [OF observesI [OF getDbConfig_emits(1,2)]] by blast

lemma keeps_Ret: "keeps_connections m \<Longrightarrow> m w = Ret x w1 \<Longrightarrow> connections w1 = connections w"
  by (metis final_world.simps(1) keeps_connections_def)

lemma needs_new_same:
  "needs_new_connection E c cfg w = Ret b w1 \<Longrightarrow> connections w1 = connections w"
  by (rule keeps_Ret [OF needs_new_connection_keeps(1)])

lemma needs_new_None: "needs_new_connection E c cfg w = Ret False w1 \<Longrightarrow>
    \<exists>d. c = Some d \<and> cd_Config d = cfg"
  by (auto simp: needs_new_connection_def bind_ask bind_perform split: option.splits if_splits sum.splits)

lemma reuse_returns:
  assumes "never_panics m" and "\<And>c. never_panics (f c)"
  shows "never_panics (go_bind (needs_new_connection E conn cfg)
    (\<lambda>new. if new then m else go_bind (deref conn) f))"
  unfolding never_panics_def
proof
  fix w
  obtain b w1 where n: "needs_new_connection E conn cfg w = Ret b w1"
    using never_panics_Ret [OF needs_new_connection_keeps(2)] by blast
  show "returned (go_bind (needs_new_connection E conn cfg)
      (\<lambda>new. if new then m else go_bind (deref conn) f) w) \<noteq> None"
    using assms n needs_new_None [of E conn cfg w w1]
    by (cases b) (auto simp: go_bind_def never_panics_def)
qed

lemma GetDatabaseConnection_returns [emits_intros]: "never_panics (GetDatabaseConnection E adm)"
  unfolding GetDatabaseConnection_def by (intro emits_intros reuse_returns)

lemma fresh_same:
  "createFreshConnection E cfg w = Ret r w1 \<Longrightarrow> connections w1 = connections w"
  by (rule keeps_Ret [OF createFreshConnection_keeps(1)])

text \<open>The cache after a call whose configuration could be read.\<close>

lemma cache_readable:
  assumes "getDbConfig E adm w = Ret (Inr cfg) w1"
  shows "\<exists>r w'. GetDatabaseConnection E adm w = Ret r w' \<and>
     connections w' = (connections w)(om_UID (ac_Meta adm) :=
       (case r of Inr h \<Rightarrow> Some \<lparr>cd_Config = cfg, cd_DB = h\<rparr> | Inl e \<Rightarrow> None))"
proof -
  let ?u = "om_UID (ac_Meta adm)"
  have c1: "connections w1 = connections w"
    using getDbConfig_same [OF assms] by simp
  obtain b w2 where n: "needs_new_connection E (connections w1 ?u) cfg w1 = Ret b w2"
    using never_panics_Ret [OF needs_new_connection_keeps(2)] by blast
  note c2 = needs_new_same [OF n]
  show ?thesis
  proof (cases b)
    case False
    then obtain d where d: "connections w1 ?u = Some d" "cd_Config d = cfg"
      using n needs_new_None [of E _ cfg w1 w2] by auto
    then have "Some \<lparr>cd_Config = cfg, cd_DB = cd_DB d\<rparr> = connections w ?u"
      using c1 by simp
    then show ?thesis
      using assms n False d c1 c2
      by (intro exI [of _ "Inr (cd_DB d)"] exI [of _ w2])
         (simp add: GetDatabaseConnection_def go_bind_def cache_lookup_def fun_upd_idem)
  next
    case True
    let ?w2 = "w2\<lparr>connections := (connections w2)(?u := None)\<rparr>"
    obtain r w3 where f: "createFreshConnection E cfg ?w2 = Ret r w3"
      using never_panics_Ret [OF createFreshConnection_keeps(2)] by blast
    note c3 = fresh_same [OF f]
    show ?thesis
      using assms n True f c1 c2 c3
      by (cases r)
         (simp_all add: GetDatabaseConnection_def go_bind_def cache_lookup_def cache_delete_def cache_store_def)
  qed
qed

text \<open>
  C22: \<open>GetDatabaseConnection\<close> never panics. When the configuration can be read, the cache entry of the admin connection is
  afterwards exactly the handle that was returned, under that configuration, or gone when no connection could be made, and the entries
  of other admin connections are untouched. When it cannot be read (a secret is missing), the call fails with that error, and the
  whole cache stays as it was, the entry of the admin connection included.
\<close>

theorem GetDatabaseConnection_cache:
  "\<exists>c w1 r w'. getDbConfig E adm w = Ret c w1 \<and> GetDatabaseConnection E adm w = Ret r w' \<and>
     (case c of
        Inl e \<Rightarrow> r = Inl e \<and> connections w' = connections w
      | Inr cfg \<Rightarrow> connections w' = (connections w)(om_UID (ac_Meta adm) :=
          (case r of Inr h \<Rightarrow> Some \<lparr>cd_Config = cfg, cd_DB = h\<rparr> | Inl e \<Rightarrow> None)))"
proof -
  obtain c w1 where c: "getDbConfig E adm w = Ret c w1"
    using never_panics_Ret [OF getDbConfig_emits(3)] by blast
  show ?thesis
  proof (cases c)
    case (Inl e)
    then have "GetDatabaseConnection E adm w = Ret (Inl e) w1"
      using c by (simp add: GetDatabaseConnection_def go_bind_Ret)
    with c Inl getDbConfig_same [OF c] show ?thesis by simp
  next
    case (Inr cfg)
    with c cache_readable [of E adm w cfg w1] show ?thesis by auto
  qed
qed

text \<open>
  A cached connection whose configuration is still current and that answers a ping is used again: the
  same handle, nothing opened, closed or executed, and the cache as it was.
\<close>

theorem GetDatabaseConnection_reuse:
  assumes "getDbConfig E adm w = Ret (Inr cfg) w1"
    and "connections w (om_UID (ac_Meta adm)) = Some \<lparr>cd_Config = cfg, cd_DB = h\<rparr>"
    and "gorm_sql E h (ext w1) = (Inr pool, s)" and "sql_ping E pool s = (None, s')"
  shows "\<exists>w'. GetDatabaseConnection E adm w = Ret (Inr h) w' \<and>
     effects w' = effects w \<and> connections w' = connections w"
proof -
  have same: "effects w1 = effects w" "connections w1 = connections w"
    using getDbConfig_same [OF assms(1)] by auto
  have "needs_new_connection E (connections w1 (om_UID (ac_Meta adm))) cfg w1 = Ret False (w1\<lparr>ext := s'\<rparr>)"
    using assms same by (simp add: needs_new_connection_def bind_ask)
  then show ?thesis
    using assms same
    by (simp add: GetDatabaseConnection_def go_bind_def cache_lookup_def)
qed

lemma GetDatabaseConnection_reuse_witness:
  "\<exists>w'. GetDatabaseConnection sample_env sample_admin (cached_world sample_config) = Ret (Inr 1) w' \<and>
     effects w' = [] \<and> connections w' = [''A'' \<mapsto> \<lparr>cd_Config = sample_config, cd_DB = 1\<rparr>]"
  using GetDatabaseConnection_reuse [OF sample_config_run, of "cached_world sample_config" 1]
  by (simp add: sample_pool)

lemma first_effect:
  assumes "\<And>r. emits P (g r)"
  shows "\<exists>es. effects (final_world (go_bind (perform e f) g w)) = effects w @ e # es"
proof -
  let ?w = "w\<lparr>ext := snd (f (ext w)), effects := effects w @ [e]\<rparr>"
  obtain es where "effects (final_world (g (fst (f (ext w))) ?w)) = effects ?w @ es"
    using assms unfolding emits_def by blast
  then show ?thesis by (simp add: bind_perform)
qed

lemma effect_then:
  assumes "\<exists>es. effects (final_world (m w)) = effects w @ e # es" and "\<And>x. emits P (f x)"
  shows "\<exists>es. effects (final_world (go_bind m f w)) = effects w @ e # es"
proof (cases "m w")
  case (Ret x w')
  moreover obtain es' where "effects (final_world (f x w')) = effects w' @ es'"
    using assms(2) by (auto simp: emits_def)
  ultimately show ?thesis using assms(1) by (auto simp: go_bind_def)
next
  case (Panic p w')
  with assms(1) show ?thesis by (simp add: go_bind_def)
qed

text \<open>
  When the configuration has changed (a new password, host or user), the old pool is closed before
  the new one is opened, and both happen in the call that notices the change.
\<close>

theorem GetDatabaseConnection_rotation:
  assumes "getDbConfig E adm w = Ret (Inr cfg) w1"
    and "connections w (om_UID (ac_Meta adm)) = Some c" and "cd_Config c \<noteq> cfg"
    and "gorm_sql E (cd_DB c) (ext w1) = (Inr pool, s)"
  shows "\<exists>es. effects (final_world (GetDatabaseConnection E adm w)) =
     effects w @ CloseConnection pool # OpenConnection (format_dsn E cfg) # es"
proof -
  let ?u = "om_UID (ac_Meta adm)"
  have same: "effects w1 = effects w" "connections w1 = connections w"
    using getDbConfig_same [OF assms(1)] by auto
  let ?w2 = "w1\<lparr>ext := snd (sql_close E pool s), effects := effects w1 @ [CloseConnection pool]\<rparr>"
  let ?store = "\<lambda>r. case r of Inl err \<Rightarrow> ret (Inl err)
      | Inr gormDB \<Rightarrow> go_bind (cache_store ?u \<lparr>cd_Config = cfg, cd_DB = gormDB\<rparr>) (\<lambda>_. ret (Inr gormDB))"
  have needs: "needs_new_connection E (Some c) cfg w1 = Ret True ?w2"
    using assms(3,4) by (simp add: needs_new_connection_def bind_ask bind_perform)
  have "\<exists>es. effects (final_world (createFreshConnection E cfg v)) =
      effects v @ OpenConnection (format_dsn E cfg) # es" for v
    unfolding createFreshConnection_def
    by (rule first_effect [where P = connection_effect], intro emits_intros)
       (simp_all add: connection_effect_def)
  then have "\<exists>es. effects (final_world (go_bind (createFreshConnection E cfg) ?store v)) =
      effects v @ OpenConnection (format_dsn E cfg) # es" for v
    by (rule effect_then [where P = connection_effect]) (intro emits_intros)
  from this [of "?w2\<lparr>connections := (connections w1)(?u := None)\<rparr>"]
  show ?thesis
    using assms(2) same needs
    by (simp add: GetDatabaseConnection_def go_bind_Ret [of _ w] go_bind_Ret [of _ w1] assms(1) bind_runs)
qed

lemma GetDatabaseConnection_rotation_witness:
  "\<exists>es. effects (final_world (GetDatabaseConnection sample_env sample_admin
       (cached_world (sample_config\<lparr>cfg_Passwd := ''old''\<rparr>)))) =
     CloseConnection 1 # OpenConnection (format_dsn sample_env sample_config) # es"
  using GetDatabaseConnection_rotation [OF sample_config_run,
      of "cached_world (sample_config\<lparr>cfg_Passwd := ''old''\<rparr>)"]
  by (simp add: sample_pool sample_config_def)

section \<open>Ownership\<close>

text \<open>
  C10: a \<open>Database\<close> may manage the schema it names exactly when the schema does not exist yet or the
  managed row with the object's UID carries the object's name, namespace and schema name. (The lookup
  changes nothing.)
\<close>

theorem DatabaseMine_iff:
  assumes "schema_tables_ok E h schemas rows" and "ds_Name (db_Spec d) \<noteq> []"
  shows "DatabaseMine E h d w =
     Ret (schemas (ext w) (ds_Name (db_Spec d)) = None \<or>
       (\<exists>row. rows (ext w) (om_UID (db_Meta d)) = Some row \<and> md_DatabaseName row = ds_Name (db_Spec d) \<and>
          md_Name row = om_Name (db_Meta d) \<and> md_Namespace row = om_Namespace (db_Meta d))) w"
  using assms(2)
  by (auto simp: DatabaseMine_run [OF assms(1)] database_row_matches_def zero_ManagedDatabase_def
      split: option.splits)

lemma DatabaseMine_iff_witness:
  "returned (DatabaseMine sample_env 1 sample_database (world_of sample_cluster)) = Some True \<and>
   returned (DatabaseMine sample_env 1 sample_database (world_of (sample_cluster\<lparr>c_schemas :=
     [\<lparr>sch_SchemaName = ''shop'', sch_DefaultCharacterSet = [], sch_DefaultCollation = []\<rparr>]\<rparr>))) = Some False"
  using DatabaseMine_iff [OF sample_schema_tables, of sample_database 1]
  by (simp add: world_of_def sample_database_def schema_named_def sample_cluster_def empty_cluster_def
      database_row_def)

text \<open>
  C9: a \<open>DatabaseUser\<close> may manage its account exactly when each of its names (the one of the
  specification and, if there is another, the one of the status) either is no account or is the
  name in the managed row of the object. In particular it may not take over an account that exists: with two
  different names that both exist it manages neither.
\<close>

theorem UserMine_iff:
  assumes "account_tables_ok E h accounts rows" and "us_Username (du_Spec u) \<noteq> []"
  shows "UserMine E h u w =
     Ret (\<forall>n. n \<noteq> [] \<and> (n = us_Username (du_Spec u) \<or> n = ust_Username (du_Status u)) \<longrightarrow>
        accounts (ext w) n = None \<or>
        (\<exists>row. rows (ext w) (om_UID (du_Meta u)) = Some row \<and> mu_Username row = n \<and>
           mu_Name row = om_Name (du_Meta u) \<and> mu_Namespace row = om_Namespace (du_Meta u))) w"
proof -
  have "user_owns accounts rows (ext w) u zero_ManagedUser n \<longleftrightarrow> accounts (ext w) n = None \<or>
        (\<exists>row. rows (ext w) (om_UID (du_Meta u)) = Some row \<and> mu_Username row = n \<and>
           mu_Name row = om_Name (du_Meta u) \<and> mu_Namespace row = om_Namespace (du_Meta u))"
    if "n \<noteq> []" for n
    using that by (auto simp: user_owns_def user_row_matches_def zero_ManagedUser_def split: option.splits)
  moreover have "n \<in> set (user_names u) \<longleftrightarrow>
      n \<noteq> [] \<and> (n = us_Username (du_Spec u) \<or> n = ust_Username (du_Status u))" for n
    using assms(2) by (auto simp: user_names_def Let_def)
  ultimately show ?thesis
    by (auto simp: UserMine_run [OF assms(1)])
qed

lemma UserMine_iff_witness:
  "returned (UserMine sample_env 1 sample_user (world_of sample_cluster)) = Some True \<and>
   returned (UserMine sample_env 1 sample_user (world_of (sample_cluster\<lparr>c_accounts :=
     [\<lparr>mysql_Host = ''%'', mysql_User = ''alice'', mysql_Plugin = []\<rparr>]\<rparr>))) = Some False"
  using UserMine_iff [OF sample_account_tables, of sample_user 1]
  by (simp add: world_of_def sample_user_def account_named_def sample_cluster_def empty_cluster_def
      user_row_def)

end
