(* ===== verification/Database_Webhook.thy ===== *)
theory Database_Webhook
  imports Admin_Connection Charsets
begin

text \<open>
  The validating webhook of \<open>api/v1alpha1/database_webhook.go\<close>: the rule for database names
  (a regular expression over runes, so Go's UTF-8 decoding is part of it), the rule that a name never
  changes, and the rule for character sets and collations.
\<close>

section \<open>Runes\<close>

definition in_range :: "nat \<Rightarrow> nat \<Rightarrow> char \<Rightarrow> bool" where
  "in_range lo hi c \<longleftrightarrow> lo \<le> of_char c \<and> of_char c \<le> (hi::nat)"

text \<open>Size of the sequence a byte starts and the range of its second byte (Go's table \<open>first\<close>).\<close>

definition rune_start :: "char \<Rightarrow> (nat \<times> nat \<times> nat) option" where
  "rune_start c =
     (if in_range 0xC2 0xDF c then Some (2, 0x80, 0xBF)
      else if in_range 0xE0 0xE0 c then Some (3, 0xA0, 0xBF)
      else if in_range 0xED 0xED c then Some (3, 0x80, 0x9F)
      else if in_range 0xE1 0xEF c then Some (3, 0x80, 0xBF)
      else if in_range 0xF0 0xF0 c then Some (4, 0x90, 0xBF)
      else if in_range 0xF1 0xF3 c then Some (4, 0x80, 0xBF)
      else if in_range 0xF4 0xF4 c then Some (4, 0x80, 0x8F)
      else None)"

definition RuneError :: nat where
  "RuneError = 0xFFFD"

text \<open>
  \<open>utf8.DecodeRuneInString\<close> on a non-empty string: the rune and how many bytes it takes. A byte that
  starts no valid sequence is \<open>RuneError\<close> of width 1.
\<close>

definition decode_rune :: "char \<Rightarrow> string \<Rightarrow> nat \<times> nat" where
  "decode_rune c s =
     (if of_char c < (0x80::nat) then (of_char c, 1)
      else case rune_start c of
        None \<Rightarrow> (RuneError, 1)
      | Some (sz, lo, hi) \<Rightarrow>
          if length s + 1 < sz then (RuneError, 1)
          else if \<not> in_range lo hi (s ! 0) then (RuneError, 1)
          else if sz = 2 then (of_char c mod 32 * 64 + of_char (s ! 0) mod 64, 2)
          else if \<not> in_range 0x80 0xBF (s ! 1) then (RuneError, 1)
          else if sz = 3 then
            (of_char c mod 16 * 4096 + of_char (s ! 0) mod 64 * 64 + of_char (s ! 1) mod 64, 3)
          else if \<not> in_range 0x80 0xBF (s ! 2) then (RuneError, 1)
          else (of_char c mod 8 * 262144 + of_char (s ! 0) mod 64 * 4096 +
                of_char (s ! 1) mod 64 * 64 + of_char (s ! 2) mod 64, 4))"

fun runes :: "string \<Rightarrow> nat list" where
  "runes [] = []"
| "runes (c # s) = fst (decode_rune c s) # runes (drop (snd (decode_rune c s) - 1) s)"

section \<open>Names\<close>

text \<open>The class that the regular expression excludes.\<close>

definition name_excluded :: "nat set" where
  "name_excluded = of_char ` set (CHR 0x5C # CHR 0x22 # ''/?%*:|<>.'')"

text \<open>\<open>nameRegEx.MatchString\<close>: one to 64 runes, none of them excluded, from start to end of the text.\<close>

definition nameRegEx_MatchString :: "string \<Rightarrow> bool" where
  "nameRegEx_MatchString s \<longleftrightarrow>
     1 \<le> length (runes s) \<and> length (runes s) \<le> 64 \<and> (\<forall>r \<in> set (runes s). r \<notin> name_excluded)"

lemma rune_width: "1 \<le> snd (decode_rune c s) \<and> snd (decode_rune c s) \<le> 4"
  by (simp add: decode_rune_def split: option.splits prod.splits)

text \<open>The bytes that a multi-byte rune takes after its first are not ASCII.\<close>

lemma rune_tail_not_ascii:
  "d \<in> set (take (snd (decode_rune c s) - 1) s) \<Longrightarrow> 0x80 \<le> (of_char d :: nat)"
proof -
  assume d: "d \<in> set (take (snd (decode_rune c s) - 1) s)"
  then obtain i where i: "i < snd (decode_rune c s) - 1" "i < length s" "d = s ! i"
    by (auto simp: in_set_conv_nth)
  then have "i = 0 \<or> i = 1 \<or> i = 2" using rune_width [of c s] by linarith
  then show ?thesis
    using i by (auto simp: decode_rune_def rune_start_def in_range_def split: if_splits)
qed

lemma ascii_in_runes:
  "d \<in> set s \<Longrightarrow> (of_char d :: nat) < 0x80 \<Longrightarrow> of_char d \<in> set (runes s)"
proof (induction s rule: runes.induct)
  case 1
  then show ?case by simp
next
  case (2 c s)
  let ?w = "snd (decode_rune c s) - 1"
  show ?case
  proof (cases "d = c")
    case True
    with 2 show ?thesis by (simp add: decode_rune_def)
  next
    case False
    with 2 have "d \<in> set (take ?w s) \<union> set (drop ?w s)"
      by (metis Un_iff append_take_drop_id set_ConsD set_append)
    with 2 rune_tail_not_ascii [of d c s] have "d \<in> set (drop ?w s)" by force
    with 2 show ?thesis by simp
  qed
qed

lemma length_runes: "length s \<le> 4 * length (runes s) \<and> length (runes s) \<le> length s"
proof (induction s rule: runes.induct)
  case 1
  then show ?case by simp
next
  case (2 c s)
  then show ?case using rune_width [of c s] by auto
qed

lemma name_regex_bytes:
  assumes "nameRegEx_MatchString s"
  shows "s \<noteq> [] \<and> length s \<le> 256 \<and> (\<forall>d \<in> set s. of_char d \<notin> name_excluded)"
proof -
  have "of_char d \<notin> name_excluded" if "d \<in> set s" for d
  proof
    assume "of_char d \<in> name_excluded"
    then have "(of_char d :: nat) < 0x80" by (auto simp: name_excluded_def)
    with that ascii_in_runes have "of_char d \<in> set (runes s)" by blast
    with assms \<open>of_char d \<in> name_excluded\<close> show False by (auto simp: nameRegEx_MatchString_def)
  qed
  with assms length_runes [of s] show ?thesis by (auto simp: nameRegEx_MatchString_def)
qed

section \<open>Charset and collation\<close>

type_synonym verdict = "string list \<times> error option"

definition combo_verdict :: "combo_result \<Rightarrow> verdict" where
  "combo_verdict r =
     (case r of
        UnknownCharset \<Rightarrow> ([], Some (ValidationError ''Charset not valid for this server''))
      | BadCombination \<Rightarrow>
          ([], Some (ValidationError ''Charset and collation combination not valid for this server''))
      | NotDefault \<Rightarrow> ([''Collation not the default for this charset''], None)
      | DefaultCombination \<Rightarrow> ([], None))"

definition effective_charset :: "Database \<Rightarrow> AdminConnection \<Rightarrow> string" where
  "effective_charset r adm =
     (if ds_CharacterSet (db_Spec r) = [] then acst_CharacterSet (ac_Status adm)
      else ds_CharacterSet (db_Spec r))"

definition effective_collation :: "Database \<Rightarrow> AdminConnection \<Rightarrow> string" where
  "effective_collation r adm =
     (if ds_Collate (db_Spec r) = [] then acst_Collation (ac_Status adm)
      else ds_Collate (db_Spec r))"

definition ValidateCharsetCollationCombo :: "'s env \<Rightarrow> Database \<Rightarrow> ('s world, verdict) go" where
  "ValidateCharsetCollationCombo E r =
     (if acr_Name (ds_AdminConnection (db_Spec r)) = [] then ret ([], None)
      else
        go_bind (ask (k_get_AdminConnection E
          \<lparr>nn_Namespace = admin_namespace (om_Namespace (db_Meta r)) (ds_AdminConnection (db_Spec r)),
           nn_Name = acr_Name (ds_AdminConnection (db_Spec r))\<rparr>)) (\<lambda>res.
        case res of
          Inl err \<Rightarrow> ret ([], Some err)
        | Inr adm \<Rightarrow>
            ret (combo_verdict
              (charset_loop (acst_AvailableCharsets (ac_Status adm))
                 (effective_charset r adm) (effective_collation r adm)))))"

definition ValidateCreate :: "'s env \<Rightarrow> Database \<Rightarrow> ('s world, verdict) go" where
  "ValidateCreate E r =
     (if \<not> nameRegEx_MatchString (ds_Name (db_Spec r))
      then ret ([], Some (ValidationError ''Invalid database name.''))
      else ValidateCharsetCollationCombo E r)"

definition ValidateUpdate :: "'s env \<Rightarrow> Database \<Rightarrow> Database \<Rightarrow> ('s world, verdict) go" where
  "ValidateUpdate E r oldDatabase =
     (if ds_Name (db_Spec r) \<noteq> ds_Name (db_Spec oldDatabase)
      then ret ([], Some (ValidationError ''Name not allowed to be changed''))
      else ValidateCharsetCollationCombo E r)"

definition ValidateDelete :: "'s env \<Rightarrow> Database \<Rightarrow> ('s world, verdict) go" where
  "ValidateDelete E r = ret ([], None)"

lemma Validate_emits [emits_intros, simp]:
  "emits P (ValidateCharsetCollationCombo E r)" "keeps_connections (ValidateCharsetCollationCombo E r)"
  "never_panics (ValidateCharsetCollationCombo E r)"
  unfolding ValidateCharsetCollationCombo_def by (intro emits_intros)+

end
