(* ===== verification/Admin_Correct.thy ===== *)
theory Admin_Correct
  imports Exact_Records Connection_Correct Database_Webhook
begin

text \<open>
  Properties of the \<open>AdminConnection\<close> reconciler and of the data it leaves for the webhook: what a pass writes,
  how its result and the recorded message go together, and that the webhook accepts exactly the pairs of a
  character set and a collation that the server listed.
\<close>

section \<open>Effects\<close>

lemma as_string_emits [emits_intros]: "emits P (as_string v)"
  by (auto simp: as_string_def split: option.splits column_value.splits)

lemma read_collations_emits [emits_intros]: "emits P (read_collations rows)"
  by (induction rows) (auto intro!: emits_intros)

lemma admin_queries_emit [emits_intros]: "emits P (getVariable E n h)" "emits P (getCharSets E h)"
proof -
  have "emits P (case results of [] \<Rightarrow> ret (Inl (not_one_row (length results)))
      | [row] \<Rightarrow> go_bind (as_string (map_of row ''Value'')) (\<lambda>v. ret (Inr v))
      | _ \<Rightarrow> ret (Inl (not_one_row (length results))))" for results
    by (auto intro!: emits_intros split: list.splits)
  then show "emits P (getVariable E n h)"
    unfolding getVariable_def by (intro emits_intros)
  show "emits P (getCharSets E h)"
    unfolding getCharSets_def by (intro emits_intros)
qed

lemma admin_body_emits [emits_intros]: "emits connection_effect (admin_body E adm)"
  unfolding admin_body_def record_server_def record_collation_def record_charsets_def
  by (intro emits_intros)

definition admin_effect :: "effect \<Rightarrow> bool" where
  "admin_effect e \<longleftrightarrow> connection_effect e \<or> (\<exists>a. e = StatusAdminConnection a)"

lemma admin_Reconcile_emits: "emits admin_effect (admin_Reconcile E req)"
  unfolding admin_Reconcile_def
  by (intro emits_intros emits_mono [OF admin_body_emits]) (auto simp: admin_effect_def)

section \<open>What a pass records\<close>

text \<open>The body changes the status only, and its message agrees with its outcome.\<close>

definition failure_messages :: "string set" where
  "failure_messages = {''Failed to connect or ping database'',
     ''Failed to retrieve default server character set'',
     ''Failed to retrieve default server collation'',
     ''Failed to retrieve available character sets''}"

definition agrees :: "AdminConnection \<Rightarrow> admin_outcome \<Rightarrow> bool" where
  "agrees adm = (\<lambda>(adm', outcome).
     ac_Meta adm' = ac_Meta adm \<and> ac_Spec adm' = ac_Spec adm \<and>
     acst_SyncTime (ac_Status adm') = acst_SyncTime (ac_Status adm) \<and>
     (case outcome of
        Inl p \<Rightarrow> acst_Message (ac_Status adm') = acst_Message (ac_Status adm)
      | Inr None \<Rightarrow> acst_Message (ac_Status adm') = ''Successfully pinged database'' \<and>
          acst_ControlDatabase (ac_Status adm') = DatabaseName
      | Inr (Some e) \<Rightarrow> acst_Message (ac_Status adm') \<in> failure_messages))"

lemma yields_attempt: "(\<And>x. yields R (f x)) \<Longrightarrow> yields R (go_bind (attempt m) f)"
  by (rule yields_after)

lemma yields_sum_case:
  "(\<And>p. r = Inl p \<Longrightarrow> yields R (f p)) \<Longrightarrow> (\<And>e. r = Inr (Inl e) \<Longrightarrow> yields R (g e)) \<Longrightarrow>
   (\<And>v. r = Inr (Inr v) \<Longrightarrow> yields R (k v)) \<Longrightarrow>
   yields R (case r of Inl p \<Rightarrow> f p | Inr (Inl e) \<Rightarrow> g e | Inr (Inr v) \<Rightarrow> k v)"
  by (auto split: sum.splits)

lemma record_charsets_agrees: "yields (agrees adm) (record_charsets E db adm)"
  unfolding record_charsets_def
  by (intro yields_attempt yields_sum_case yields_ret)
     (auto simp: agrees_def set_admin_status_def failure_messages_def)

lemma agrees_status:
  "(\<And>st. acst_Message (f st) = acst_Message st \<and> acst_SyncTime (f st) = acst_SyncTime st) \<Longrightarrow>
     agrees (set_admin_status f adm) = agrees adm"
  by (simp add: agrees_def set_admin_status_def cong: sum.case_cong option.case_cong)

lemma record_collation_agrees: "yields (agrees adm) (record_collation E db adm)"
proof -
  have "yields (agrees adm) (record_charsets E db (set_admin_status (\<lambda>st. st\<lparr>acst_Collation := v\<rparr>) adm))" for v
    using record_charsets_agrees [of "set_admin_status (\<lambda>st. st\<lparr>acst_Collation := v\<rparr>) adm" E db]
    by (simp add: agrees_status)
  then show ?thesis
    unfolding record_collation_def
    by (intro yields_attempt yields_sum_case yields_ret)
       (auto simp: agrees_def set_admin_status_def failure_messages_def)
qed

lemma record_server_agrees: "yields (agrees adm) (record_server E db adm)"
proof -
  have "yields (agrees adm) (record_collation E db (set_admin_status (\<lambda>st. st\<lparr>acst_CharacterSet := v\<rparr>) adm))" for v
    using record_collation_agrees [of "set_admin_status (\<lambda>st. st\<lparr>acst_CharacterSet := v\<rparr>) adm" E db]
    by (simp add: agrees_status)
  then show ?thesis
    unfolding record_server_def
    by (intro yields_attempt yields_sum_case yields_ret)
       (auto simp: agrees_def set_admin_status_def failure_messages_def)
qed

lemma admin_body_agrees: "yields (agrees adm) (admin_body E adm)"
proof -
  have "yields (agrees adm) (case r of
       Inl err \<Rightarrow>
         ret (set_admin_status (\<lambda>st. st\<lparr>acst_Message := ''Failed to connect or ping database''\<rparr>) adm,
              Inr (Some err))
     | Inr db \<Rightarrow> record_server E db adm)" for r :: "error + gormdb"
  proof (cases r)
    case (Inl e)
    then show ?thesis
      by simp (rule yields_ret, simp add: agrees_def set_admin_status_def failure_messages_def)
  qed (simp add: record_server_agrees)
  then show ?thesis
    unfolding admin_body_def by (rule yields_after)
qed

lemma admin_body_returns: "never_panics (admin_body E adm)"
proof -
  have "never_panics (record_charsets E db a)" for db a
    unfolding record_charsets_def by (intro emits_intros)
  then have "never_panics (record_collation E db a)" for db a
    unfolding record_collation_def by (intro emits_intros)
  then have "never_panics (record_server E db a)" for db a
    unfolding record_server_def by (intro emits_intros)
  then show ?thesis
    unfolding admin_body_def by (intro emits_intros)
qed

text \<open>
  C23: a pass over an \<open>AdminConnection\<close> that is found always ends with exactly one status update, also when it
  fails and when it panics on an unexpected column. The update keeps metadata and specification and carries
  the time of the pass; before it there are only the requests that connecting needs. If the pass returns nil the recorded message is
  \<open>Successfully pinged database\<close>, if it returns an error it is one of the four failure messages, and only
  a panic leaves the old message in place.
\<close>

theorem admin_Reconcile_records:
  assumes "k_get_AdminConnection E req (ext w) = (Inr adm, s)" and "now E s = (t, s')"
  shows "\<exists>es adm'. effects (final_world (admin_Reconcile E req w)) = effects w @ es @ [StatusAdminConnection adm'] \<and>
     list_all connection_effect es \<and>
     ac_Meta adm' = ac_Meta adm \<and> ac_Spec adm' = ac_Spec adm \<and> acst_SyncTime (ac_Status adm') = Some t \<and>
     (case returned (admin_Reconcile E req w) of
        None \<Rightarrow> acst_Message (ac_Status adm') = acst_Message (ac_Status adm)
      | Some None \<Rightarrow> acst_Message (ac_Status adm') = ''Successfully pinged database''
      | Some (Some e) \<Rightarrow> acst_Message (ac_Status adm') \<in> failure_messages)"
proof -
  let ?a = "set_admin_status (\<lambda>st. st\<lparr>acst_SyncTime := Some t\<rparr>) adm" and ?w = "w\<lparr>ext := s'\<rparr>"
  obtain x w' where run: "admin_body E ?a ?w = Ret x w'"
    using never_panics_Ret [OF admin_body_returns] by blast
  obtain a outcome where x: "x = (a, outcome)" by fastforce
  have ag: "agrees ?a (a, outcome)"
    using yields_Ret [OF admin_body_agrees run] x by simp
  obtain es where es: "effects w' = effects w @ es" "list_all connection_effect es"
    using emitsD [OF admin_body_emits, of E ?a ?w] run by auto
  have "admin_Reconcile E req w = resume outcome (w'\<lparr>ext := snd (k_status_AdminConnection E a (ext w')),
      effects := effects w' @ [StatusAdminConnection a]\<rparr>)"
    using assms run x
    by (simp add: admin_Reconcile_def bind_ask) (simp add: go_bind_def perform_def split_beta)
  with ag es show ?thesis
    by (intro exI [of _ es] exI [of _ a])
       (auto simp: agrees_def set_admin_status_def resume_def split: sum.splits option.splits)
qed

lemma admin_Reconcile_records_witness:
  "\<exists>es adm'. effects (final_world (admin_Reconcile sample_env \<lparr>nn_Namespace = ''ops'', nn_Name = ''db1''\<rparr>
       (world_of sample_cluster))) = es @ [StatusAdminConnection adm'] \<and>
     acst_SyncTime (ac_Status adm') = Some 7"
  using admin_Reconcile_records [of sample_env _ "world_of sample_cluster" sample_admin sample_cluster 7 sample_cluster]
    sample_lookup
  by (fastforce simp: world_of_def)

end
