(* ===== verification/Interference.thy ===== *)
theory Interference
  imports Exact_Records
begin

text \<open>
  An outside in which others act between the requests of a pass. \<open>interrupted turn E\<close> is \<open>E\<close> with a step \<open>turn\<close> of everyone
  else before each request: another reconciler of the same process, an administrator, an application. What they do may depend on
  anything in the outside state (a schedule of their own included). It is a case of \<open>seen_through\<close>, which runs the requests on
  what \<open>pre\<close> shows of a larger state and puts the result back with \<open>post\<close>.
\<close>

definition through :: "('t \<Rightarrow> 's) \<Rightarrow> ('t \<Rightarrow> 's \<Rightarrow> 't) \<Rightarrow> ('s \<Rightarrow> 'r \<times> 's) \<Rightarrow> 't \<Rightarrow> 'r \<times> 't" where
  "through pre post f t = (let (r, s) = f (pre t) in (r, post t s))"

definition seen_through :: "('t \<Rightarrow> 's) \<Rightarrow> ('t \<Rightarrow> 's \<Rightarrow> 't) \<Rightarrow> 's env \<Rightarrow> 't env" where
  "seen_through pre post E =
     \<lparr>k_get_AdminConnection = (\<lambda>a. through pre post (k_get_AdminConnection E a)),
      k_get_Database = (\<lambda>a. through pre post (k_get_Database E a)),
      k_get_DatabaseUser = (\<lambda>a. through pre post (k_get_DatabaseUser E a)),
      k_get_Secret = (\<lambda>a. through pre post (k_get_Secret E a)),
      k_list_Databases = (\<lambda>a. through pre post (k_list_Databases E a)),
      k_list_DatabaseUsers = (\<lambda>a. through pre post (k_list_DatabaseUsers E a)),
      k_update_Database = (\<lambda>a. through pre post (k_update_Database E a)),
      k_update_DatabaseUser = (\<lambda>a. through pre post (k_update_DatabaseUser E a)),
      k_update_Secret = (\<lambda>a. through pre post (k_update_Secret E a)),
      k_status_AdminConnection = (\<lambda>a. through pre post (k_status_AdminConnection E a)),
      k_status_Database = (\<lambda>a. through pre post (k_status_Database E a)),
      k_status_DatabaseUser = (\<lambda>a. through pre post (k_status_DatabaseUser E a)),
      k_create_Secret = (\<lambda>a. through pre post (k_create_Secret E a)),
      is_not_found = is_not_found E,
      contains_finalizer = contains_finalizer E,
      add_finalizer = add_finalizer E,
      remove_finalizer = remove_finalizer E,
      set_controller_reference = set_controller_reference E,
      format_dsn = format_dsn E,
      sql_open = (\<lambda>a. through pre post (sql_open E a)),
      sql_ping = (\<lambda>a. through pre post (sql_ping E a)),
      sql_close = (\<lambda>a. through pre post (sql_close E a)),
      gorm_open = (\<lambda>a. through pre post (gorm_open E a)),
      gorm_sql = (\<lambda>a. through pre post (gorm_sql E a)),
      gorm_automigrate = (\<lambda>a. through pre post (gorm_automigrate E a)),
      gorm_exec = (\<lambda>a b. through pre post (gorm_exec E a b)),
      gorm_raw_scan = (\<lambda>a b. through pre post (gorm_raw_scan E a b)),
      gorm_first_schema = (\<lambda>a b. through pre post (gorm_first_schema E a b)),
      gorm_first_user = (\<lambda>a b. through pre post (gorm_first_user E a b)),
      gorm_find_ManagedDatabase = (\<lambda>a b c. through pre post (gorm_find_ManagedDatabase E a b c)),
      gorm_find_ManagedUser = (\<lambda>a b c. through pre post (gorm_find_ManagedUser E a b c)),
      gorm_create_ManagedDatabase = (\<lambda>a b. through pre post (gorm_create_ManagedDatabase E a b)),
      gorm_save_ManagedUser = (\<lambda>a b. through pre post (gorm_save_ManagedUser E a b)),
      gorm_delete_ManagedDatabase = (\<lambda>a b. through pre post (gorm_delete_ManagedDatabase E a b)),
      gorm_delete_ManagedUser = (\<lambda>a b. through pre post (gorm_delete_ManagedUser E a b)),
      gorm_commit = (\<lambda>a. through pre post (gorm_commit E a)),
      now = through pre post (now E),
      rand_int = (\<lambda>a. through pre post (rand_int E a)),
      map_order = (\<lambda>a. through pre post (map_order E a)),
      unicode_to_upper = unicode_to_upper E\<rparr>"

definition interrupted :: "('s \<Rightarrow> 's) \<Rightarrow> 's env \<Rightarrow> 's env" where
  "interrupted turn = seen_through turn (\<lambda>_ s. s)"

lemma through_fst [simp]: "fst (through pre post f t) = fst (f (pre t))"
  and through_snd [simp]: "snd (through pre post f t) = post t (snd (f (pre t)))"
  by (simp_all add: through_def split_beta)

lemma through_same [simp]: "through (\<lambda>s. s) (\<lambda>_ s. s) f = f"
  by (simp add: through_def fun_eq_iff)

text \<open>Without anybody else it is the outside as before.\<close>

lemma interrupted_never: "interrupted (\<lambda>s. s) E = E"
  by (simp add: interrupted_def seen_through_def)

lemma after_through: "after (seen_through pre post E) e t = post t (after E e (pre t))"
  by (cases e) (simp_all add: seen_through_def)

lemma reading_through:
  "reading (seen_through pre post E) t t' \<Longrightarrow> \<exists>s. reading E (pre t) s \<and> t' = post t s"
  by (erule reading_cases) (simp_all add: seen_through_def, (blast intro: reading.intros)+)

lemma stable_through:
  assumes "stable E P I" and "\<And>t. J t \<Longrightarrow> I (pre t)" and "\<And>t s. J t \<Longrightarrow> I s \<Longrightarrow> J (post t s)"
  shows "stable (seen_through pre post E) P J"
  using assms reading_through [of pre post E] unfolding stable_def after_through by metis

lemma effects_through:
  "database_effect (seen_through pre post E) = database_effect E"
  "user_effect (seen_through pre post E) inst e \<Longrightarrow> user_effect E inst e"
proof -
  have fin: "database_has_finalizer (seen_through pre post E) = database_has_finalizer E"
    "user_has_finalizer (seen_through pre post E) = user_has_finalizer E"
    by (simp_all add: fun_eq_iff database_has_finalizer_def user_has_finalizer_def seen_through_def)
  then have ready: "database_ready (seen_through pre post E) = database_ready E"
    "user_ready (seen_through pre post E) = user_ready E"
    by (simp_all add: fun_eq_iff database_ready_def user_ready_def)
  have "join_grants (seen_through pre post E) i gs q = join_grants E i gs q" for i gs q
    by (induction gs arbitrary: i q) (simp_all add: ToUpper_def seen_through_def)
  then have statement: "account_statement (seen_through pre post E) = account_statement E"
    by (simp add: fun_eq_iff account_statement_def grant_stmt_def)
  have rest: "set_controller_reference (seen_through pre post E) = set_controller_reference E"
    "add_finalizer (seen_through pre post E) = add_finalizer E" "user_release (seen_through pre post E) = user_release E"
    by (simp_all add: seen_through_def user_release_def fun_eq_iff)
  have secret: "own_secret (seen_through pre post E) i x \<Longrightarrow> own_secret E i x" for i x
    by (auto simp: own_secret_def seen_through_def)
  show "database_effect (seen_through pre post E) = database_effect E"
    by (intro ext) (simp add: database_effect_def fin ready split: effect.split)
  show "user_effect (seen_through pre post E) inst e \<Longrightarrow> user_effect E inst e"
    using secret by (cases e) (auto simp: user_effect_def fin ready statement rest)
qed

lemma user_stable_through: "stable (seen_through pre post E) (user_effect E inst) I \<Longrightarrow>
    stable (seen_through pre post E) (user_effect (seen_through pre post E) inst) I"
  by (erule stable_weaken) (rule effects_through(2))

end
