(* ===== verification/Foreign_Schemata.thy ===== *)
theory Foreign_Schemata
  imports Server Interference
begin

text \<open>
  A schema that the operator did not make, that is, one that exists and that no managed row names, is
  out of reach of all three reconcilers: \<open>foreign\<close> is an invariant of every pass.
\<close>

definition foreign ::
  "'s schemata \<Rightarrow> 's database_rows \<Rightarrow> string \<Rightarrow> DatabaseSchema \<Rightarrow> 's \<Rightarrow> bool" where
  "foreign schemas rows n r s \<longleftrightarrow>
     schemas s n = Some r \<and> (\<forall>u x. rows s u = Some x \<longrightarrow> md_DatabaseName x \<noteq> n)"

lemma foreign_cong:
  "schemas s' n = schemas s n \<Longrightarrow> rows s' = rows s \<Longrightarrow>
     foreign schemas rows n r s' = foreign schemas rows n r s"
  by (simp add: foreign_def)

lemma foreign_row:
  "foreign schemas rows n r s \<Longrightarrow> schemas s' = schemas s \<Longrightarrow> rows s' = (rows s)(u \<mapsto> x) \<Longrightarrow>
     md_DatabaseName x \<noteq> n \<Longrightarrow> foreign schemas rows n r s'"
  by (simp add: foreign_def)

lemma foreign_forget:
  "foreign schemas rows n r s \<Longrightarrow> schemas s' = schemas s \<Longrightarrow> rows s' = (rows s)(u := None) \<Longrightarrow>
     foreign schemas rows n r s'"
  by (simp add: foreign_def)

text \<open>A computation whose result and state are known, as far as \<open>Q\<close> and \<open>I\<close> go.\<close>

lemma maintains_bind_known:
  assumes "\<And>w. I (ext w) \<Longrightarrow> \<exists>x w'. m w = Ret x w' \<and> Q x \<and> I (ext w')"
    and "\<And>x. Q x \<Longrightarrow> maintains I (f x)"
  shows "maintains I (go_bind m f)"
  unfolding maintains_def
proof (intro allI impI)
  fix w :: "'a world"
  assume "I (ext w)"
  then obtain x w' where m: "m w = Ret x w'" "Q x" "I (ext w')"
    using assms(1) by blast
  then have "I (ext (final_world (f x w')))"
    using maintainsD [OF assms(2) [OF m(2)] m(3)] by simp
  with m show "I (ext (final_world (go_bind m f w)))" by (simp add: go_bind_def)
qed

section \<open>Statements about other things\<close>

lemma not_changes_schemata [simp]:
  "\<not> changes_schemata (SaveManagedUser h mu)" "\<not> changes_schemata (DeleteManagedUser h u)"
  "\<not> changes_schemata (Commit h)" "\<not> changes_schemata (AutoMigrate h)"
  "\<not> changes_schemata (OpenConnection d)" "\<not> changes_schemata (CloseConnection c)"
  "\<not> changes_schemata (UpdateDatabase x)" "\<not> changes_schemata (UpdateDatabaseUser y)"
  "\<not> changes_schemata (UpdateSecret z)" "\<not> changes_schemata (CreateSecret z)"
  "\<not> changes_schemata (StatusAdminConnection a)" "\<not> changes_schemata (StatusDatabase x)"
  "\<not> changes_schemata (StatusDatabaseUser y)"
  by (simp_all add: changes_schemata_def)

lemma join_grants_intro: "\<exists>rest. join_grants E i gs q = q @ rest"
proof (induction gs arbitrary: i q)
  case Nil
  then show ?case by simp
next
  case (Cons g gs)
  show ?case
    using Cons.IH [of "Suc i" "(if i > 0 then q @ '', '' else q) @ ToUpper E g"] by auto
qed

lemma grant_stmt_intro: "\<exists>rest. grant_stmt E inst p sch = ''GRANT '' @ rest"
  using join_grants_intro [of E 0 "elems (dp_Grants p)" "''GRANT ''"] by (auto simp: grant_stmt_def)

lemma account_texts_schemata:
  "\<not> changes_schemata (Exec h (create_user_stmt inst d))"
  "\<not> changes_schemata (Exec h (alter_user_stmt inst d))"
  "\<not> changes_schemata (Exec h (rename_user_stmt inst))"
  "\<not> changes_schemata (Exec h (revoke_stmt inst))"
  "\<not> changes_schemata (Exec h (drop_user_stmt inst))"
  "\<not> changes_schemata (Exec h (''GRANT '' @ rest))"
  by (simp_all add: changes_schemata_def create_user_stmt_def alter_user_stmt_def
      rename_user_stmt_def revoke_stmt_def drop_user_stmt_def)

lemma account_statement_schemata:
  assumes "account_statement E inst q"
  shows "\<not> changes_schemata (Exec h q)"
proof -
  have "\<not> changes_schemata (Exec h (grant_stmt E inst p sch))" for p sch
  proof -
    obtain rest where eq: "grant_stmt E inst p sch = ''GRANT '' @ rest"
      using grant_stmt_intro by blast
    show ?thesis unfolding eq by (rule account_texts_schemata(6))
  qed
  then show ?thesis
    using assms unfolding account_statement_def
    by (elim disjE exE conjE) (simp_all only: account_texts_schemata not_False_eq_True)
qed

lemma user_effect_schemata:
  assumes "user_effect E inst e"
  shows "\<not> changes_schemata e"
proof (cases e)
  case (Exec h q)
  then have "account_statement E inst q \<or> q = drop_user_stmt inst"
    using assms by (auto simp: user_effect_def)
  then show ?thesis
    unfolding Exec using account_statement_schemata account_texts_schemata(5) by metis
qed (use assms in \<open>simp_all add: user_effect_def\<close>)

section \<open>Stability\<close>

lemma foreign_reading:
  "schemata_server E schemas rows \<Longrightarrow> reading E s s' \<Longrightarrow> foreign schemas rows n r s \<Longrightarrow>
     foreign schemas rows n r s'"
  by (drule (1) server_reading) (simp add: foreign_def)

lemma foreign_after:
  "schemata_server E schemas rows \<Longrightarrow> \<not> changes_schemata e \<Longrightarrow> foreign schemas rows n r s \<Longrightarrow>
     foreign schemas rows n r (after E e s)"
  by (drule (1) server_frame [of _ _ _ _ s]) (simp add: foreign_def)

lemma foreign_stable_frame:
  assumes "schemata_server E schemas rows" and "\<And>e. P e \<Longrightarrow> \<not> changes_schemata e"
  shows "stable E P (foreign schemas rows n r)"
  unfolding stable_def using foreign_reading [OF assms(1)] foreign_after [OF assms(1) assms(2)] by blast

lemma foreign_stable_user:
  "schemata_server E schemas rows \<Longrightarrow> stable E (user_effect E inst) (foreign schemas rows n r)"
  by (erule foreign_stable_frame) (rule user_effect_schemata)

lemma foreign_stable_connection:
  assumes srv: "schemata_server E schemas rows" and n: "n \<noteq> DatabaseName"
  shows "stable E connection_effect (foreign schemas rows n r)"
proof -
  have "foreign schemas rows n r (after E e s) = foreign schemas rows n r s"
    if "connection_effect e" for e s
  proof (cases "\<exists>h. e = Exec h (''CREATE DATABASE IF NOT EXISTS '' @ DatabaseName)")
    case True
    then obtain h where "e = Exec h (''CREATE DATABASE IF NOT EXISTS '' @ DatabaseName)" ..
    with server_control [OF srv refl, of h s] n show ?thesis
      by (intro foreign_cong) simp_all
  next
    case False
    with that have "\<not> changes_schemata e"
      by (cases e) (auto simp: connection_effect_def changes_schemata_def DatabaseName_def)
    from server_frame [OF srv this, of s] show ?thesis by (intro foreign_cong) simp_all
  qed
  then show ?thesis
    unfolding stable_def using foreign_reading [OF srv] by blast
qed

lemma foreign_stable_admin:
  "schemata_server E schemas rows \<Longrightarrow>
     stable E (\<lambda>e. \<exists>a. e = StatusAdminConnection a) (foreign schemas rows n r)"
  by (erule foreign_stable_frame) auto

lemma foreign_stable_update:
  "schemata_server E schemas rows \<Longrightarrow>
     stable E (\<lambda>e. \<exists>x. e = UpdateDatabase x \<or> e = StatusDatabase x) (foreign schemas rows n r)"
  by (erule foreign_stable_frame) auto

text \<open>A pass over an object for another schema.\<close>

lemma foreign_stable_other:
  assumes srv: "schemata_server E schemas rows" and plain: "plain_spec (db_Spec inst)"
    and other: "ds_Name (db_Spec inst) \<noteq> n"
  shows "stable E (database_effect E inst) (foreign schemas rows n r)"
proof -
  have name: "plain_name (ds_Name (db_Spec inst))"
    using plain by (simp add: plain_spec_def)
  have "foreign schemas rows n r (after E e s)"
    if e: "database_effect E inst e" and I: "foreign schemas rows n r s"
      and c: "changes_schemata e" for e s
  proof (cases e)
    case (Exec h q)
    then consider "q = create_database_stmt (db_Spec inst)"
      | i where "same_database inst i" "q = alter_database_stmt i"
      | "q = drop_database_stmt (ds_Name (db_Spec inst))"
      using e by (auto simp: database_effect_def)
    then show ?thesis
    proof cases
      case 1
      then show ?thesis
        using server_create [OF srv plain prod.collapse [symmetric], of h s] other I Exec
        by (auto simp: foreign_def)
    next
      case 2
      then show ?thesis
        using server_alter [OF srv _ refl, of i h s] plain other I Exec
        by (auto simp: foreign_def same_database_def)
    next
      case 3
      then show ?thesis
        using server_drop [OF srv name refl, of h s] other I Exec by (auto simp: foreign_def)
    qed
  next
    case (CreateManagedDatabase h row)
    then have "md_DatabaseName row \<noteq> n"
      using e other by (simp add: database_effect_def managed_database_def)
    then have "foreign schemas rows n r (snd (gorm_create_ManagedDatabase E h row s))"
      using server_rows(1) [OF srv refl, of h row s] I foreign_row foreign_cong by metis
    with CreateManagedDatabase show ?thesis by simp
  next
    case (DeleteManagedDatabase h u)
    have "foreign schemas rows n r (snd (gorm_delete_ManagedDatabase E h u s))"
      using server_rows(2) [OF srv refl, of h u s] I foreign_forget foreign_cong by metis
    with DeleteManagedDatabase show ?thesis by simp
  qed (use c in \<open>simp_all add: changes_schemata_def\<close>)
  then show ?thesis
    unfolding stable_def using foreign_reading [OF srv] foreign_after [OF srv] by blast
qed

section \<open>Out of reach\<close>

text \<open>
  What the passes need: every request that a pass may make whatever it finds keeps \<open>I\<close>, and while \<open>I\<close> holds the lookups
  find the schema but no row for it. Nothing is said of what else changes between two requests.
\<close>

definition schema_out_of_reach :: "'s env \<Rightarrow> string \<Rightarrow> ('s \<Rightarrow> bool) \<Rightarrow> bool" where
  "schema_out_of_reach E n I \<longleftrightarrow>
     stable E connection_effect I \<and> stable E (\<lambda>e. \<exists>a. e = StatusAdminConnection a) I \<and>
     stable E (\<lambda>e. \<exists>x. e = UpdateDatabase x \<or> e = StatusDatabase x) I \<and>
     (\<forall>inst. stable E (user_effect E inst) I) \<and>
     (\<forall>inst. plain_spec (db_Spec inst) \<longrightarrow> ds_Name (db_Spec inst) \<noteq> n \<longrightarrow> stable E (database_effect E inst) I) \<and>
     (\<forall>h s. I s \<longrightarrow> sch_SchemaName (fst (gorm_first_schema E h n s)) \<noteq> []) \<and>
     (\<forall>h u s. I s \<longrightarrow> md_DatabaseName (fst (gorm_find_ManagedDatabase E h zero_ManagedDatabase u s)) \<noteq> n)"

lemma out_of_reachD:
  assumes "schema_out_of_reach E n I"
  shows "stable E connection_effect I" and "stable E (\<lambda>e. \<exists>a. e = StatusAdminConnection a) I"
    and "stable E (\<lambda>e. \<exists>x. e = UpdateDatabase x \<or> e = StatusDatabase x) I"
    and "stable E (user_effect E u) I"
    and "plain_spec (db_Spec inst) \<Longrightarrow> ds_Name (db_Spec inst) \<noteq> n \<Longrightarrow> stable E (database_effect E inst) I"
    and "I s \<Longrightarrow> sch_SchemaName (fst (gorm_first_schema E h n s)) \<noteq> []"
    and "I s \<Longrightarrow> md_DatabaseName (fst (gorm_find_ManagedDatabase E h zero_ManagedDatabase uid s)) \<noteq> n"
    and "reading E s s' \<Longrightarrow> I s \<Longrightarrow> I s'"
  using assms by (simp_all add: schema_out_of_reach_def stable_def)

text \<open>A schema that is foreign on a MySQL server is out of reach,\<close>

lemma foreign_out_of_reach:
  assumes srv: "schemata_server E schemas rows" and n: "n \<noteq> []" "n \<noteq> DatabaseName"
  shows "schema_out_of_reach E n (foreign schemas rows n r)"
proof -
  have "sch_SchemaName (fst (gorm_first_schema E h n s)) \<noteq> []" if "foreign schemas rows n r s" for h s
    using that server_tables [OF srv, of h] by (auto simp: foreign_def schema_tables_ok_def)
  moreover have "md_DatabaseName (fst (gorm_find_ManagedDatabase E h zero_ManagedDatabase u s)) \<noteq> n"
    if "foreign schemas rows n r s" for h u s
    using that n(1) server_tables [OF srv, of h]
    by (auto simp: foreign_def schema_tables_ok_def zero_ManagedDatabase_def split: option.splits)
  ultimately show ?thesis
    unfolding schema_out_of_reach_def
    using foreign_stable_connection [OF srv n(2)] foreign_stable_admin [OF srv] foreign_stable_update [OF srv]
      foreign_stable_user [OF srv] foreign_stable_other [OF srv] by blast
qed

text \<open>and stays so when others act between the requests and leave it alone.\<close>

lemma out_of_reach_through:
  assumes "schema_out_of_reach E n I" and "\<And>t. J t \<Longrightarrow> I (pre t)" and "\<And>t s. J t \<Longrightarrow> I s \<Longrightarrow> J (post t s)"
  shows "schema_out_of_reach (seen_through pre post E) n J"
proof -
  note D = out_of_reachD [OF assms(1)]
  have st: "stable (seen_through pre post E) P J" if "stable E P I" for P
    by (rule stable_through [OF that]) (fact assms)+
  have "sch_SchemaName (fst (gorm_first_schema (seen_through pre post E) h n s)) \<noteq> []"
    "md_DatabaseName (fst (gorm_find_ManagedDatabase (seen_through pre post E) h zero_ManagedDatabase u s)) \<noteq> n"
    if "J s" for h u s
    using D(6,7) assms(2) [OF that] by (simp_all add: seen_through_def)
  then show ?thesis
    unfolding schema_out_of_reach_def effects_through(1) using st D(1-5) user_stable_through by blast
qed

lemma out_of_reach_interrupted:
  "schema_out_of_reach E n I \<Longrightarrow> (\<And>s. I s \<Longrightarrow> I (turn s)) \<Longrightarrow> schema_out_of_reach (interrupted turn E) n I"
  unfolding interrupted_def by (erule out_of_reach_through) auto

section \<open>A pass over an object that names the schema\<close>

lemma mine_kept:
  assumes reach: "schema_out_of_reach E n I" and "I (ext w)" and "ds_Name (db_Spec inst) = n"
  shows "\<exists>w'. DatabaseMine E h inst w = Ret False w' \<and> I (ext w')"
proof -
  let ?s = "snd (gorm_first_schema E h n (ext w))"
  have "I ?s" by (rule out_of_reachD(8) [OF reach reading.first_schema assms(2)])
  moreover from this have "I (snd (gorm_find_ManagedDatabase E h zero_ManagedDatabase (om_UID (db_Meta inst)) ?s))"
    by (rule out_of_reachD(8) [OF reach reading.find_database])
  ultimately show ?thesis
    using out_of_reachD(6) [OF reach assms(2), of h] out_of_reachD(7) [OF reach, of ?s h "om_UID (db_Meta inst)"] assms(3)
    by (simp add: DatabaseMine_def DatabaseExists_def go_bind_assoc bind_ask database_row_matches_def)
qed

lemma exists_kept:
  assumes reach: "schema_out_of_reach E n I" and "I (ext w)" and "ds_Name (db_Spec inst) = n"
  shows "\<exists>i w'. databaseExists E h inst w = Ret (i, True, None) w' \<and> same_database inst i \<and> I (ext w')"
  using out_of_reachD(6) [OF reach assms(2), of h] out_of_reachD(8) [OF reach reading.first_schema assms(2), of h n] assms(3)
  by (simp add: databaseExists_def DatabaseExists_def go_bind_assoc bind_ask Let_def)

lemma database_pass_out_of_reach:
  assumes reach: "schema_out_of_reach E n I" and name: "ds_Name (db_Spec inst) = n"
  shows "maintains I (database_pass E inst adm d err)"
proof -
  let ?I = I
  note tables = out_of_reachD(3) [OF reach]
  have quiet: "maintains ?I m"
    if "emits (\<lambda>e. \<exists>x. e = UpdateDatabase x \<or> e = StatusDatabase x) m" "conducts E m" for m :: "('a world, 'b) go"
    by (rule conducts_maintains [OF that(2,1) tables])
  have mine: "\<exists>b w'. DatabaseMine E h i w = Ret b w' \<and> \<not> b \<and> ?I (ext w')"
    if "same_database inst i" "?I (ext w)" for h i and w :: "'a world"
    using mine_kept [OF reach that(2), of i h] that(1) name by (auto simp: same_database_def)
  have known: "\<exists>x w'. databaseExists E h inst w = Ret x w' \<and>
      (\<exists>i. x = (i, True, None) \<and> same_database inst i) \<and> ?I (ext w')"
    if "?I (ext w)" for h and w :: "'a world"
    using exists_kept [OF reach that name, of h] by auto
  have update: "maintains ?I (update_released_database E inst)"
    unfolding update_released_database_def
    by (intro quiet emits_intros conducts_intros) simp
  have owner: "maintains ?I (database_deletion E (Some a) (Some h) inst)"
    if "database_has_finalizer E inst" for a h
    unfolding database_end.flow_owner [OF that]
    by (rule maintains_bind_known [OF mine]) (auto intro: update)
  have deletion: "maintains ?I (database_deletion E adm d inst)"
    using owner
    by (cases "database_has_finalizer E inst"; cases adm; cases d)
       (auto simp: database_end.flow_skip database_end.flow_no_db database_end.flow_no_admin
          intro: update emits_intros)
  have status: "maintains ?I (perform (StatusDatabase i) (k_status_Database E i))" for i
    by (intro quiet emits_intros conducts_intros) simp
  have align: "maintains ?I (database_align E h i True)" if "same_database inst i" for h i
    unfolding database_align_def
    by (auto intro!: emits_intros maintains_bind_known [OF mine [OF that]])
  have clock: "maintains ?I (ask (now E))"
    by (intro quiet emits_intros conducts_intros)
  have sync: "maintains ?I (database_sync E a h inst)" for a h
    unfolding database_sync_def
    by (rule maintains_bind_known [OF known])
       (auto intro!: emits_intros align status clock)
  have unreachable: "maintains ?I (database_unreachable E inst err)"
    unfolding database_unreachable_def Let_def by (auto intro!: emits_intros status)
  have finalizer: "maintains ?I (database_add_finalizer E inst)"
    unfolding database_add_finalizer_def Let_def
    by (intro quiet emits_intros conducts_intros) simp
  show ?thesis
    unfolding database_pass_def
    by (auto intro!: emits_intros deletion sync unreachable finalizer)
qed

text \<open>Put together: one pass of each of two reconcilers.\<close>

lemma database_Reconcile_out_of_reach:
  assumes reach: "schema_out_of_reach E n I" and I: "I (ext w)"
    and plain: "\<And>inst. fst (k_get_Database E req (ext w)) = Inr inst \<Longrightarrow> plain_spec (db_Spec inst)"
  shows "I (ext (final_world (database_Reconcile E req w)))"
proof -
  have pass: "maintains I (database_pass E inst adm d err)" if "plain_spec (db_Spec inst)" for inst adm d err
    using database_pass_out_of_reach [OF reach] database_pass_maintains [OF out_of_reachD(5) [OF reach that]]
    by (cases "ds_Name (db_Spec inst) = n") auto
  have resolve: "maintains I (resolve_admin E ns ref)" for ns ref
    by (rule resolve_admin_maintains [OF out_of_reachD(1) [OF reach]])
  obtain x s where g: "k_get_Database E req (ext w) = (x, s)" by fastforce
  have s: "I s" using out_of_reachD(8) [OF reach reading.get_Database I, of req] g by simp
  show ?thesis
  proof (cases x)
    case (Inl e)
    then show ?thesis using g s by (simp add: database_Reconcile_def bind_ask)
  next
    case (Inr inst)
    then have "maintains I (go_bind (resolve_admin E (om_Namespace (db_Meta inst))
        (ds_AdminConnection (db_Spec inst))) (\<lambda>(a, d, err). database_pass E inst a d err))"
      using plain g by (intro emits_intros resolve pass) simp
    then show ?thesis
      using g s Inr maintainsD [where w = "w\<lparr>ext := s\<rparr>"]
      by (simp add: database_Reconcile_def bind_ask)
  qed
qed

lemma user_Reconcile_out_of_reach:
  assumes reach: "schema_out_of_reach E n I"
  shows "maintains I (user_Reconcile E req)"
  unfolding user_Reconcile_def
  by (intro emits_intros maintains_ask user_pass_maintains [OF out_of_reachD(4) [OF reach]]
      resolve_admin_maintains [OF out_of_reachD(1) [OF reach]] out_of_reachD(8) [OF reach reading.get_DatabaseUser])

end
