(* ===== verification/Database_Correct.thy ===== *)
theory Database_Correct
  imports Foreign_Schemata Sample_Server
begin

text \<open>
  Properties of the \<open>Database\<close> reconciler: what a pass may do at all, the abstract decision that the branch
  doing the work refines, the end of an object, and what happens to errors.
\<close>

section \<open>Confinement\<close>

text \<open>
  C5: whatever the API server and the MySQL server answer, and whether the pass returns or panics, the only
  requests of a pass over a \<open>Database\<close> are those that connecting needs and those in \<open>database_effect\<close>:
  statements for the schema the object names (\<open>CREATE\<close> and \<open>ALTER\<close> only while the object is live
  and has the finalizer, \<open>DROP\<close> only when it is marked for deletion and has the finalizer), rows with the
  object's UID, and updates of the object itself that keep its specification and UID.
\<close>

theorem database_Reconcile_confined:
  assumes "k_get_Database E req (ext w) = (Inr inst, s)"
  shows "\<exists>es. effects (final_world (database_Reconcile E req w)) = effects w @ es \<and>
     list_all (\<lambda>e. connection_effect e \<or> database_effect E inst e) es"
proof -
  let ?P = "\<lambda>e. connection_effect e \<or> database_effect E inst e"
  have "emits ?P (go_bind (resolve_admin E (om_Namespace (db_Meta inst)) (ds_AdminConnection (db_Spec inst)))
      (\<lambda>(adm, d, err). database_pass E inst adm d err))"
    by (intro emits_intros emits_mono [OF resolve_admin_emits] emits_mono [OF database_pass_emits]) auto
  from emitsD [OF this, of "w\<lparr>ext := s\<rparr>"] show ?thesis
    using assms by (simp add: database_Reconcile_def bind_ask)
qed

lemma database_Reconcile_confined_witness:
  "\<exists>es. effects (final_world (database_Reconcile sample_env \<lparr>nn_Namespace = ''tenant1'', nn_Name = ''mydb''\<rparr>
       (world_of sample_cluster))) = es \<and>
     list_all (\<lambda>e. connection_effect e \<or> database_effect sample_env sample_database e) es"
proof -
  have "k_get_Database sample_env \<lparr>nn_Namespace = ''tenant1'', nn_Name = ''mydb''\<rparr> (ext (world_of sample_cluster)) =
      (Inr sample_database, sample_cluster)"
    by (simp add: world_of_def sample_cluster_def empty_cluster_def found_def keyed_def sample_database_def meta_def)
  from database_Reconcile_confined [OF this] show ?thesis by (simp add: world_of_def)
qed

section \<open>The end of an object\<close>

text \<open>
  C20: for an object that is marked for deletion and has the finalizer, with a connection, the reconciler drops the
  schema and forgets the managed row exactly when the object may manage the schema, and in any case then writes
  the object without the finalizer. This is also what happens when the server refuses the
  \<open>DROP\<close>: its result is not looked at.
\<close>

theorem database_deletion_effects:
  assumes "database_has_finalizer E inst" and "schema_tables_ok E h schemas rows"
  shows "\<exists>err w'. database_deletion E (Some a) (Some h) inst w = Ret err w' \<and>
     effects w' = effects w @
       (if schemas (ext w) (ds_Name (db_Spec inst)) = None \<or>
           database_row_matches (case rows (ext w) (om_UID (db_Meta inst)) of
             Some row \<Rightarrow> row | None \<Rightarrow> zero_ManagedDatabase) inst
        then [Exec h (drop_database_stmt (ds_Name (db_Spec inst))),
              DeleteManagedDatabase h (om_UID (db_Meta inst))] else []) @
       [UpdateDatabase (database_release E inst)]"
  using database_end.flow_cases [OF assms(1), of a h w]
  by (simp only: DatabaseMine_run [OF assms(2)] database_drops_def returned.simps option.inject simp_thms)

definition dying_database :: Database where
  "dying_database = sample_database\<lparr>db_Meta := (meta ''tenant1'' ''mydb'' ''D'')
     \<lparr>om_Finalizers := [dbFinalizer], om_DeletionTimestamp := Some 5\<rparr>\<rparr>"

definition mine_cluster :: cluster where
  "mine_cluster = sample_cluster\<lparr>c_databases := [dying_database],
     c_schemas := [\<lparr>sch_SchemaName = ''shop'', sch_DefaultCharacterSet = [], sch_DefaultCollation = []\<rparr>],
     c_managed_databases := [\<lparr>md_Uuid = ''D'', md_Namespace = ''tenant1'', md_Name = ''mydb'',
       md_DatabaseName = ''shop''\<rparr>]\<rparr>"

lemma dying_facts:
  "database_has_finalizer sample_env dying_database" "om_DeletionTimestamp (db_Meta dying_database) \<noteq> None"
  "schema_named mine_cluster ''shop'' \<noteq> None"
  "database_row mine_cluster ''D'' = Some \<lparr>md_Uuid = ''D'', md_Namespace = ''tenant1'', md_Name = ''mydb'',
     md_DatabaseName = ''shop''\<rparr>"
  by (simp_all add: database_has_finalizer_def sample_env_def dying_database_def meta_def
      schema_named_def mine_cluster_def database_row_def)

lemma database_deletion_effects_witness:
  "\<exists>err w'. database_deletion sample_env (Some sample_admin) (Some 1) dying_database (world_of mine_cluster) =
       Ret err w' \<and>
     effects w' = [Exec 1 (drop_database_stmt ''shop''), DeleteManagedDatabase 1 ''D'',
       UpdateDatabase (database_release sample_env dying_database)]"
  using database_deletion_effects [OF dying_facts(1) sample_schema_tables, of sample_admin 1 "world_of mine_cluster"]
    dying_facts(3,4)
  by (simp add: world_of_def dying_database_def sample_database_def meta_def database_row_matches_def)

text \<open>
  C37: when the \<open>AdminConnection\<close> of an object that is marked for deletion is gone, the pass dereferences a nil
  pointer in the log line that reports it, before the finalizer is removed. Nothing is requested, so the
  object keeps its finalizer and every later pass panics again.
\<close>

theorem database_deletion_without_admin_panics:
  assumes "k_get_Database E req (ext w) = (Inr inst, s)" and "database_has_finalizer E inst"
    and "database_deleted inst"
    and "k_get_AdminConnection E
      \<lparr>nn_Namespace = admin_namespace (om_Namespace (db_Meta inst)) (ds_AdminConnection (db_Spec inst)),
       nn_Name = acr_Name (ds_AdminConnection (db_Spec inst))\<rparr> s = (Inl e, s')"
    and "is_not_found E e"
  shows "database_Reconcile E req w = Panic NilDereference (w\<lparr>ext := s'\<rparr>)"
  using assms
  by (simp add: database_Reconcile_def bind_ask resolve_admin_def GetAdminConnection_def go_bind_assoc
      database_pass_def database_deleted_def database_end.no_admin_panics)

definition orphan_cluster :: cluster where
  "orphan_cluster = mine_cluster\<lparr>c_admins := []\<rparr>"

lemma database_deletion_without_admin_panics_witness:
  "database_Reconcile sample_env \<lparr>nn_Namespace = ''tenant1'', nn_Name = ''mydb''\<rparr> (world_of orphan_cluster) =
     Panic NilDereference (world_of orphan_cluster)"
  using database_deletion_without_admin_panics [of sample_env
      "\<lparr>nn_Namespace = ''tenant1'', nn_Name = ''mydb''\<rparr>" "world_of orphan_cluster" dying_database
      orphan_cluster "External ''NotFound''" orphan_cluster]
  by (simp add: world_of_def orphan_cluster_def mine_cluster_def dying_facts found_def keyed_def
      dying_database_def meta_def sample_database_def database_deleted_def)
     (simp add: sample_env_def found_def database_has_finalizer_def)

section \<open>Errors\<close>

text \<open>
  The branch of the reconciler that creates, alters and checks the schema and writes the status never returns an
  error, whatever fails in it: the error variable is declared again inside the branch. A failed
  \<open>CREATE DATABASE\<close> or a failed status update is therefore not retried by the controller runtime.
\<close>

theorem database_sync_swallows_errors:
  "\<exists>w'. database_sync E adm h inst w = Ret None w'"
proof -
  have never: "never_panics (database_sync E adm h inst)"
  proof -
    have "never_panics (databaseUpdate E h i)" "never_panics (databaseCreate E h i)" for i
      unfolding databaseUpdate_def databaseCreate_def Let_def by (intro emits_intros databaseExists_facts)+
    then have "never_panics (database_align E h i ex)" for i ex
      unfolding database_align_def by (intro emits_intros DatabaseMine_emits)
    then show ?thesis
      unfolding database_sync_def by (intro emits_intros databaseExists_facts)
  qed
  have "yields (\<lambda>r. r = None) (database_sync E adm h inst)"
    unfolding database_sync_def
    by (rule yields_bind [OF databaseExists_yields [of inst inst]])
       (auto intro!: yields_after [where m = "ask (now E)"] yields_after [where m = "database_align E h _ _"]
          yields_after [where m = "perform _ _"] yields_ret)
  then show ?thesis
    using never_panics_Ret [OF never, of w] by (auto dest: yields_Ret)
qed

end
