(* ===== verification/Webhook_Correct.thy ===== *)
theory Webhook_Correct
  imports Admin_Correct Database_Correct
begin

text \<open>
  Properties of the validating webhook, and of the webhook together with the reconciler that fills the catalog of
  character sets: which names and which pairs are accepted, what never changes, and where a rule of the webhook
  gets in the way of the end of an object.
\<close>

section \<open>Character sets\<close>

definition listed :: "row list \<Rightarrow> string \<Rightarrow> string \<Rightarrow> bool" where
  "listed results charset collation \<longleftrightarrow>
     (\<exists>row \<in> set results. map_of row ''Charset'' = Some (VString charset) \<and>
        map_of row ''Collation'' = Some (VString collation))"

lemma as_string_Ret: "as_string v w = Ret s w' \<longleftrightarrow> v = Some (VString s) \<and> w' = w"
  by (auto simp: as_string_def split: option.splits column_value.splits)

lemma read_collations_listed:
  "read_collations results w = Ret rows w' \<Longrightarrow>
     (\<exists>d. (ch, co, d) \<in> set rows) \<longleftrightarrow> listed results ch co"
proof (induction results arbitrary: rows w)
  case Nil
  then show ?case by (simp add: listed_def)
next
  case (Cons row results)
  then obtain co' ch' df rest w1 where row:
    "map_of row ''Collation'' = Some (VString co')" "map_of row ''Charset'' = Some (VString ch')"
    "read_collations results w1 = Ret rest w'" "rows = (ch', co', df = ''Yes'') # rest"
    by (auto simp: go_bind_Ret_iff as_string_Ret)
  then show ?case
    using Cons.IH [OF row(3)] by (auto simp: listed_def)
qed

text \<open>The iteration order of a Go map is some arrangement of its keys.\<close>

definition map_order_ok :: "'s env \<Rightarrow> bool" where
  "map_order_ok E \<longleftrightarrow> (\<forall>ks s. mset (fst (map_order E ks s)) = mset ks)"

lemma getCharSets_search:
  assumes "map_order_ok E" and "fst (gorm_raw_scan E db collation_query (ext w)) = (results, None)"
    and "getCharSets E db w = Ret (Inr cs) w'"
  shows "charset_loop cs ch co \<in> {NotDefault, DefaultCombination} \<longleftrightarrow> listed results ch co"
proof -
  obtain rows w1 where rows: "read_collations results (w\<lparr>ext := snd (gorm_raw_scan E db collation_query (ext w))\<rparr>) = Ret rows w1"
    and cs: "cs = charsets_in_order (group_rows rows []) (fst (map_order E (map fst (group_rows rows [])) (ext w1)))"
    using assms(2,3) by (auto simp: getCharSets_def bind_ask go_bind_Ret_iff [where m = "read_collations _"])
  have "charset_loop cs ch co \<in> {NotDefault, DefaultCombination} \<longleftrightarrow> (\<exists>d. (ch, co, d) \<in> set rows)"
    unfolding cs by (rule charset_search_iff) (use assms(1) in \<open>simp add: map_order_ok_def\<close>)
  then show ?thesis
    using read_collations_listed [OF rows] by simp
qed

text \<open>
  C24: with the catalog that the \<open>AdminConnection\<close> reconciler reads from the server in the status of the connection,
  the webhook accepts a \<open>Database\<close> exactly when the server listed its pair of character set and collation (the ones the object
  asks for, else the defaults of the connection), whatever order the Go map is iterated in.
\<close>

theorem webhook_accepts_listed:
  assumes "map_order_ok E" and "fst (gorm_raw_scan E db collation_query (ext w)) = (results, None)"
    and "getCharSets E db w = Ret (Inr (acst_AvailableCharsets (ac_Status adm))) w'"
    and "acr_Name (ds_AdminConnection (db_Spec r)) \<noteq> []"
    and "fst (k_get_AdminConnection E
      \<lparr>nn_Namespace = admin_namespace (om_Namespace (db_Meta r)) (ds_AdminConnection (db_Spec r)),
       nn_Name = acr_Name (ds_AdminConnection (db_Spec r))\<rparr> (ext v)) = Inr adm"
  shows "(\<exists>warnings v'. ValidateCharsetCollationCombo E r v = Ret (warnings, None) v') \<longleftrightarrow>
     listed results (effective_charset r adm) (effective_collation r adm)"
proof -
  let ?c = "charset_loop (acst_AvailableCharsets (ac_Status adm)) (effective_charset r adm) (effective_collation r adm)"
  have "(\<exists>warnings v'. ValidateCharsetCollationCombo E r v = Ret (warnings, None) v') \<longleftrightarrow>
      ?c \<in> {NotDefault, DefaultCombination}"
    using assms(4,5)
    by (cases ?c) (auto simp: ValidateCharsetCollationCombo_def bind_ask combo_verdict_def)
  with getCharSets_search [OF assms(1-3)] show ?thesis by simp
qed

definition utf8_row :: row where
  "utf8_row = [(''Collation'', VString ''utf8mb4_general_ci''), (''Charset'', VString ''utf8mb4''),
     (''Default'', VString ''Yes'')]"

definition utf8_admin :: AdminConnection where
  "utf8_admin = sample_admin\<lparr>ac_Status := (ac_Status sample_admin)\<lparr>acst_CharacterSet := ''utf8mb4'',
     acst_Collation := ''utf8mb4_general_ci'', acst_AvailableCharsets := [\<lparr>cs_Name = ''utf8mb4'',
       cs_Collations = [\<lparr>coll_Name = ''utf8mb4_general_ci'', coll_Default = True\<rparr>]\<rparr>]\<rparr>\<rparr>"

definition utf8_cluster :: cluster where
  "utf8_cluster = sample_cluster\<lparr>c_admins := [utf8_admin], c_collations := [utf8_row]\<rparr>"

lemma utf8_facts:
  "map_order_ok sample_env"
  "gorm_raw_scan sample_env 1 collation_query utf8_cluster = (([utf8_row], None), utf8_cluster)"
  "getCharSets sample_env 1 (world_of utf8_cluster) =
     Ret (Inr (acst_AvailableCharsets (ac_Status utf8_admin))) (world_of utf8_cluster)"
  by (simp_all add: map_order_ok_def sample_env_def sample_raw_def collation_query_def utf8_cluster_def
      getCharSets_def bind_ask world_of_def utf8_row_def as_string_def utf8_admin_def)

lemma utf8_lookup:
  "k_get_AdminConnection sample_env \<lparr>nn_Namespace = ''ops'', nn_Name = ''db1''\<rparr> utf8_cluster =
     (Inr utf8_admin, utf8_cluster)"
  by (simp add: sample_env_def utf8_cluster_def found_def keyed_def utf8_admin_def sample_admin_def meta_def)

lemma webhook_accepts_listed_witness:
  "(\<exists>warnings v'. ValidateCharsetCollationCombo sample_env sample_database (world_of utf8_cluster) =
      Ret (warnings, None) v') \<and>
   \<not> (\<exists>warnings v'. ValidateCharsetCollationCombo sample_env
        (sample_database\<lparr>db_Spec := (db_Spec sample_database)\<lparr>ds_CharacterSet := ''latin1''\<rparr>\<rparr>)
        (world_of utf8_cluster) = Ret (warnings, None) v')"
  using webhook_accepts_listed [OF utf8_facts(1), of 1 "world_of utf8_cluster" _ utf8_admin _ _ "world_of utf8_cluster"]
    utf8_facts(2,3) utf8_lookup
  by (simp add: world_of_def sample_database_def admin_ref_def admin_namespace_def effective_charset_def
      effective_collation_def utf8_admin_def listed_def utf8_row_def meta_def)

section \<open>Names\<close>

text \<open>
  C28: a \<open>Database\<close> that the webhook accepts on creation has a name of one to 64 runes and at most 256 bytes, with none of the bytes
  \<open>\ / ? % * : | " < > .\<close> in it, not even inside an invalid or multi-byte sequence.
\<close>

theorem ValidateCreate_name:
  assumes "ValidateCreate E r w = Ret (warnings, None) w'"
  shows "ds_Name (db_Spec r) \<noteq> [] \<and> length (runes (ds_Name (db_Spec r))) \<le> 64 \<and>
     length (ds_Name (db_Spec r)) \<le> 256 \<and>
     (\<forall>c \<in> set (ds_Name (db_Spec r)). c \<notin> set (CHR 0x5C # CHR 0x22 # ''/?%*:|<>.''))"
proof -
  have m: "nameRegEx_MatchString (ds_Name (db_Spec r))"
    using assms by (auto simp: ValidateCreate_def split: if_splits)
  show ?thesis
    using name_regex_bytes [OF m] m by (auto simp: name_excluded_def nameRegEx_MatchString_def)
qed

lemma short_name: "nameRegEx_MatchString ''shop''"
  by (simp add: nameRegEx_MatchString_def decode_rune_def name_excluded_def)

lemma sample_created:
  "ValidateCreate sample_env sample_database (world_of utf8_cluster) = Ret ([], None) (world_of utf8_cluster)"
  using short_name utf8_lookup
  by (simp add: ValidateCreate_def ValidateCharsetCollationCombo_def bind_ask sample_database_def admin_ref_def
      admin_namespace_def world_of_def effective_charset_def effective_collation_def utf8_admin_def
      combo_verdict_def)

lemma ValidateCreate_name_witness:
  "ds_Name (db_Spec sample_database) \<noteq> [] \<and> length (ds_Name (db_Spec sample_database)) \<le> 256"
  using ValidateCreate_name [OF sample_created] by simp

text \<open>
  The life of an object at the API server, as far as it passes the webhook: created, updated, and updated in parts
  other than its specification (status, metadata of the garbage collector).
\<close>

inductive admitted :: "'s env \<Rightarrow> Database \<Rightarrow> Database \<Rightarrow> bool" for E where
  created: "ValidateCreate E d w = Ret (warnings, None) w' \<Longrightarrow> admitted E d d"
| updated: "admitted E first d \<Longrightarrow> ValidateUpdate E d' d w = Ret (warnings, None) w' \<Longrightarrow>
    admitted E first d'"
| untouched: "admitted E first d \<Longrightarrow> db_Spec d' = db_Spec d \<Longrightarrow> admitted E first d'"

inductive_cases admitted_cases: "admitted E first d"

lemma update_keeps_name:
  "ValidateUpdate E d' d w = Ret (warnings, None) w' \<Longrightarrow> ds_Name (db_Spec d') = ds_Name (db_Spec d)"
  by (auto simp: ValidateUpdate_def split: if_splits)

text \<open>
  C29: however often an object is updated, as long as every step passes the webhook its schema name is the one it was created with
  and satisfies the name rule. (The update step does not check the rule again; it does not have to.)
\<close>

theorem admitted_name_fixed:
  assumes "admitted E first d"
  shows "ds_Name (db_Spec d) = ds_Name (db_Spec first) \<and> nameRegEx_MatchString (ds_Name (db_Spec d))"
  using assms
proof (induction rule: admitted.induct)
  case (created d w warnings w')
  then show ?case by (auto simp: ValidateCreate_def split: if_splits)
next
  case (updated first d d' w warnings w')
  then show ?case using update_keeps_name by metis
qed auto

lemma sample_admitted: "admitted sample_env sample_database dying_database"
  by (rule admitted.untouched [OF admitted.created [OF sample_created]]) (simp add: dying_database_def)

lemma admitted_name_fixed_witness:
  "ds_Name (db_Spec dying_database) = ds_Name (db_Spec sample_database) \<and>
     nameRegEx_MatchString (ds_Name (db_Spec dying_database))"
  by (rule admitted_name_fixed [OF sample_admitted])

text \<open>
  C40: the webhook looks up the connection for every update, also for the one that only removes the finalizer of an object
  that is marked for deletion. When the \<open>AdminConnection\<close> is gone that update is refused, so the
  object can not be released.
\<close>

theorem ValidateUpdate_blocks_release:
  assumes "acr_Name (ds_AdminConnection (db_Spec inst)) \<noteq> []"
    and "k_get_AdminConnection E
      \<lparr>nn_Namespace = admin_namespace (om_Namespace (db_Meta inst)) (ds_AdminConnection (db_Spec inst)),
       nn_Name = acr_Name (ds_AdminConnection (db_Spec inst))\<rparr> (ext w) = (Inl err, s)"
  shows "ValidateUpdate E (database_release E inst) inst w = Ret ([], Some err) (w\<lparr>ext := s\<rparr>)"
  using assms
  by (simp add: ValidateUpdate_def ValidateCharsetCollationCombo_def bind_ask database_release_def
      set_db_finalizers_def admin_namespace_def)

lemma ValidateUpdate_blocks_release_witness:
  "ValidateUpdate sample_env (database_release sample_env dying_database) dying_database (world_of orphan_cluster) =
     Ret ([], Some (External ''NotFound'')) (world_of orphan_cluster)"
  using ValidateUpdate_blocks_release [of dying_database sample_env "world_of orphan_cluster"
      "External ''NotFound''" orphan_cluster]
  by (simp add: world_of_def dying_database_def sample_database_def admin_ref_def admin_namespace_def meta_def)
     (simp add: sample_env_def orphan_cluster_def mine_cluster_def found_def)

end
