(* ===== verification/Names_Correct.thy ===== *)
theory Names_Correct
  imports Webhook_Correct
begin

text \<open>
  The names of schemata inside statements. MySQL's rules for an identifier between backticks are the reference
  \<open>read_identifier\<close> (a doubled backtick stands for one, a single one closes). The reconciler puts
  names between backticks as they are, so a name is read back exactly when it has no backtick, and
  the name rule of the webhook does not exclude backticks.
\<close>

section \<open>Identifiers between backticks\<close>

fun read_identifier :: "string \<Rightarrow> (string \<times> string) option" where
  "read_identifier [] = None"
| "read_identifier [c] = (if c = CHR 0x60 then Some ([], []) else None)"
| "read_identifier (c # d # rest) =
     (if c = CHR 0x60 then
        (if d = CHR 0x60 then map_option (\<lambda>(v, r). (CHR 0x60 # v, r)) (read_identifier rest)
         else Some ([], d # rest))
      else map_option (\<lambda>(v, r). (c # v, r)) (read_identifier (d # rest)))"

text \<open>The identifier after the first backtick of a statement.\<close>

definition named_identifier :: "string \<Rightarrow> (string \<times> string) option" where
  "named_identifier stmt = read_identifier (tl (dropWhile (\<lambda>c. c \<noteq> CHR 0x60) stmt))"

lemma named_identifier_intro:
  "CHR 0x60 \<notin> set intro \<Longrightarrow> named_identifier (intro @ CHR 0x60 # rest) = read_identifier rest"
  unfolding named_identifier_def by (induction intro) auto

lemma read_plain:
  "CHR 0x60 \<notin> set n \<Longrightarrow> rest = [] \<or> hd rest \<noteq> CHR 0x60 \<Longrightarrow>
     read_identifier (n @ CHR 0x60 # rest) = Some (n, rest)"
proof (induction n)
  case Nil
  then show ?case by (cases rest) auto
next
  case (Cons c n)
  obtain d ds where "n @ CHR 0x60 # rest = d # ds" by (cases n) auto
  with Cons show ?case by auto
qed

lemma read_identifier_length:
  "read_identifier s = Some (v, r) \<Longrightarrow> length v + length r < length s"
proof (induction s arbitrary: v r rule: read_identifier.induct)
  case (3 c d rest)
  then show ?case by (fastforce split: if_splits)
qed (auto split: if_splits)

lemma read_back_plain: "read_identifier (n @ [CHR 0x60]) = Some (n, []) \<Longrightarrow> CHR 0x60 \<notin> set n"
proof (induction n)
  case Nil
  then show ?case by simp
next
  case (Cons c n)
  obtain d ds where n: "n @ [CHR 0x60] = d # ds" by (cases n) auto
  show ?case
  proof (cases "c = CHR 0x60")
    case True
    with Cons.prems n have "read_identifier ds = Some (n, [])"
      by (auto split: if_splits)
    with read_identifier_length have "length n < length ds" by fastforce
    moreover have "length (n @ [CHR 0x60]) = length (d # ds)" by (simp only: n)
    ultimately show ?thesis by simp
  next
    case False
    with Cons n show ?thesis by auto
  qed
qed

section \<open>Statements about schemata\<close>

text \<open>
  The \<open>DROP DATABASE\<close> of the reconciler is about the schema the object names if and only if the name has no
  backtick; then the same holds of its \<open>CREATE\<close> and its \<open>ALTER\<close>, whose clauses follow the name.
\<close>

theorem drop_names_schema:
  "named_identifier (drop_database_stmt n) = Some (n, []) \<longleftrightarrow> CHR 0x60 \<notin> set n"
proof -
  have "named_identifier (drop_database_stmt n) = read_identifier (n @ [CHR 0x60])"
    using named_identifier_intro [of "''DROP DATABASE IF EXISTS ''" "n @ [CHR 0x60]"]
    by (simp add: drop_database_stmt_def)
  then show ?thesis
    using read_plain [of n "[]"] read_back_plain [of n] by auto
qed

text \<open>A name that the webhook accepts and that reads as another one.\<close>

definition backtick_name :: string where
  "backtick_name = ''shop` -- ''"

lemma backtick_name_admitted: "nameRegEx_MatchString backtick_name"
  by (simp add: nameRegEx_MatchString_def decode_rune_def name_excluded_def backtick_name_def)

text \<open>
  C34: the webhook accepts the name \<open>backtick_name\<close>, and for an object with this name that is marked for deletion
  the reconciler sends a statement that drops the schema \<open>shop\<close>, without any managed row: the
  ownership check asks for a schema with the whole name, finds none, and takes it as the object's own.
\<close>

theorem backtick_name_drops_other_schema:
  assumes "ds_Name (db_Spec inst) = backtick_name" and "database_has_finalizer E inst"
    and "schema_tables_ok E h schemas rows" and "schemas (ext w) backtick_name = None"
  shows "nameRegEx_MatchString (ds_Name (db_Spec inst)) \<and>
     (\<exists>q rest. Exec h q \<in> set (effects (final_world (database_deletion E (Some a) (Some h) inst w))) \<and>
        take 24 q = ''DROP DATABASE IF EXISTS '' \<and> named_identifier q = Some (''shop'', rest))"
proof -
  have "returned (DatabaseMine E h inst w) = Some True"
    using assms(1,4) by (simp add: DatabaseMine_run [OF assms(3)])
  then obtain e w' where "database_deletion E (Some a) (Some h) inst w = Ret e w'"
    "effects w' = effects w @ database_drops h inst @ [UpdateDatabase (database_release E inst)]"
    using database_end.flow_cases [OF assms(2), of a h w] by auto
  then have "Exec h (drop_database_stmt backtick_name) \<in>
      set (effects (final_world (database_deletion E (Some a) (Some h) inst w)))"
    using assms(1) by (simp add: database_drops_def)
  moreover have "take 24 (drop_database_stmt backtick_name) = ''DROP DATABASE IF EXISTS ''"
    "named_identifier (drop_database_stmt backtick_name) = Some (''shop'', '' -- `'')"
    by (simp_all add: drop_database_stmt_def backtick_name_def named_identifier_def)
  ultimately show ?thesis
    using assms(1) backtick_name_admitted by auto
qed

definition evil_database :: Database where
  "evil_database = dying_database\<lparr>db_Spec := (db_Spec dying_database)\<lparr>ds_Name := backtick_name\<rparr>\<rparr>"

lemma backtick_name_drops_other_schema_witness:
  "\<exists>q rest. Exec 1 q \<in> set (effects (final_world (database_deletion sample_env (Some sample_admin) (Some 1)
       evil_database (world_of mine_cluster)))) \<and> named_identifier q = Some (''shop'', rest)"
proof -
  have "ds_Name (db_Spec evil_database) = backtick_name" "database_has_finalizer sample_env evil_database"
    "schema_named (ext (world_of mine_cluster)) backtick_name = None"
    using dying_facts(1)
    by (simp_all add: evil_database_def database_has_finalizer_def world_of_def schema_named_def
        backtick_name_def mine_cluster_def)
  from backtick_name_drops_other_schema [OF this(1,2) sample_schema_tables this(3), of 1 sample_admin]
  show ?thesis by blast
qed

end
