(* ===== verification/Database_Spec.thy ===== *)
theory Database_Spec
  imports Database_Correct
begin

text \<open>
  What a pass over a live \<open>Database\<close> is for, as an abstract decision on the schema of the server and the managed row
  (\<open>decide\<close>, \<open>planned\<close>), and the refinement: the pass of the controller runs exactly the statements of the
  decision and reports it in the status. Then progress: a pass that creates the schema is followed by passes
  that leave the server alone.
\<close>

section \<open>The decision\<close>

datatype decision = CreateSchema | AlterSchema | KeepSchema | RefuseSchema

definition asks :: "string \<Rightarrow> string \<Rightarrow> bool" where
  "asks wanted actual \<longleftrightarrow> wanted \<noteq> [] \<and> wanted \<noteq> actual"

definition decide :: "DatabaseSchema option \<Rightarrow> ManagedDatabase option \<Rightarrow> Database \<Rightarrow> decision" where
  "decide schema row inst =
     (case schema of
        None \<Rightarrow> CreateSchema
      | Some r \<Rightarrow>
          if \<not> (\<exists>m. row = Some m \<and> database_row_matches m inst) then RefuseSchema
          else if asks (ds_CharacterSet (db_Spec inst)) (sch_DefaultCharacterSet r) \<or>
                  asks (ds_Collate (db_Spec inst)) (sch_DefaultCollation r) then AlterSchema
          else KeepSchema)"

definition planned :: "DatabaseSchema option \<Rightarrow> ManagedDatabase option \<Rightarrow> Database \<Rightarrow> string list" where
  "planned schema row inst =
     (case decide schema row inst of
        CreateSchema \<Rightarrow> [create_database_stmt (db_Spec inst)]
      | AlterSchema \<Rightarrow>
          (case schema of
             None \<Rightarrow> []
           | Some r \<Rightarrow>
              [''ALTER DATABASE `'' @ ds_Name (db_Spec inst) @ ''`'' @
               (if asks (ds_CharacterSet (db_Spec inst)) (sch_DefaultCharacterSet r)
                then '' CHARACTER SET '' @ ds_CharacterSet (db_Spec inst) else []) @
               (if asks (ds_Collate (db_Spec inst)) (sch_DefaultCollation r)
                then '' COLLATE '' @ ds_Collate (db_Spec inst) else [])])
      | _ \<Rightarrow> [])"

text \<open>The messages that tell of a decision; a failed \<open>CREATE\<close> leaves the message as it was.\<close>

definition reported :: "decision \<Rightarrow> string \<Rightarrow> string set" where
  "reported d old =
     (case d of
        CreateSchema \<Rightarrow> {''Created database'', old}
      | AlterSchema \<Rightarrow> {''Altered database'', ''Failed to update database''}
      | KeepSchema \<Rightarrow> {''Database in sync''}
      | RefuseSchema \<Rightarrow> {''No permission to this database.''})"

section \<open>The operations, run\<close>

text \<open>The object, its name, host and port stay.\<close>

definition located :: "Database \<Rightarrow> Database \<Rightarrow> bool" where
  "located i j \<longleftrightarrow> same_database i j \<and> dst_Name (db_Status j) = dst_Name (db_Status i) \<and>
     dst_Host (db_Status j) = dst_Host (db_Status i) \<and> dst_Port (db_Status j) = dst_Port (db_Status i)"

definition seen_schema :: "DatabaseSchema \<Rightarrow> Database \<Rightarrow> Database" where
  "seen_schema r inst = set_db_status (\<lambda>st. st\<lparr>dst_Collate := sch_DefaultCollation r,
     dst_CharacterSet := sch_DefaultCharacterSet r\<rparr>) inst"

lemma located_simps [simp]:
  "located i i" "located i (seen_schema r j) = located i j"
  "located i (db_message m j) = located i j"
  "located i (set_db_status (\<lambda>st. st\<lparr>dst_CreationTime := t, dst_Message := m\<rparr>) j) = located i j"
  "located i (set_db_status (\<lambda>st. if b then st\<lparr>dst_CharacterSet := c\<rparr> else st) j) = located i j"
  "located i (set_db_status (\<lambda>st. if b then st\<lparr>dst_Collate := c\<rparr> else st) j) = located i j"
  by (simp_all add: located_def same_database_def seen_schema_def db_message_def set_db_status_def)

lemma located_trans: "located i j \<Longrightarrow> located j k \<Longrightarrow> located i k"
  by (simp add: located_def same_database_def)

lemma message_simps [simp]:
  "dst_Message (db_Status (seen_schema r j)) = dst_Message (db_Status j)"
  "dst_Message (db_Status (db_message m j)) = m"
  "dst_Message (db_Status (set_db_status (\<lambda>st. st\<lparr>dst_CreationTime := t, dst_Message := m\<rparr>) j)) = m"
  "dst_Message (db_Status (set_db_status (\<lambda>st. if b then st\<lparr>dst_CharacterSet := c\<rparr> else st) j)) =
     dst_Message (db_Status j)"
  "dst_Message (db_Status (set_db_status (\<lambda>st. if b then st\<lparr>dst_Collate := c\<rparr> else st) j)) =
     dst_Message (db_Status j)"
  by (simp_all add: seen_schema_def db_message_def set_db_status_def)

lemma seen_schema_eq:
  "set_db_status (\<lambda>st. if dst_CharacterSet st = [] \<or> dst_CharacterSet st \<noteq> sch_DefaultCharacterSet r
       then st\<lparr>dst_CharacterSet := sch_DefaultCharacterSet r\<rparr> else st)
     (set_db_status (\<lambda>st. if dst_Collate st = [] \<or> dst_Collate st \<noteq> sch_DefaultCollation r
       then st\<lparr>dst_Collate := sch_DefaultCollation r\<rparr> else st) inst) = seen_schema r inst"
  by (cases inst, cases "db_Status inst") (auto simp: set_db_status_def seen_schema_def)

lemma databaseExists_result:
  "\<exists>i ex w'. databaseExists E h inst w = Ret (i, ex, None) w' \<and> effects w' = effects w \<and>
     located inst i \<and> dst_Message (db_Status i) = dst_Message (db_Status inst)"
proof -
  obtain x w' where run: "DatabaseExists E h (ds_Name (db_Spec inst)) w = Ret x w'"
    using never_panics_Ret [OF DatabaseExists_emits(3)] by blast
  have "effects w' = effects w"
    using observes_Ret [OF observesI [OF DatabaseExists_emits(1,2)] run] by simp
  with run show ?thesis
    by (cases x) (auto simp: databaseExists_def go_bind_def Let_def seen_schema_eq)
qed

lemma databaseExists_run:
  assumes "schema_tables_ok E h schemas rows"
  shows "databaseExists E h inst w =
     (case schemas (ext w) (ds_Name (db_Spec inst)) of
        None \<Rightarrow> Ret (inst, False, None) w
      | Some r \<Rightarrow> Ret (seen_schema r inst, True, None) w)"
  using DatabaseExists_run [OF assms, of "ds_Name (db_Spec inst)" w]
  by (simp add: databaseExists_def go_bind_def Let_def seen_schema_eq split: option.splits)

lemma databaseCreate_result:
  "\<exists>i created err w' mid. databaseCreate E h inst w = Ret (i, created, err) w' \<and>
     effects w' = effects w @ mid \<and> exec_statements mid = [create_database_stmt (db_Spec inst)] \<and>
     located inst i \<and> dst_Message (db_Status i) = dst_Message (db_Status inst)"
proof -
  let ?i1 = "set_db_status (\<lambda>st. if ds_CharacterSet (db_Spec inst) \<noteq> []
        then st\<lparr>dst_CharacterSet := ds_CharacterSet (db_Spec inst)\<rparr> else st) inst"
  let ?i = "set_db_status (\<lambda>st. if ds_Collate (db_Spec ?i1) \<noteq> []
        then st\<lparr>dst_Collate := ds_Collate (db_Spec ?i1)\<rparr> else st) ?i1"
  let ?q = "create_database_stmt (db_Spec inst)"
  obtain tx s where e: "gorm_exec E h ?q (ext w) = (tx, s)" by fastforce
  have i: "located inst ?i" "dst_Message (db_Status ?i) = dst_Message (db_Status inst)"
    "db_Spec ?i = db_Spec inst"
    by (simp_all add: set_db_status_def located_def same_database_def)
  show ?thesis
  proof (cases "tx_Error tx")
    case (Some err)
    then show ?thesis
      using e i
      by (intro exI [of _ ?i] exI [of _ False] exI [of _ "Some err"]
          exI [of _ "w\<lparr>ext := s, effects := effects w @ [Exec h ?q]\<rparr>"] exI [of _ "[Exec h ?q]"])
         (simp add: databaseCreate_def Let_def bind_perform)
  next
    case None
    obtain tx' s' where c: "gorm_create_ManagedDatabase E (tx_DB tx) (managed_database ?i) s = (tx', s')"
      by fastforce
    let ?mid = "[Exec h ?q, CreateManagedDatabase (tx_DB tx) (managed_database ?i), Commit (tx_DB tx')]"
    let ?w = "w\<lparr>ext := snd (gorm_commit E (tx_DB tx') s'), effects := effects w @ ?mid\<rparr>"
    obtain j ex w' where x: "databaseExists E h ?i ?w = Ret (j, ex, None) w'" "effects w' = effects ?w"
      "located ?i j" "dst_Message (db_Status j) = dst_Message (db_Status ?i)"
      using databaseExists_result by blast
    have "databaseCreate E h inst w = Ret (j, ex, None) w'"
      using e c x(1) None by (simp add: databaseCreate_def Let_def bind_perform)
    moreover have "located inst j" by (rule located_trans [OF i(1) x(3)])
    moreover have "dst_Message (db_Status j) = dst_Message (db_Status inst)"
      by (rule trans [OF x(4) i(2)])
    moreover have "effects w' = effects w @ ?mid" using x(2) by simp
    ultimately show ?thesis
      by (intro exI [of _ j] exI [of _ ex] exI [of _ None] exI [of _ w'] exI [of _ ?mid]) simp
  qed
qed

section \<open>The refinement\<close>

text \<open>Reading the clock does not change the server.\<close>

definition clock_ok :: "'s env \<Rightarrow> 's schemata \<Rightarrow> 's database_rows \<Rightarrow> bool" where
  "clock_ok E schemas rows \<longleftrightarrow>
     (\<forall>s. schemas (snd (now E s)) = schemas s \<and> rows (snd (now E s)) = rows s)"

text \<open>The comparison of the code is the one of the decision once the status shows the schema.\<close>

lemma differs_seen:
  "charset_differs (database_observed adm t (seen_schema r inst)) \<longleftrightarrow>
     asks (ds_CharacterSet (db_Spec inst)) (sch_DefaultCharacterSet r)"
  "collate_differs (database_observed adm t (seen_schema r inst)) \<longleftrightarrow>
     asks (ds_Collate (db_Spec inst)) (sch_DefaultCollation r)"
  by (simp_all add: charset_differs_def collate_differs_def asks_def database_observed_def
      seen_schema_def set_db_status_def)

lemma observed_fields [simp]:
  "db_Spec (database_observed adm t i) = db_Spec i" "db_Meta (database_observed adm t i) = db_Meta i"
  "db_Spec (seen_schema r i) = db_Spec i" "db_Meta (seen_schema r i) = db_Meta i"
  "dst_Message (db_Status (database_observed adm t i)) = dst_Message (db_Status i)"
  "dst_Name (db_Status (database_observed adm t i)) = ds_Name (db_Spec i)"
  "dst_Host (db_Status (database_observed adm t i)) = acs_Host (ac_Spec adm)"
  "dst_Port (db_Status (database_observed adm t i)) = acs_Port (ac_Spec adm)"
  by (simp_all add: database_observed_def seen_schema_def set_db_status_def)

text \<open>What the aligning step leaves: the object \<open>j\<close>, and the effects \<open>mid\<close> before the status update.\<close>

definition aligned :: "decision \<Rightarrow> string list \<Rightarrow> Database \<Rightarrow> ('s world, Database) go \<Rightarrow> 's world \<Rightarrow> bool" where
  "aligned d qs i m w \<longleftrightarrow>
     (\<exists>j mid w'. m w = Ret j w' \<and> effects w' = effects w @ mid \<and> exec_statements mid = qs \<and>
        (qs = [] \<longrightarrow> mid = []) \<and> located i j \<and>
        dst_Message (db_Status j) \<in> reported d (dst_Message (db_Status i)))"

lemma align_create:
  "aligned CreateSchema [create_database_stmt (db_Spec i)] i (database_align E h i False) w"
proof -
  obtain j created err w' mid where c: "databaseCreate E h i w = Ret (j, created, err) w'"
    "effects w' = effects w @ mid" "exec_statements mid = [create_database_stmt (db_Spec i)]"
    "located i j" "dst_Message (db_Status j) = dst_Message (db_Status i)"
    using databaseCreate_result by blast
  show ?thesis
  proof (cases "err = None \<and> created")
    case True
    let ?t = "fst (now E (ext w'))"
    let ?j = "set_db_status (\<lambda>st. st\<lparr>dst_CreationTime := Some ?t, dst_Message := ''Created database''\<rparr>) j"
    have "database_align E h i False w = Ret ?j (w'\<lparr>ext := snd (now E (ext w'))\<rparr>)"
      using c(1) True by (simp add: database_align_def go_bind_def ask_def split_beta)
    with c(2-5) show ?thesis
      unfolding aligned_def
      by (intro exI [of _ ?j] exI [of _ mid] exI [of _ "w'\<lparr>ext := snd (now E (ext w'))\<rparr>"])
         (auto simp: reported_def)
  next
    case False
    have "database_align E h i False w = Ret j w'"
      using c(1) False by (auto simp: database_align_def go_bind_def)
    with c(2-5) show ?thesis
      unfolding aligned_def by (intro exI [of _ j] exI [of _ mid] exI [of _ w']) (auto simp: reported_def)
  qed
qed

lemma align_refuse:
  assumes "DatabaseMine E h i w = Ret False w"
  shows "aligned RefuseSchema [] i (database_align E h i True) w"
  using assms
  by (auto simp: aligned_def database_align_def go_bind_def reported_def intro!: exI [of _ w])

lemma align_keep:
  assumes "DatabaseMine E h i w = Ret True w" and "\<not> charset_differs i" and "\<not> collate_differs i"
  shows "aligned KeepSchema [] i (database_align E h i True) w"
proof -
  obtain j ex w' where x: "databaseExists E h i w = Ret (j, ex, None) w'" "effects w' = effects w"
      "located i j" "dst_Message (db_Status j) = dst_Message (db_Status i)"
    using databaseExists_result by blast
  have "database_align E h i True w = Ret (db_message ''Database in sync'' j) w'"
    using assms x(1) by (simp add: database_align_def databaseUpdate_def Let_def go_bind_def set_db_status_def)
  with x(2-4) show ?thesis
    by (simp add: aligned_def reported_def)
qed

lemma align_alter:
  assumes "DatabaseMine E h i w = Ret True w" and "charset_differs i \<or> collate_differs i"
  shows "aligned AlterSchema [alter_database_stmt i] i (database_align E h i True) w"
proof -
  let ?q = "alter_database_stmt i"
  let ?i = "set_db_status (\<lambda>st. if collate_differs i then st\<lparr>dst_Collate := ds_Collate (db_Spec i)\<rparr> else st)
     (set_db_status (\<lambda>st. if charset_differs i then st\<lparr>dst_CharacterSet := ds_CharacterSet (db_Spec i)\<rparr> else st) i)"
  obtain tx s where e: "gorm_exec E h ?q (ext w) = (tx, s)" by fastforce
  let ?w = "w\<lparr>ext := s, effects := effects w @ [Exec h ?q]\<rparr>"
  have i: "located i ?i" by (simp add: located_def same_database_def set_db_status_def)
  show ?thesis
  proof (cases "tx_Error tx")
    case (Some err)
    have "database_align E h i True w = Ret (db_message ''Failed to update database'' ?i) ?w"
      using assms e Some
      by (simp add: database_align_def databaseUpdate_def Let_def go_bind_def perform_def)
    with i show ?thesis
      unfolding aligned_def
      by (intro exI [of _ "db_message ''Failed to update database'' ?i"] exI [of _ "[Exec h ?q]"] exI [of _ ?w])
         (simp add: reported_def)
  next
    case None
    obtain j ex w' where x: "databaseExists E h ?i ?w = Ret (j, ex, None) w'" "effects w' = effects ?w"
      "located ?i j"
      using databaseExists_result by blast
    have "database_align E h i True w = Ret (db_message ''Altered database'' j) w'"
      using assms e None x(1)
      by (simp add: database_align_def databaseUpdate_def Let_def go_bind_def perform_def)
    moreover have "located i j" by (rule located_trans [OF i x(3)])
    ultimately show ?thesis
      unfolding aligned_def using x(2)
      by (intro exI [of _ "db_message ''Altered database'' j"] exI [of _ "[Exec h ?q]"] exI [of _ w'])
         (simp add: reported_def)
  qed
qed

text \<open>The alignment against what is known of the schema: one lemma for the four decisions.\<close>

lemma align_decides:
  assumes i: "i = (case schema of None \<Rightarrow> inst | Some r \<Rightarrow> seen_schema r inst)"
    and mine: "DatabaseMine E h (database_observed adm t i) w =
      Ret (schema = None \<or> (\<exists>m. row = Some m \<and> database_row_matches m inst)) w"
  shows "aligned (decide schema row inst) (planned schema row inst) (database_observed adm t i)
     (database_align E h (database_observed adm t i) (schema \<noteq> None)) w"
proof (cases schema)
  case None
  then show ?thesis
    using align_create [of "database_observed adm t i" E h w] by (simp add: i decide_def planned_def)
next
  case (Some r)
  have differs: "charset_differs (database_observed adm t i) = asks (ds_CharacterSet (db_Spec inst)) (sch_DefaultCharacterSet r)"
    "collate_differs (database_observed adm t i) = asks (ds_Collate (db_Spec inst)) (sch_DefaultCollation r)"
    using Some by (simp_all add: i differs_seen)
  have alter: "alter_database_stmt (database_observed adm t i) = ''ALTER DATABASE `'' @ ds_Name (db_Spec inst) @ ''`'' @
       (if asks (ds_CharacterSet (db_Spec inst)) (sch_DefaultCharacterSet r)
        then '' CHARACTER SET '' @ ds_CharacterSet (db_Spec inst) else []) @
       (if asks (ds_Collate (db_Spec inst)) (sch_DefaultCollation r)
        then '' COLLATE '' @ ds_Collate (db_Spec inst) else [])"
    using Some by (simp add: alter_database_stmt_def differs) (simp add: i)
  show ?thesis
    using Some mine align_refuse [of E h "database_observed adm t i" w] align_keep [of E h "database_observed adm t i" w]
      align_alter [of E h "database_observed adm t i" w]
    by (auto simp: decide_def planned_def differs alter)
qed

text \<open>The working branch, run: the alignment, then one status update of what it leaves.\<close>

lemma database_sync_run:
  assumes "schema_tables_ok E h schemas rows" and "clock_ok E schemas rows"
    and "ds_Name (db_Spec inst) \<noteq> []"
    and "schema = schemas (ext w) (ds_Name (db_Spec inst))" and "row = rows (ext w) (om_UID (db_Meta inst))"
  obtains i j mid w1
  where "database_align E h i (schema \<noteq> None) (w\<lparr>ext := snd (now E (ext w))\<rparr>) = Ret j w1" and "same_database inst i"
    and "database_sync E adm h inst w = Ret None (w1\<lparr>ext := snd (k_status_Database E j (ext w1)),
      effects := effects w1 @ [StatusDatabase j]\<rparr>)"
    and "effects w1 = effects w @ mid" and "exec_statements mid = planned schema row inst"
    and "planned schema row inst = [] \<longrightarrow> mid = []" and "same_database inst j"
    and "dst_Name (db_Status j) = ds_Name (db_Spec inst)" and "dst_Host (db_Status j) = acs_Host (ac_Spec adm)"
    and "dst_Port (db_Status j) = acs_Port (ac_Spec adm)"
    and "dst_Message (db_Status j) \<in> reported (decide schema row inst) (dst_Message (db_Status inst))"
proof -
  let ?t = "fst (now E (ext w))" and ?w = "w\<lparr>ext := snd (now E (ext w))\<rparr>"
  define i where "i = (case schema of None \<Rightarrow> inst | Some r \<Rightarrow> seen_schema r inst)"
  let ?i = "database_observed adm ?t i"
  have views: "schemas (snd (now E (ext w))) = schemas (ext w)" "rows (snd (now E (ext w))) = rows (ext w)"
    using assms(2) by (simp_all add: clock_ok_def)
  have fields: "db_Spec i = db_Spec inst" "db_Meta i = db_Meta inst"
    "dst_Message (db_Status i) = dst_Message (db_Status inst)"
    by (simp_all add: i_def split: option.splits)
  have mine: "DatabaseMine E h ?i ?w = Ret (schema = None \<or> (\<exists>m. row = Some m \<and> database_row_matches m inst)) ?w"
    using assms(3)
    by (auto simp: DatabaseMine_run [OF assms(1)] views assms(4,5) fields database_row_matches_def
        zero_ManagedDatabase_def split: option.splits)
  from align_decides [OF i_def mine] obtain j mid w1 where run: "database_align E h ?i (schema \<noteq> None) ?w = Ret j w1"
    and j: "effects w1 = effects w @ mid" "exec_statements mid = planned schema row inst"
      "planned schema row inst = [] \<longrightarrow> mid = []" "located ?i j"
      "dst_Message (db_Status j) \<in> reported (decide schema row inst) (dst_Message (db_Status inst))"
    unfolding aligned_def by (auto simp: fields)
  have "databaseExists E h inst w = Ret (i, schema \<noteq> None, None) w"
    using assms(4) by (simp add: databaseExists_run [OF assms(1)] i_def split: option.splits)
  then have "database_sync E adm h inst w = Ret None (w1\<lparr>ext := snd (k_status_Database E j (ext w1)),
      effects := effects w1 @ [StatusDatabase j]\<rparr>)"
    using run by (simp add: database_sync_def go_bind_def ask_def perform_def split_beta)
  moreover have "same_database inst j" "same_database inst ?i"
    using j(4) by (auto simp: located_def same_database_def fields)
  ultimately show thesis
    using that [OF run] j by (auto simp: located_def fields)
qed

text \<open>
  C4: the branch of the reconciler that does the work implements the decision: with \<open>schema\<close> and \<open>row\<close> as
  the server has them, it runs exactly the statements \<open>planned schema row inst\<close> (none when the schema is in
  line or belongs to someone else), then writes the status once, with the message of the decision, the
  name, the host and the port, and with the object's metadata and specification unchanged.
\<close>

theorem database_sync_implements_decision:
  assumes "schema_tables_ok E h schemas rows" and "clock_ok E schemas rows"
    and "ds_Name (db_Spec inst) \<noteq> []"
    and "schema = schemas (ext w) (ds_Name (db_Spec inst))" and "row = rows (ext w) (om_UID (db_Meta inst))"
  shows "\<exists>i mid w'. database_sync E adm h inst w = Ret None w' \<and>
     effects w' = effects w @ mid @ [StatusDatabase i] \<and>
     exec_statements mid = planned schema row inst \<and> (planned schema row inst = [] \<longrightarrow> mid = []) \<and>
     same_database inst i \<and> dst_Name (db_Status i) = ds_Name (db_Spec inst) \<and>
     dst_Host (db_Status i) = acs_Host (ac_Spec adm) \<and> dst_Port (db_Status i) = acs_Port (ac_Spec adm) \<and>
     dst_Message (db_Status i) \<in> reported (decide schema row inst) (dst_Message (db_Status inst))"
  by (rule database_sync_run [OF assms, of adm]) fastforce

lemma sample_clock: "clock_ok sample_env schema_named database_row"
  by (simp add: clock_ok_def)

lemma database_sync_implements_decision_witness:
  "\<exists>i w'. database_sync sample_env sample_admin 1 sample_database (world_of mine_cluster) = Ret None w' \<and>
     effects w' = [StatusDatabase i] \<and> dst_Message (db_Status i) = ''Database in sync''"
proof -
  have "planned (schema_named mine_cluster ''shop'') (database_row mine_cluster ''D'') sample_database = []"
    "decide (schema_named mine_cluster ''shop'') (database_row mine_cluster ''D'') sample_database = KeepSchema"
    using dying_facts(3,4)
    by (auto simp: planned_def decide_def database_row_matches_def sample_database_def meta_def asks_def)
  then show ?thesis
    using database_sync_implements_decision [OF sample_schema_tables sample_clock, of sample_database _
        "world_of mine_cluster" _ sample_admin 1]
    by (fastforce simp: sample_database_def meta_def world_of_def reported_def)
qed

section \<open>Progress\<close>

text \<open>The schema is there as the specification asks, and the row says whose it is.\<close>

definition meets :: "DatabaseSpec \<Rightarrow> DatabaseSchema \<Rightarrow> bool" where
  "meets spec r \<longleftrightarrow> \<not> asks (ds_CharacterSet spec) (sch_DefaultCharacterSet r) \<and>
     \<not> asks (ds_Collate spec) (sch_DefaultCollation r)"

definition settled ::
  "'s schemata \<Rightarrow> 's database_rows \<Rightarrow> Database \<Rightarrow> 's \<Rightarrow> bool" where
  "settled schemas rows inst s \<longleftrightarrow>
     (\<exists>r. schemas s (ds_Name (db_Spec inst)) = Some r \<and> meets (db_Spec inst) r) \<and>
     rows s (om_UID (db_Meta inst)) = Some (managed_database inst)"

lemma settled_decision:
  "settled schemas rows inst s \<Longrightarrow>
     decide (schemas s (ds_Name (db_Spec inst))) (rows s (om_UID (db_Meta inst))) inst = KeepSchema"
  by (auto simp: settled_def decide_def meets_def database_row_matches_def managed_database_def)

text \<open>Neither the schema nor a row of the object is there.\<close>

definition unmade :: "'s schemata \<Rightarrow> 's database_rows \<Rightarrow> Database \<Rightarrow> 's \<Rightarrow> bool" where
  "unmade schemas rows inst s \<longleftrightarrow>
     schemas s (ds_Name (db_Spec inst)) = None \<and> rows s (om_UID (db_Meta inst)) = None"

text \<open>A server that accepts the object's \<open>CREATE\<close> and the managed row, and honours what the statement asks for.\<close>

definition accepts ::
  "'s env \<Rightarrow> 's schemata \<Rightarrow> 's database_rows \<Rightarrow> Database \<Rightarrow> bool" where
  "accepts E schemas rows inst \<longleftrightarrow>
     (\<forall>h s tx s'. schemas s (ds_Name (db_Spec inst)) = None \<longrightarrow>
        gorm_exec E h (create_database_stmt (db_Spec inst)) s = (tx, s') \<longrightarrow>
        tx_Error tx = None \<and> (\<exists>r. schemas s' (ds_Name (db_Spec inst)) = Some r \<and> meets (db_Spec inst) r)) \<and>
     (\<forall>h s. rows s (om_UID (db_Meta inst)) = None \<longrightarrow>
        tx_Error (fst (gorm_create_ManagedDatabase E h (managed_database inst) s)) = None)"

lemma settled_stable:
  assumes "schemata_server E schemas rows" and "\<And>e. P e \<Longrightarrow> \<not> changes_schemata e"
  shows "stable E P (settled schemas rows inst)"
  unfolding stable_def settled_def
  using server_reading [OF assms(1)] server_frame [OF assms(1) assms(2)] by simp

lemma databaseCreate_settles:
  assumes srv: "schemata_server E schemas rows" and acc: "accepts E schemas rows inst"
    and plain: "plain_spec (db_Spec inst)" and i: "same_database inst i"
  shows "leads (unmade schemas rows inst) (settled schemas rows inst) (databaseCreate E h i)"
proof -
  let ?n = "ds_Name (db_Spec inst)" and ?K = "settled schemas rows inst"
  let ?J = "\<lambda>s. (\<exists>r. schemas s ?n = Some r \<and> meets (db_Spec inst) r) \<and> rows s (om_UID (db_Meta inst)) = None"
  have i': "db_Spec i = db_Spec inst" "\<And>f. managed_database (set_db_status f i) = managed_database inst"
    "\<And>f g. managed_database (set_db_status f (set_db_status g i)) = managed_database inst"
    using i by (auto simp: same_database_def managed_database_def)
  have created: "\<exists>tx w'. perform (Exec h q) (gorm_exec E h q) w = Ret tx w' \<and> tx_Error tx = None \<and> ?J (ext w')"
    if "unmade schemas rows inst (ext w)" "q = create_database_stmt (db_Spec inst)" for w :: "'a world" and q
  proof -
    obtain tx s' where e: "gorm_exec E h q (ext w) = (tx, s')" by fastforce
    moreover have "tx_Error tx = None \<and> (\<exists>r. schemas s' ?n = Some r \<and> meets (db_Spec inst) r)"
      using acc e that unfolding accepts_def unmade_def by blast
    moreover have "rows s' = rows (ext w)"
      using server_create [OF srv plain] e that(2) by blast
    ultimately show ?thesis
      using that(1) by (simp add: perform_def unmade_def)
  qed
  have recorded: "leads ?J ?K (perform e (gorm_create_ManagedDatabase E g (managed_database inst)))" for e g
    unfolding leads_def perform_def
  proof (intro allI impI)
    fix w :: "'a world"
    assume J: "?J (ext w)"
    obtain tx s' where c: "gorm_create_ManagedDatabase E g (managed_database inst) (ext w) = (tx, s')"
      by fastforce
    moreover have "tx_Error tx = None"
      using acc c J by (metis accepts_def fst_conv)
    ultimately have "schemas s' = schemas (ext w)"
      "rows s' = (rows (ext w))(md_Uuid (managed_database inst) \<mapsto> managed_database inst)"
      using server_row_created [OF srv] by blast+
    moreover have "md_Uuid (managed_database inst) = om_UID (db_Meta inst)"
      by (simp add: managed_database_def)
    ultimately show "?K (ext (final_world (let (r, s) = gorm_create_ManagedDatabase E g (managed_database inst) (ext w)
        in Ret r (w\<lparr>ext := s, effects := effects w @ [e]\<rparr>))))"
      using J c by (simp add: settled_def)
  qed
  have quiet: "maintains ?K m"
    if "conducts E m" "emits (\<lambda>e. \<exists>g. e = Commit g) m" for m :: "('a world, 'b) go"
    by (rule conducts_maintains [OF that settled_stable [OF srv]]) auto
  have rest: "maintains ?K (go_bind (perform (Commit g) (gorm_commit E g)) (\<lambda>_. databaseExists E h j))" for g j
    by (intro quiet conducts_intros emits_intros) (auto intro: databaseExists_facts)
  show ?thesis
    unfolding databaseCreate_def Let_def
    apply (rule leads_known [OF created])
      apply assumption
     apply (simp add: i')
    apply (simp add: i' cong del: if_weak_cong)
    apply (rule leads_then [OF recorded rest])
    done
qed

text \<open>
  Progress. When neither the schema nor a row of the object exists and the server accepts the object's \<open>CREATE DATABASE\<close> and its row, a single
  pass of the working branch settles the object: the schema exists with the character set and the
  collation the object asks for, the managed row is the object's, and what is planned for the next pass is
  no statement at all.
\<close>

theorem database_sync_settles:
  assumes srv: "schemata_server E schemas rows" and acc: "accepts E schemas rows inst"
    and plain: "plain_spec (db_Spec inst)" and absent: "unmade schemas rows inst (ext w)"
    and s': "s' = ext (final_world (database_sync E adm h inst w))"
  shows "settled schemas rows inst s' \<and>
     planned (schemas s' (ds_Name (db_Spec inst))) (rows s' (om_UID (db_Meta inst))) inst = []"
proof -
  let ?K = "settled schemas rows inst" and ?J = "unmade schemas rows inst"
  have quiet: "maintains ?K m"
    if "conducts E m" "emits (\<lambda>e. \<exists>x. e = StatusDatabase x) m" for m :: "('a world, 'b) go"
    by (rule conducts_maintains [OF that settled_stable [OF srv]]) auto
  have clock: "maintains ?K (ask (now E))" and status: "maintains ?K (perform (StatusDatabase x) (k_status_Database E x))" for x
    by (intro quiet conducts_intros emits_intros; simp)+
  have align: "leads ?J ?K (database_align E h (database_observed adm t inst) False)" for t
    unfolding database_align_def
    by (simp, rule leads_then [OF databaseCreate_settles [OF srv acc plain]])
       (auto intro!: emits_intros clock)
  have exists: "\<exists>x w'. databaseExists E h inst v = Ret x w' \<and> x = (inst, False, None) \<and> ?J (ext w')"
    if "?J (ext v)" for v
    using that by (simp add: databaseExists_run [OF server_tables [OF srv]] unmade_def)
  have tick: "\<exists>x w'. ask (now E) v = Ret x w' \<and> True \<and> ?J (ext w')" if "?J (ext v)" for v :: "'a world"
    using that server_reading [OF srv reading.clock, of "ext v"]
    by (simp add: ask_def split_beta unmade_def)
  have "leads ?J ?K (database_sync E adm h inst)"
    unfolding database_sync_def
    by (rule leads_known [OF exists], assumption, simp, rule leads_known [OF tick], assumption,
        rule leads_then [OF align]) (auto intro!: emits_intros status)
  then have "?K s'"
    using absent by (simp add: leads_def s')
  moreover from settled_decision [OF this] have
    "planned (schemas s' (ds_Name (db_Spec inst))) (rows s' (om_UID (db_Meta inst))) inst = []"
    by (simp add: planned_def)
  ultimately show ?thesis ..
qed

lemma sample_accepts: "accepts sample_env schema_named database_row sample_database"
proof -
  have shop: "plain_name ''shop''" "ds_Name (db_Spec sample_database) = ''shop''"
    "ds_CharacterSet (db_Spec sample_database) = []" "ds_Collate (db_Spec sample_database) = []"
    by (simp_all add: plain_name_def sample_database_def)
  have "tx_Error tx = None \<and> (\<exists>r. schema_named s' ''shop'' = Some r)"
    if "create_schema ''shop'' s = (tx, s')" "schema_named s ''shop'' = None" for s tx s'
    using that by (auto simp: create_schema_def ok_def schema_named_def find_append)
  moreover have "tx_Error (fst (gorm_create_ManagedDatabase sample_env h (managed_database sample_database) s)) = None"
    if "database_row s (om_UID (db_Meta sample_database)) = None" for h s
    using that by (simp add: sample_env_def managed_database_def ok_def)
  ultimately show ?thesis
    by (auto simp: accepts_def shop exec_create meets_def asks_def)
qed

lemma database_sync_settles_witness:
  "settled schema_named database_row sample_database
     (ext (final_world (database_sync sample_env sample_admin 1 sample_database (world_of sample_cluster))))"
proof -
  have "unmade schema_named database_row sample_database (ext (world_of sample_cluster))"
    by (simp add: unmade_def world_of_def sample_cluster_def empty_cluster_def schema_named_def database_row_def)
  moreover have "plain_spec (db_Spec sample_database)"
    by (simp add: plain_spec_def plain_name_def plain_word_def sample_database_def)
  ultimately show ?thesis
    using database_sync_settles [OF sample_server sample_accepts] by blast
qed

end
