(* ===== verification/Watches.thy ===== *)
theory Watches
  imports Admin_Connection Sample_Cluster
begin

text \<open>
  The three functions that turn an event on one object into reconcile requests for others
  (\<open>findObjectsForAdminConnection\<close> of both controllers, \<open>findObjectsForDatabase\<close>). A failed
  \<open>List\<close> gives no request. The loop that both controllers run over their objects is the locale \<open>admin_watch\<close>.
\<close>

type_synonym request = NamespacedName

definition object_key :: "ObjectMeta \<Rightarrow> request" where
  "object_key m = \<lparr>nn_Namespace = om_Namespace m, nn_Name = om_Name m\<rparr>"

definition refers_to_admin :: "AdminConnectionRef \<Rightarrow> AdminConnection \<Rightarrow> bool" where
  "refers_to_admin ref adm \<longleftrightarrow>
     acr_Name ref = om_Name (ac_Meta adm) \<and> acr_Namespace ref = om_Namespace (ac_Meta adm)"

fun database_requests :: "AdminConnection \<Rightarrow> Database list \<Rightarrow> request list \<Rightarrow> request list" where
  "database_requests adm [] requests = requests"
| "database_requests adm (db # items) requests =
     (if refers_to_admin (ds_AdminConnection (db_Spec db)) adm
      then database_requests adm items (requests @ [object_key (db_Meta db)])
      else database_requests adm items requests)"

definition database_findObjectsForAdminConnection ::
  "'s env \<Rightarrow> AdminConnection \<Rightarrow> ('s world, request list) go" where
  "database_findObjectsForAdminConnection E adm =
     go_bind (ask (k_list_Databases E [])) (\<lambda>r.
     case r of Inl err \<Rightarrow> ret [] | Inr items \<Rightarrow> ret (database_requests adm items []))"

fun user_requests :: "AdminConnection \<Rightarrow> DatabaseUser list \<Rightarrow> request list \<Rightarrow> request list" where
  "user_requests adm [] requests = requests"
| "user_requests adm (dbUser # items) requests =
     (if refers_to_admin (us_AdminConnection (du_Spec dbUser)) adm
      then user_requests adm items (requests @ [object_key (du_Meta dbUser)])
      else user_requests adm items requests)"

definition user_findObjectsForAdminConnection ::
  "'s env \<Rightarrow> AdminConnection \<Rightarrow> ('s world, request list) go" where
  "user_findObjectsForAdminConnection E adm =
     go_bind (ask (k_list_DatabaseUsers E [])) (\<lambda>r.
     case r of Inl err \<Rightarrow> ret [] | Inr items \<Rightarrow> ret (user_requests adm items []))"

text \<open>The inner loop stops at the first permission that names the database.\<close>

fun permission_loop :: "string \<Rightarrow> request \<Rightarrow> DatabasePermission list \<Rightarrow> request list \<Rightarrow> request list" where
  "permission_loop name key [] requests = requests"
| "permission_loop name key (dbPerm # rest) requests =
     (if dp_Name dbPerm = name then requests @ [key] else permission_loop name key rest requests)"

fun grantee_requests :: "Database \<Rightarrow> DatabaseUser list \<Rightarrow> request list \<Rightarrow> request list" where
  "grantee_requests database [] requests = requests"
| "grantee_requests database (dbUser # items) requests =
     grantee_requests database items
       (permission_loop (om_Name (db_Meta database)) (object_key (du_Meta dbUser))
          (elems (us_DatabaseList (du_Spec dbUser))) requests)"

definition findObjectsForDatabase :: "'s env \<Rightarrow> Database \<Rightarrow> ('s world, request list) go" where
  "findObjectsForDatabase E database =
     go_bind (ask (k_list_DatabaseUsers E (om_Namespace (db_Meta database)))) (\<lambda>r.
     case r of Inl err \<Rightarrow> ret [] | Inr items \<Rightarrow> ret (grantee_requests database items []))"

section \<open>Which objects are enqueued\<close>

text \<open>The object that an object's reference stands for, by the rule of \<open>GetAdminConnection\<close>.\<close>

definition resolves_to :: "ObjectMeta \<Rightarrow> AdminConnectionRef \<Rightarrow> AdminConnection \<Rightarrow> bool" where
  "resolves_to m ref adm \<longleftrightarrow>
     acr_Name ref = om_Name (ac_Meta adm) \<and> admin_namespace (om_Namespace m) ref = om_Namespace (ac_Meta adm)"

text \<open>Both controllers watch the connections by the same loop over their own objects.\<close>

locale admin_watch =
  fixes requests :: "AdminConnection \<Rightarrow> 'o list \<Rightarrow> request list \<Rightarrow> request list"
    and meta_of :: "'o \<Rightarrow> ObjectMeta"
    and ref_of :: "'o \<Rightarrow> AdminConnectionRef"
  assumes requests_Nil: "requests adm [] reqs = reqs"
    and requests_Cons: "requests adm (x # items) reqs =
      requests adm items (if refers_to_admin (ref_of x) adm then reqs @ [object_key (meta_of x)] else reqs)"
begin

lemma requests_eq:
  "requests adm items reqs =
     reqs @ map (\<lambda>x. object_key (meta_of x)) (filter (\<lambda>x. refers_to_admin (ref_of x) adm) items)"
  by (induction items arbitrary: reqs) (auto simp: requests_Nil requests_Cons)

lemma requested_iff:
  assumes "inj_on (\<lambda>x. object_key (meta_of x)) (set items)" and "x \<in> set items"
    and "om_Namespace (ac_Meta adm) \<noteq> []"
  shows "object_key (meta_of x) \<in> set (requests adm items []) \<longleftrightarrow>
     resolves_to (meta_of x) (ref_of x) adm \<and> acr_Namespace (ref_of x) \<noteq> []"
proof -
  have "object_key (meta_of x) \<in> set (requests adm items []) \<longleftrightarrow> refers_to_admin (ref_of x) adm"
    using assms(1,2) by (auto simp: requests_eq dest: inj_onD)
  with assms(3) show ?thesis
    by (auto simp: refers_to_admin_def resolves_to_def admin_namespace_def)
qed

end

interpretation database_watch: admin_watch database_requests db_Meta "\<lambda>db. ds_AdminConnection (db_Spec db)"
  by unfold_locales simp_all

interpretation user_watch: admin_watch user_requests du_Meta "\<lambda>u. us_AdminConnection (du_Spec u)"
  by unfold_locales simp_all

lemma permission_loop_eq:
  "permission_loop n key ps reqs = (if \<exists>p \<in> set ps. dp_Name p = n then reqs @ [key] else reqs)"
  by (induction ps) auto

lemma grantee_requests_eq:
  "grantee_requests d items reqs =
     reqs @ map (\<lambda>u. object_key (du_Meta u))
       (filter (\<lambda>u. \<exists>p \<in> set (elems (us_DatabaseList (du_Spec u))). dp_Name p = om_Name (db_Meta d)) items)"
  by (induction items arbitrary: reqs) (auto simp: permission_loop_eq)

text \<open>
  C33: an event on an \<open>AdminConnection\<close> enqueues exactly those \<open>Database\<close> objects that resolve to it and also spell out its
  namespace. An object that leaves the namespace out resolves to a connection of its own namespace and
  is never enqueued for it.
\<close>

theorem database_watch_misses_defaulted:
  assumes "k_list_Databases E [] (ext w) = (Inr items, s)" and "db \<in> set items"
    and "inj_on (\<lambda>db. object_key (db_Meta db)) (set items)" and "om_Namespace (ac_Meta adm) \<noteq> []"
  shows "\<exists>reqs. database_findObjectsForAdminConnection E adm w = Ret reqs (w\<lparr>ext := s\<rparr>) \<and>
     (object_key (db_Meta db) \<in> set reqs \<longleftrightarrow>
        resolves_to (db_Meta db) (ds_AdminConnection (db_Spec db)) adm \<and>
        acr_Namespace (ds_AdminConnection (db_Spec db)) \<noteq> [])"
  using database_watch.requested_iff [OF assms(3,2,4)] assms(1)
  by (simp add: database_findObjectsForAdminConnection_def bind_ask)

lemma database_watch_misses_defaulted_witness:
  "\<exists>reqs. database_findObjectsForAdminConnection sample_env sample_admin (world_of sample_cluster) =
       Ret reqs (world_of sample_cluster) \<and> object_key (db_Meta sample_database) \<in> set reqs"
  using database_watch_misses_defaulted [of sample_env "world_of sample_cluster" "[sample_database]" sample_cluster
      sample_database sample_admin]
  by (simp add: sample_env_def world_of_def sample_cluster_def empty_cluster_def sample_admin_def meta_def
      sample_database_def resolves_to_def admin_namespace_def admin_ref_def)

text \<open>
  The same of \<open>DatabaseUser\<close> objects: exactly those that resolve to the connection and spell out its
  namespace are enqueued.
\<close>

theorem user_watch_misses_defaulted:
  assumes "k_list_DatabaseUsers E [] (ext w) = (Inr items, s)" and "u \<in> set items"
    and "inj_on (\<lambda>u. object_key (du_Meta u)) (set items)" and "om_Namespace (ac_Meta adm) \<noteq> []"
  shows "\<exists>reqs. user_findObjectsForAdminConnection E adm w = Ret reqs (w\<lparr>ext := s\<rparr>) \<and>
     (object_key (du_Meta u) \<in> set reqs \<longleftrightarrow>
        resolves_to (du_Meta u) (us_AdminConnection (du_Spec u)) adm \<and>
        acr_Namespace (us_AdminConnection (du_Spec u)) \<noteq> [])"
  using user_watch.requested_iff [OF assms(3,2,4)] assms(1)
  by (simp add: user_findObjectsForAdminConnection_def bind_ask)

lemma user_watch_misses_defaulted_witness:
  "\<exists>reqs. user_findObjectsForAdminConnection sample_env sample_admin (world_of sample_cluster) =
       Ret reqs (world_of sample_cluster) \<and> object_key (du_Meta sample_user) \<in> set reqs"
  using user_watch_misses_defaulted [of sample_env "world_of sample_cluster" "[sample_user]" sample_cluster
      sample_user sample_admin]
  by (simp add: sample_env_def world_of_def sample_cluster_def empty_cluster_def sample_admin_def meta_def
      sample_user_def resolves_to_def admin_namespace_def admin_ref_def)

text \<open>
  An event on a \<open>Database\<close> enqueues the users of its namespace that have a permission with its name: each of them once, in
  the order of the list, and no other; nothing when the list can not be read.
\<close>

theorem findObjectsForDatabase_grantees:
  "findObjectsForDatabase E database w =
     Ret (case fst (k_list_DatabaseUsers E (om_Namespace (db_Meta database)) (ext w)) of
            Inl e \<Rightarrow> []
          | Inr items \<Rightarrow> map (\<lambda>u. object_key (du_Meta u))
              (filter (\<lambda>u. \<exists>p \<in> set (elems (us_DatabaseList (du_Spec u))). dp_Name p = om_Name (db_Meta database)) items))
       (w\<lparr>ext := snd (k_list_DatabaseUsers E (om_Namespace (db_Meta database)) (ext w))\<rparr>)"
  by (simp add: findObjectsForDatabase_def bind_ask grantee_requests_eq split: sum.split)

end
