(* ===== verification/Startup.thy ===== *)
theory Startup
  imports Watches
begin

text \<open>
  \<open>main.go\<close> and the registration functions it calls: which events each controller listens to
  (\<open>SetupWithManager\<close> of the three reconcilers), the options of the manager, and the sequence of
  calls of \<open>main\<close>, of which the first one that fails ends the process. What a call does is the
  parameter \<open>does\<close>; parsing the command line is Go's \<open>flag\<close> package, so that the parsed values are an
  argument. Reading the cluster configuration (\<open>GetConfigOrDie\<close>) ends the process by itself and comes before the first call.
\<close>

section \<open>Controllers and their events\<close>

datatype controller = AdminConnectionReconciler | DatabaseReconciler | DatabaseUserReconciler

datatype event =
    AdminConnectionEvent AdminConnection
  | DatabaseEvent Database
  | DatabaseUserEvent DatabaseUser
  | SecretEvent Secret

text \<open>
  The requests that an event means for a controller: the object itself (\<open>For\<close>), the owner of a secret
  (\<open>Owns\<close>, found by controller-runtime: the parameter \<open>owner_of\<close>), or what the registered function maps
  the object to (\<open>Watches\<close>). A controller that did not register for a kind is not woken by it.
\<close>

fun admin_enqueued :: "event \<Rightarrow> ('s world, request list) go" where
  "admin_enqueued (AdminConnectionEvent a) = ret [object_key (ac_Meta a)]"
| "admin_enqueued _ = ret []"

fun database_enqueued :: "'s env \<Rightarrow> event \<Rightarrow> ('s world, request list) go" where
  "database_enqueued E (DatabaseEvent d) = ret [object_key (db_Meta d)]"
| "database_enqueued E (AdminConnectionEvent a) = database_findObjectsForAdminConnection E a"
| "database_enqueued E _ = ret []"

fun user_enqueued :: "'s env \<Rightarrow> (Secret \<Rightarrow> request list) \<Rightarrow> event \<Rightarrow> ('s world, request list) go" where
  "user_enqueued E owner_of (DatabaseUserEvent u) = ret [object_key (du_Meta u)]"
| "user_enqueued E owner_of (SecretEvent s) = ret (owner_of s)"
| "user_enqueued E owner_of (DatabaseEvent d) = findObjectsForDatabase E d"
| "user_enqueued E owner_of (AdminConnectionEvent a) = user_findObjectsForAdminConnection E a"

definition enqueued ::
  "'s env \<Rightarrow> (Secret \<Rightarrow> request list) \<Rightarrow> controller \<Rightarrow> event \<Rightarrow> ('s world, request list) go" where
  "enqueued E owner_of c ev =
     (case c of
        AdminConnectionReconciler \<Rightarrow> admin_enqueued ev
      | DatabaseReconciler \<Rightarrow> database_enqueued E ev
      | DatabaseUserReconciler \<Rightarrow> user_enqueued E owner_of ev)"

text \<open>Listening changes nothing: no event makes a request to the outside, and none can panic.\<close>

lemma enqueued_observes: "observes (enqueued E owner_of c ev)" "never_panics (enqueued E owner_of c ev)"
proof -
  have maps: "observes (database_findObjectsForAdminConnection E a)" "observes (user_findObjectsForAdminConnection E a)"
    "observes (findObjectsForDatabase E d)" for a d
    unfolding database_findObjectsForAdminConnection_def user_findObjectsForAdminConnection_def
      findObjectsForDatabase_def
    by (intro observesI emits_intros)+
  have calm: "never_panics (database_findObjectsForAdminConnection E a)"
    "never_panics (user_findObjectsForAdminConnection E a)" "never_panics (findObjectsForDatabase E d)" for a d
    unfolding database_findObjectsForAdminConnection_def user_findObjectsForAdminConnection_def
      findObjectsForDatabase_def
    by (intro emits_intros)+
  show "observes (enqueued E owner_of c ev)" "never_panics (enqueued E owner_of c ev)"
    using maps calm
    by (cases c; cases ev; simp add: enqueued_def observesI emits_intros)+
qed

section \<open>The options of the manager\<close>

record flags =
  metricsAddr :: string
  secureMetrics :: bool
  probeAddr :: string
  enableLeaderElection :: bool
  enableHTTP2 :: bool

definition default_flags :: flags where
  "default_flags = \<lparr>metricsAddr = '':8080'', secureMetrics = False, probeAddr = '':8081'',
     enableLeaderElection = False, enableHTTP2 = False\<rparr>"

text \<open>What the TLS option makes of the protocols of a server.\<close>

definition disableHTTP2 :: "bool \<Rightarrow> string list \<Rightarrow> string list" where
  "disableHTTP2 enabled NextProtos = (if enabled then NextProtos else [''http/1.1''])"

record manager_options =
  mo_MetricsBindAddress :: string
  mo_MetricsSecureServing :: bool
  mo_HealthProbeBindAddress :: string
  mo_LeaderElection :: bool
  mo_LeaderElectionID :: string
  mo_TLSOpts :: "string list \<Rightarrow> string list"

definition manager_options_of :: "flags \<Rightarrow> manager_options" where
  "manager_options_of fl =
     \<lparr>mo_MetricsBindAddress = metricsAddr fl, mo_MetricsSecureServing = secureMetrics fl,
      mo_HealthProbeBindAddress = probeAddr fl, mo_LeaderElection = enableLeaderElection fl,
      mo_LeaderElectionID = ''c5e62347.cuppett.dev'', mo_TLSOpts = disableHTTP2 (enableHTTP2 fl)\<rparr>"

section \<open>The main function\<close>

datatype startup_call =
    NewManager manager_options
  | SetupController controller
  | SetupWebhook
  | AddHealthzCheck string
  | AddReadyzCheck string
  | StartManager

text \<open>The calls in the order of the code, each with the message it logs when it fails.\<close>

definition main_calls :: "flags \<Rightarrow> (startup_call \<times> string) list" where
  "main_calls fl =
     [(NewManager (manager_options_of fl), ''unable to start manager''),
      (SetupController DatabaseReconciler, ''unable to create controller''),
      (SetupWebhook, ''unable to create webhook''),
      (SetupController DatabaseUserReconciler, ''unable to create controller''),
      (SetupController AdminConnectionReconciler, ''unable to create controller''),
      (AddHealthzCheck ''health'', ''unable to set up health check''),
      (AddReadyzCheck ''check'', ''unable to set up ready check''),
      (StartManager, ''problem running manager'')]"

text \<open>A failed call logs its message and exits with status 1; the calls that were made come first.\<close>

datatype exit = Returned | Exit1 string

fun run_calls ::
  "(startup_call \<Rightarrow> 's \<Rightarrow> error option \<times> 's) \<Rightarrow> (startup_call \<times> string) list \<Rightarrow> 's \<Rightarrow>
     startup_call list \<times> exit \<times> 's"
where
  "run_calls does [] s = ([], Returned, s)"
| "run_calls does ((c, message) # cs) s =
     (case does c s of
        (Some err, s) \<Rightarrow> ([c], Exit1 message, s)
      | (None, s) \<Rightarrow> (let (made, x, s) = run_calls does cs s in (c # made, x, s)))"

definition main ::
  "(startup_call \<Rightarrow> 's \<Rightarrow> error option \<times> 's) \<Rightarrow> flags \<Rightarrow> 's \<Rightarrow> startup_call list \<times> exit \<times> 's" where
  "main does fl s = run_calls does (main_calls fl) s"

text \<open>What was made is a beginning of the list; all of it when the last call was reached.\<close>

lemma run_calls_prefix:
  "run_calls does cs s = (made, x, s') \<Longrightarrow>
     prefix made (map fst cs) \<and> (x = Returned \<longrightarrow> made = map fst cs) \<and>
     (\<forall>m. x = Exit1 m \<longrightarrow> made \<noteq> [] \<and> (last made, m) \<in> set cs)"
proof (induction cs arbitrary: s made x s')
  case (Cons call cs)
  obtain c message r t where call: "call = (c, message)" and d: "does c s = (r, t)" by (metis surj_pair)
  show ?case
  proof (cases r)
    case None
    obtain made' x' t' where rest: "run_calls does cs t = (made', x', t')" by (metis surj_pair)
    have "made = c # made'" "x = x'" using Cons.prems call d None rest by auto
    with Cons.IH [OF rest] call show ?thesis by auto
  qed (use Cons.prems call d in auto)
qed simp

text \<open>
  \<open>init\<close>, which Go runs before \<open>main\<close>: the types of Kubernetes and those of the operator are added to the scheme, and
  \<open>utilruntime.Must\<close> panics with the error of the first addition that fails (\<open>Some\<close>).
\<close>

datatype scheme_types = ClientGoTypes | MysqlTypes

definition scheme_init :: "(scheme_types \<Rightarrow> 's \<Rightarrow> error option \<times> 's) \<Rightarrow> 's \<Rightarrow> error option \<times> 's" where
  "scheme_init AddToScheme scheme =
     (case AddToScheme ClientGoTypes scheme of
        (Some err, scheme) \<Rightarrow> (Some err, scheme)
      | (None, scheme) \<Rightarrow> AddToScheme MysqlTypes scheme)"

text \<open>
  No request is reconciled by an operator that is set up in part: the manager is started only after every
  controller, the webhook and both checks have been registered, and a process whose setup fails exits
  with the message of the call that failed.
\<close>

theorem main_starts_complete:
  assumes "main does fl s = (made, x, s')" and "StartManager \<in> set made"
  shows "made = map fst (main_calls fl)"
proof -
  have "prefix made (map fst (main_calls fl))"
    using run_calls_prefix [of does "main_calls fl" s made x s'] assms(1) by (simp add: main_def)
  then show ?thesis
    using assms(2) by (auto simp: main_calls_def prefix_Cons)
qed

lemma main_starts_complete_witness:
  "fst (main (\<lambda>c s. (None, s)) default_flags ()) = map fst (main_calls default_flags)"
proof -
  have "main (\<lambda>c s. (None, s)) default_flags () = (map fst (main_calls default_flags), Returned, ())"
    by (simp add: main_def main_calls_def)
  moreover from main_starts_complete [OF this] have "fst (map fst (main_calls default_flags), Returned, ()) =
      map fst (main_calls default_flags)"
    by (simp add: main_calls_def)
  ultimately show ?thesis by simp
qed

end
