(* ===== verification/User_Correct.thy ===== *)
theory User_Correct
  imports Exact_Records Connection_Correct
begin

text \<open>
  Properties of the \<open>DatabaseUser\<close> reconciler: what a pass may do, the order of its phases, the end of an
  object, the statements it builds and its errors and panics.
\<close>

section \<open>Confinement\<close>

text \<open>
  C6: whatever the outside answers, and whether the pass returns or panics, the only requests of a pass over a
  \<open>DatabaseUser\<close> are those that connecting needs and those in \<open>user_effect\<close>: statements for the two names of the
  object (before deletion only once the name is claimed in the status and the finalizer is in place; \<open>DROP USER\<close> only when it is
  marked for deletion and has the finalizer), rows with the object's UID, the creation of the secret that the object's
  identification names, with one generated value under the key it names, an update of a secret that sets the object as the controller of
  what the API server answered for that very name in the object's namespace, updates of the object's status, and updates of the object that
  add the finalizer or, at its end, remove it.
\<close>

theorem user_Reconcile_confined:
  assumes "k_get_DatabaseUser E req (ext w) = (Inr inst, s)"
  shows "\<exists>es. effects (final_world (user_Reconcile E req w)) = effects w @ es \<and>
     list_all (\<lambda>e. connection_effect e \<or> user_effect E inst e) es"
proof -
  let ?P = "\<lambda>e. connection_effect e \<or> user_effect E inst e"
  have "emits ?P (go_bind (resolve_admin E (om_Namespace (du_Meta inst)) (us_AdminConnection (du_Spec inst)))
      (\<lambda>(adm, d, err). user_pass E inst adm d err))"
    by (intro emits_intros emits_mono [OF resolve_admin_emits] emits_mono [OF user_pass_emits]) auto
  from emitsD [OF this, of "w\<lparr>ext := s\<rparr>"] show ?thesis
    using assms by (simp add: user_Reconcile_def bind_ask)
qed

lemma sample_user_lookup:
  "k_get_DatabaseUser sample_env \<lparr>nn_Namespace = ''tenant1'', nn_Name = ''alice''\<rparr> sample_cluster =
     (Inr sample_user, sample_cluster)"
  by (simp add: sample_env_def sample_cluster_def empty_cluster_def found_def keyed_def sample_user_def meta_def)

lemma user_Reconcile_confined_witness:
  "\<exists>es. effects (final_world (user_Reconcile sample_env \<lparr>nn_Namespace = ''tenant1'', nn_Name = ''alice''\<rparr>
       (world_of sample_cluster))) = es \<and>
     list_all (\<lambda>e. connection_effect e \<or> user_effect sample_env sample_user e) es"
  using user_Reconcile_confined [of sample_env _ "world_of sample_cluster", unfolded world_of_def world.select_convs,
      OF sample_user_lookup]
  by (simp add: world_of_def)

section \<open>The order of the phases\<close>

lemma steps_run:
  assumes "UserMine E h inst w = Ret mine w" and "secretOwnershipOk inst secret w = Ret owned w"
    and "status_username inst \<noteq> [] \<or> mine"
  shows "user_steps E h inst secret w =
     (if status_username inst = [] then user_claim_name E inst w
      else if \<not> owned then user_own_secret E inst secret w
      else if \<not> user_has_finalizer E inst then user_add_finalizer E inst w
      else user_sync E h inst secret w)"
  using assms by (auto simp: user_steps_def go_bind_def)

section \<open>The end of an object\<close>

text \<open>
  C21: for an object that is marked for deletion and has the finalizer, with a connection, the reconciler drops the account the
  status names and forgets the managed row exactly when the object may manage all its names, and in any case then writes
  the object without the finalizer; the result of the \<open>DROP\<close> is not looked at.
\<close>

theorem user_deletion_effects:
  assumes "user_has_finalizer E inst" and "account_tables_ok E h accounts rows"
  shows "\<exists>err w'. user_deletion E (Some a) (Some h) inst w = Ret err w' \<and>
     effects w' = effects w @
       (if \<forall>n \<in> set (user_names inst). user_owns accounts rows (ext w) inst zero_ManagedUser n
        then [Exec h (drop_user_stmt inst), DeleteManagedUser h (om_UID (du_Meta inst))] else []) @
       [UpdateDatabaseUser (user_release E inst)]"
  using user_end.flow_cases [OF assms(1), of a h w]
  by (simp only: UserMine_run [OF assms(2)] user_drops_def returned.simps option.inject simp_thms)

definition dying_user :: DatabaseUser where
  "dying_user = set_user_status (\<lambda>st. st\<lparr>ust_Username := ''alice''\<rparr>)
     (sample_user\<lparr>du_Meta := (meta ''tenant1'' ''alice'' ''U'')
        \<lparr>om_Finalizers := [userFinalizer], om_DeletionTimestamp := Some 5\<rparr>\<rparr>)"

lemma dying_user_facts:
  "user_has_finalizer sample_env dying_user" "user_deleted dying_user" "user_names dying_user = [''alice'']"
  by (simp_all add: user_has_finalizer_def sample_env_def dying_user_def meta_def user_deleted_def
      user_names_def set_user_status_def sample_user_def)

lemma user_deletion_effects_witness:
  "\<exists>err w'. user_deletion sample_env (Some sample_admin) (Some 1) dying_user (world_of sample_cluster) =
       Ret err w' \<and>
     effects w' = [Exec 1 (drop_user_stmt dying_user), DeleteManagedUser 1 ''U'',
       UpdateDatabaseUser (user_release sample_env dying_user)]"
  using user_deletion_effects [OF dying_user_facts(1) sample_account_tables, of sample_admin 1 "world_of sample_cluster"]
  by (simp add: dying_user_facts world_of_def user_owns_def account_named_def sample_cluster_def empty_cluster_def)
     (simp add: dying_user_def set_user_status_def meta_def)

text \<open>
  When the \<open>AdminConnection\<close> of a \<open>DatabaseUser\<close> that is marked for deletion is gone, every pass panics on a nil
  pointer before the finalizer is removed, and nothing is requested.
\<close>

theorem user_deletion_without_admin_panics:
  assumes "k_get_DatabaseUser E req (ext w) = (Inr inst, s)" and "user_has_finalizer E inst"
    and "user_deleted inst"
    and "k_get_AdminConnection E
      \<lparr>nn_Namespace = admin_namespace (om_Namespace (du_Meta inst)) (us_AdminConnection (du_Spec inst)),
       nn_Name = acr_Name (us_AdminConnection (du_Spec inst))\<rparr> s = (Inl e, s')"
    and "is_not_found E e"
  shows "user_Reconcile E req w = Panic NilDereference (w\<lparr>ext := s'\<rparr>)"
  using assms
  by (simp add: user_Reconcile_def bind_ask resolve_admin_def GetAdminConnection_def go_bind_assoc
      user_pass_def user_deleted_def user_end.no_admin_panics)

definition orphan_user_cluster :: cluster where
  "orphan_user_cluster = sample_cluster\<lparr>c_users := [dying_user], c_admins := []\<rparr>"

lemma user_deletion_without_admin_panics_witness:
  "user_Reconcile sample_env \<lparr>nn_Namespace = ''tenant1'', nn_Name = ''alice''\<rparr> (world_of orphan_user_cluster) =
     Panic NilDereference (world_of orphan_user_cluster)"
  using user_deletion_without_admin_panics [of sample_env
      "\<lparr>nn_Namespace = ''tenant1'', nn_Name = ''alice''\<rparr>" "world_of orphan_user_cluster" dying_user
      orphan_user_cluster "External ''NotFound''" orphan_user_cluster] dying_user_facts(1,2)
  by (simp add: world_of_def orphan_user_cluster_def)
     (simp add: sample_env_def found_def keyed_def dying_user_def set_user_status_def meta_def)

end
