(* ===== verification/User_Errors.thy ===== *)
theory User_Errors
  imports User_Correct
begin

text \<open>
  Errors and panics of the \<open>DatabaseUser\<close> reconciler: what becomes of an error of the branch that does the
  work, the nil pointers a specification or a secret can hand to the code, and the row that a rename before creation
  leaves behind.
\<close>

section \<open>The owner of the secret\<close>

text \<open>The first owner reference that decides: the object's, and not one that says it is no controller.\<close>

definition deciding_owner :: "uid \<Rightarrow> Secret \<Rightarrow> OwnerReference option" where
  "deciding_owner u s =
     (case om_OwnerReferences (sec_Meta s) of
        None \<Rightarrow> None
      | Some owners \<Rightarrow> find (\<lambda>owner. or_UID owner = u \<and> or_Controller owner \<noteq> Some False) owners)"

lemma owner_loop_eq:
  "owner_loop inst owners w =
     (case find (\<lambda>owner. or_UID owner = om_UID (du_Meta inst) \<and> or_Controller owner \<noteq> Some False) owners of
        None \<Rightarrow> Ret False w
      | Some owner \<Rightarrow> (if or_Controller owner = None then Panic NilDereference w else Ret True w))"
  by (induction owners) (auto simp: go_bind_def deref_def split: option.splits)

text \<open>
  The secret counts as owned exactly when there is none or when an owner reference with the object's UID is its
  controller. A reference with the object's UID whose optional field \<open>controller\<close> is absent is not
  skipped: when no controlling reference of the object comes before it, the check panics.
\<close>

theorem secretOwnershipOk_decides:
  "secretOwnershipOk inst secret w =
     (case secret of
        None \<Rightarrow> Ret True w
      | Some s \<Rightarrow>
          (case deciding_owner (om_UID (du_Meta inst)) s of
             None \<Rightarrow> Ret False w
           | Some owner \<Rightarrow> if or_Controller owner = None then Panic NilDereference w else Ret True w))"
  by (simp add: secretOwnershipOk_def deciding_owner_def owner_loop_eq split: option.splits)

section \<open>An identification without a password\<close>

lemma userDetailString_without_secret:
  assumes "us_Identification (du_Spec inst) = Some ident" and "id_AuthString ident = None"
  shows "userDetailString E inst None b = panics NilDereference"
  using assms by (simp add: userDetailString_def)

lemma userExists_run:
  assumes "account_tables_ok E h accounts rows"
  shows "accounts (ext w) (status_username inst) = None \<Longrightarrow> userExists E h inst w = Ret (inst, False, None) w"
    and "accounts (ext w) (status_username inst) = Some a \<Longrightarrow>
      \<exists>i. userExists E h inst w = Ret (i, True, None) w \<and> same_account inst i \<and>
        ust_Message (du_Status i) = ust_Message (du_Status inst)"
  by (simp_all add: userExists_def go_bind_def UserExists_run [OF assms] same_account_status)
     (simp add: set_user_status_def)

lemma user_sync_absent:
  assumes "account_tables_ok E h accounts rows" and "accounts (ext w) (status_username inst) = None"
  shows "user_sync E h inst secret w =
     go_bind (user_align E h inst secret False) (\<lambda>(inst, err).
       if err \<noteq> None then ret None
       else go_bind (perform (StatusDatabaseUser inst) (k_status_DatabaseUser E inst)) (\<lambda>_. ret None)) w"
  unfolding user_sync_def go_bind_def userExists_run(1) [OF assms] by simp

text \<open>
  A set up object whose specification asks for a plugin only (an identification without a password): while its account does not
  exist, a pass with a connection reads the resource version of a secret that is not there, and panics before any statement.
\<close>

lemma plugin_only_pass_panics:
  assumes "us_Identification (du_Spec inst) = Some ident" and "id_AuthString ident = None"
    and "user_ready E inst" and "account_tables_ok E h accounts rows"
    and "accounts (ext w) (status_username inst) = None"
  shows "user_pass E inst (Some adm) (Some h) err w = Panic NilDereference w"
proof -
  have "user_sync E h inst None w = Panic NilDereference w"
    unfolding user_sync_absent [OF assms(4,5)]
    by (simp add: user_align_def userCreate_def userDetailString_without_secret [OF assms(1,2)])
  with assms(1-3) show ?thesis
    by (simp add: user_pass_def user_ready_def user_deleted_def user_secret_def user_steps_def
        secretOwnershipOk_def)
qed

definition plugin_user :: DatabaseUser where
  "plugin_user = set_user_status (\<lambda>st. st\<lparr>ust_Username := ''alice''\<rparr>)
     (sample_user\<lparr>du_Meta := (meta ''tenant1'' ''alice'' ''U'')\<lparr>om_Finalizers := [userFinalizer]\<rparr>,
        du_Spec := (du_Spec sample_user)\<lparr>us_Identification := Some
          \<lparr>id_AuthPlugin = ''auth_socket'', id_AuthString = None, id_ClearText = True\<rparr>\<rparr>\<rparr>)"

lemma plugin_user_ready: "user_ready sample_env plugin_user"
  by (simp add: user_ready_def plugin_user_def set_user_status_def status_username_def user_deleted_def
      user_has_finalizer_def meta_def sample_env_def)

section \<open>Lost errors\<close>

text \<open>
  The branch that creates and updates the account never reports an error, for whatever reason it fails: the
  error variable is declared again inside the branch, so the controller runtime sees success and does
  not try again. The branch ends with nil or with the panic above.
\<close>

theorem user_sync_swallows_errors:
  "case user_sync E h inst secret w of Ret err w' \<Rightarrow> err = None | Panic p w' \<Rightarrow> True"
proof -
  have "yields (\<lambda>err. err = None) (user_sync E h inst secret)"
    unfolding user_sync_def by (intro yields_after yields_case_prod yields_if yields_ret) simp_all
  then show ?thesis by (simp add: yields_def)
qed

lemma runStmt_refused:
  "gorm_exec E h q (ext w) = (tx, s) \<Longrightarrow>
     runStmt E h q w = Ret (tx_Error tx) (w\<lparr>ext := s, effects := effects w @ [Exec h q]\<rparr>)"
  by (simp add: runStmt_def bind_perform)

text \<open>
  A \<open>CREATE USER\<close> that the server refuses leaves no trace: the pass returns nil, it writes no status, and no
  managed row is saved.
\<close>

theorem refused_create_is_lost:
  assumes "us_Identification (du_Spec inst) = None" and "account_tables_ok E h accounts rows"
    and "accounts (ext w) (status_username inst) = None"
    and "gorm_exec E h (create_user_stmt inst []) (ext w) = (tx, s)" and "tx_Error tx = Some e"
  shows "\<exists>w'. user_sync E h inst secret w = Ret None w' \<and>
     effects w' = effects w @ [Exec h (create_user_stmt inst [])]"
proof -
  have "userCreate E h inst secret w =
      Ret (inst, Some e) (w\<lparr>ext := s, effects := effects w @ [Exec h (create_user_stmt inst [])]\<rparr>)"
    using assms(1,5) runStmt_refused [OF assms(4)]
    by (simp add: userCreate_def userDetailString_def) (simp add: go_bind_def)
  then show ?thesis
    unfolding user_sync_absent [OF assms(2,3)]
    by (simp add: user_align_def go_bind_def ask_def split_beta)
qed

text \<open>A server that accepts no statement, for the witness.\<close>

definition read_only_env :: "cluster env" where
  "read_only_env = sample_env\<lparr>gorm_exec := \<lambda>h q s. refused s\<rparr>"

lemma read_only_tables: "account_tables_ok read_only_env h account_named user_row"
  using sample_account_tables by (simp add: account_tables_ok_def read_only_env_def)

definition claimed_user :: DatabaseUser where
  "claimed_user = set_user_status (\<lambda>st. st\<lparr>ust_Username := ''alice''\<rparr>) sample_user"

lemma refused_create_is_lost_witness:
  "\<exists>w'. user_sync read_only_env 1 claimed_user None (world_of sample_cluster) = Ret None w' \<and>
     effects w' = [Exec 1 (create_user_stmt claimed_user [])]"
  using refused_create_is_lost [OF _ read_only_tables, of claimed_user "world_of sample_cluster" 1
      "\<lparr>tx_DB = 1, tx_Error = Some (External ''refused'')\<rparr>" sample_cluster "External ''refused''" None]
  by (simp add: read_only_env_def refused_def world_of_def account_named_def claimed_user_def sample_user_def
      set_user_status_def sample_cluster_def empty_cluster_def)

section \<open>A new name before the account exists\<close>

text \<open>
  \<open>userCreate\<close> creates the account under the recorded name but saves the row under the specified name. If the two
  differ, the row of the operator's own account does not match it: the object may not manage its account, and the working branch only
  says so.
\<close>

lemma set_user_status_message: "ust_Message (du_Status (user_message m i)) = m"
  by (simp add: user_message_def set_user_status_def)

lemma disowned:
  assumes "account_tables_ok E h accounts rows" and "spec_username inst \<noteq> status_username inst"
    and "status_username inst \<noteq> []" and "accounts (ext w) (status_username inst) = Some a"
    and "rows (ext w) (om_UID (du_Meta inst)) = Some (managed_user inst)"
  shows "UserMine E h inst w = Ret False w"
proof -
  have "status_username inst \<in> set (user_names inst)"
    using assms(3) by (auto simp: user_names_def status_username_def Let_def)
  moreover have "\<not> user_owns accounts rows (ext w) inst zero_ManagedUser (status_username inst)"
    using assms(2,4,5) by (simp add: user_owns_def user_row_matches_def managed_user_def)
  ultimately show ?thesis
    unfolding UserMine_run [OF assms(1)] by auto
qed

lemma disowned_sync:
  assumes "account_tables_ok E h accounts rows" and "spec_username inst \<noteq> status_username inst"
    and "status_username inst \<noteq> []" and "accounts (ext w) (status_username inst) = Some a"
    and "rows (ext w) (om_UID (du_Meta inst)) = Some (managed_user inst)"
  shows "\<exists>i. user_sync E h inst secret w = Ret None
       (w\<lparr>ext := after E (StatusDatabaseUser i) (ext w), effects := effects w @ [StatusDatabaseUser i]\<rparr>) \<and> same_account inst i \<and>
     ust_Message (du_Status i) = ''Ownership failed. Unable to update user.''"
proof -
  obtain i where i: "userExists E h inst w = Ret (i, True, None) w" "same_account inst i"
    using userExists_run(2) [OF assms(1,4)] by blast
  have same: "du_Meta i = du_Meta inst" "status_username i = status_username inst" "spec_username i = spec_username inst"
    "managed_user i = managed_user inst"
    using i(2) same_account_texts(6) [OF i(2)] by (simp_all add: same_account_def spec_username_def)
  have "UserMine E h i w = Ret False w"
    by (rule disowned [OF assms(1)]) (use assms(2-5) same in simp_all)
  then have "user_align E h i secret True w =
      Ret (user_message ''Ownership failed. Unable to update user.'' i, None) w"
    by (simp add: user_align_def go_bind_def)
  with i show ?thesis
    by (simp add: user_sync_def go_bind_def perform_def split_beta)
       (metis same_user_message(1) set_user_status_message)
qed

end
