(* ===== verification/Statement_Literals.thy ===== *)
theory Statement_Literals
  imports User_Correct
begin

text \<open>
  The statements of the \<open>DatabaseUser\<close> reconciler as the server's lexer sees them: \<open>literals\<close> reads all
  quoted literals of a statement, one after the other, by the rules of \<open>read_literal\<close>. The user names, the
  plugin and the password of an object may hold any bytes; they reach the server as they are and stay
  inside their quotes. The privileges of a permission are the one part that is not quoted.
\<close>

section \<open>All literals of a statement\<close>

lemma read_literal_shorter: "read_literal s = Some (v, r) \<Longrightarrow> length r < length s"
  by (induction s arbitrary: v r rule: read_literal.induct) (fastforce split: if_splits)+

lemma after_quote_length: "length (after_quote s) \<le> length s"
  unfolding after_quote_def by (metis diff_le_self le_trans length_dropWhile_le length_tl)

function literals :: "string \<Rightarrow> string list" where
  "literals stmt =
     (case read_literal (after_quote stmt) of None \<Rightarrow> [] | Some (v, rest) \<Rightarrow> v # literals rest)"
  by auto
termination
  by (relation "measure length")
     (auto dest!: read_literal_shorter intro: less_le_trans [OF _ after_quote_length])

declare literals.simps [simp del]

lemma after_quote_none: "CHR 0x27 \<notin> set s \<Longrightarrow> after_quote s = []"
  by (induction s) (auto simp: after_quote_def)

lemma literals_plain: "CHR 0x27 \<notin> set s \<Longrightarrow> literals s = []"
  by (simp add: literals.simps [of s] after_quote_none)

lemma literals_quoted:
  assumes "CHR 0x27 \<notin> set intro" and "ends_literal rest"
  shows "literals (intro @ quoted (Escape s) @ rest) = s # literals rest"
  using mysql_text.statement_value [OF assms, of s]
  by (subst literals.simps) (simp add: quoted_def)

lemma literals_quoted_last:
  "CHR 0x27 \<notin> set intro \<Longrightarrow> literals (intro @ quoted (Escape s)) = [s]"
  using literals_quoted [of "intro" "[]" s] by (simp add: ends_literal_def literals_plain)

lemma Escape_eq_Nil [simp]: "Escape s = [] \<longleftrightarrow> s = []"
  using mysql_text.encode_inject [of s "[]"] by auto

section \<open>Names\<close>

text \<open>
  The statements about an account name exactly the account of the object, whatever bytes are in its names:
  \<open>DROP USER\<close>, \<open>REVOKE\<close> and \<open>SHOW GRANTS\<close> have the recorded name as their one literal, and \<open>RENAME USER\<close> has
  the recorded and the specified name, in this order, as its only two.
\<close>

theorem statements_name_account:
  "literals (drop_user_stmt inst) = [status_username inst] \<and>
   literals (revoke_stmt inst) = [status_username inst] \<and>
   literals (show_grants_stmt inst) = [status_username inst] \<and>
   literals (rename_user_stmt inst) = [status_username inst, spec_username inst]"
proof -
  have "literals ('' TO '' @ quoted (Escape n)) = [n]" for n
    by (rule literals_quoted_last) simp
  moreover have "literals (rename_user_stmt inst) =
      status_username inst # literals ('' TO '' @ quoted (Escape (spec_username inst)))"
    unfolding rename_user_stmt_def by (rule literals_quoted) simp_all
  moreover have "literals (drop_user_stmt inst) = [status_username inst]"
    unfolding drop_user_stmt_def by (rule literals_quoted_last) simp
  moreover have "literals (revoke_stmt inst) = [status_username inst]"
    unfolding revoke_stmt_def by (rule literals_quoted_last) simp
  moreover have "literals (show_grants_stmt inst) = [status_username inst]"
    unfolding show_grants_stmt_def by (rule literals_quoted_last) simp
  ultimately show ?thesis by simp
qed

section \<open>Credentials\<close>

text \<open>The values an authentication clause carries.\<close>

definition credentials :: "string \<Rightarrow> string \<Rightarrow> string list" where
  "credentials authPlugin authString =
     (if authPlugin = [] then [] else [authPlugin]) @ (if authString = [] then [] else [authString])"

lemma literals_clause:
  "CHR 0x27 \<notin> set intro \<Longrightarrow> CHR 0x27 \<notin> set end \<Longrightarrow> ends_literal end \<Longrightarrow>
     literals (intro @ quoted (Escape s) @ end) = [s]"
  by (simp add: literals_quoted literals_plain)

lemma tls_fragment_plain: "CHR 0x27 \<notin> set (tls_fragment inst)" "ends_literal (tls_fragment inst)"
  by (simp_all add: tls_fragment_def)

lemma literals_identification:
  "literals (identification_fragment (Escape p) (Escape a) clear @ tls_fragment inst) = credentials p a"
proof -
  have auth: "literals ('' BY '' @ quoted (Escape a) @ tls_fragment inst) = [a]"
    "literals ('' AS '' @ quoted (Escape a) @ tls_fragment inst) = [a]"
    "literals ('' IDENTIFIED BY '' @ quoted (Escape a) @ tls_fragment inst) = [a]"
    "literals ('' IDENTIFIED BY PASSWORD '' @ quoted (Escape a) @ tls_fragment inst) = [a]"
    by (rule literals_clause, simp, rule tls_fragment_plain, rule tls_fragment_plain)+
  have plugin: "literals ('' IDENTIFIED WITH '' @ quoted (Escape p) @ rest) = p # literals rest"
    if "ends_literal rest" for rest
    by (rule literals_quoted [OF _ that]) simp
  show ?thesis
  proof (cases "p = []")
    case True
    then show ?thesis
      using auth(3,4) literals_plain [OF tls_fragment_plain(1)]
      by (simp add: identification_fragment_def credentials_def)
  next
    case False
    then show ?thesis
      using auth(1,2) plugin literals_plain [OF tls_fragment_plain(1)] tls_fragment_plain(2)
      by (simp add: identification_fragment_def credentials_def)
  qed
qed

lemma ends_literal_identification:
  "ends_literal (identification_fragment p a clear @ tls_fragment inst)"
  using tls_fragment_plain(2) by (simp add: identification_fragment_def)

text \<open>The two statements around any clause, and the clause that \<open>userDetailString\<close> builds for an object whose password can be read.\<close>

lemma literals_account:
  assumes "status_username i = n"
  shows "literals (create_user_stmt i (identification_fragment (Escape p) (Escape a) clear @ tls_fragment inst)) = n # credentials p a"
    and "literals (alter_user_stmt i (identification_fragment (Escape p) (Escape a) clear @ tls_fragment inst)) = n # credentials p a"
  unfolding create_user_stmt_def alter_user_stmt_def assms
  using literals_quoted [OF _ ends_literal_identification, of "''CREATE USER ''"]
    literals_quoted [OF _ ends_literal_identification, of "''ALTER USER ''"]
  by (simp_all add: literals_identification)

definition credentials_changed :: "DatabaseUser \<Rightarrow> Secret \<Rightarrow> Identification \<Rightarrow> bool" where
  "credentials_changed inst secret ident \<longleftrightarrow>
     ust_IdentificationResourceVersion (du_Status inst) \<noteq> om_ResourceVersion (sec_Meta secret) \<or> plugins_diff ident inst"

lemma userDetailString_clause:
  assumes "us_Identification (du_Spec inst) = Some ident" and "id_AuthString ident = Some src"
    and "k_get_Secret E \<lparr>nn_Namespace = om_Namespace (du_Meta inst), nn_Name = sel_Name (sks_SecretKeyRef src)\<rparr> (ext w) =
      (Inr x, s)" and "map_of (sec_Data x) (sel_Key (sks_SecretKeyRef src)) = Some password"
    and "b \<or> credentials_changed inst secret ident"
  shows "\<exists>i. userDetailString E inst (Some secret) b w = Ret (i,
     identification_fragment (Escape (id_AuthPlugin ident)) (Escape password) (id_ClearText ident) @ tls_fragment inst, None)
       (w\<lparr>ext := s\<rparr>) \<and> same_account inst i"
  using assms
  by (auto simp: userDetailString_def go_bind_Ret GetSecretRefValue_run Let_def credentials_changed_def same_account_status)

lemma identification_nonempty: "p \<noteq> [] \<or> a \<noteq> [] \<Longrightarrow> identification_fragment (Escape p) (Escape a) clear @ t \<noteq> []"
  by (simp add: identification_fragment_def)


text \<open>An object with a hostile name and a hostile password.\<close>

definition hostile_ident :: Identification where
  "hostile_ident = \<lparr>id_AuthPlugin = [], id_AuthString = Some \<lparr>sks_SecretKeyRef = \<lparr>sel_Name = ''key'', sel_Key = ''password''\<rparr>\<rparr>,
     id_ClearText = True\<rparr>"

definition hostile_user :: DatabaseUser where
  "hostile_user = set_user_status (\<lambda>st. st\<lparr>ust_Username := CHR 0x27 # ''; --''\<rparr>)
     (sample_user\<lparr>du_Spec := (du_Spec sample_user)\<lparr>us_Username := CHR 0x27 # ''; --'', us_Identification := Some hostile_ident\<rparr>\<rparr>)"

definition hostile_secret :: Secret where
  "hostile_secret = \<lparr>sec_Meta = meta ''tenant1'' ''key'' ''S'', sec_Data = [(''password'', CHR 0x5C # CHR 0x27 # ''x'')]\<rparr>"

lemma hostile_views:
  "us_Identification (du_Spec hostile_user) = Some hostile_ident"
  "id_AuthString hostile_ident = Some \<lparr>sks_SecretKeyRef = \<lparr>sel_Name = ''key'', sel_Key = ''password''\<rparr>\<rparr>"
  "id_AuthPlugin hostile_ident = []" "om_Namespace (du_Meta hostile_user) = ''tenant1''"
  "spec_username hostile_user = CHR 0x27 # ''; --''" "status_username hostile_user = CHR 0x27 # ''; --''"
  "map_of (sec_Data hostile_secret) ''password'' = Some (CHR 0x5C # CHR 0x27 # ''x'')"
  "credentials_changed hostile_user hostile_secret i"
  by (simp_all add: hostile_user_def hostile_ident_def hostile_secret_def set_user_status_def sample_user_def meta_def
      spec_username_def status_username_def credentials_changed_def)


section \<open>Privileges\<close>

definition escalation :: string where
  "escalation = ''all on *.* to '' @ CHR 0x27 # ''alice'' @ CHR 0x27 # '' with grant option -- ''"

lemma escalation_bytes:
  "list_all (\<lambda>c. of_char c < (128::nat)) escalation = True"
  "map ascii_upper escalation =
     ''ALL ON *.* TO '' @ CHR 0x27 # ''ALICE'' @ CHR 0x27 # '' WITH GRANT OPTION -- ''"
  by code_simp+

text \<open>
  C36: the privileges of a permission are put into the statement as they are, in upper case. An
  object whose list of privileges is the one text below and whose name is \<open>ALICE\<close> makes the operator run a statement that
  grants everything on the whole server, to whatever schema the permission refers: what follows is a comment.
\<close>

theorem grant_escalates:
  assumes "dp_Grants permission = Some [escalation]"
  shows "prefix (''GRANT ALL ON *.* TO '' @ CHR 0x27 # ''ALICE'' @ CHR 0x27 # '' WITH GRANT OPTION -- '')
     (grant_stmt E inst permission schema)"
proof -
  have "ToUpper E escalation = ''ALL ON *.* TO '' @ CHR 0x27 # ''ALICE'' @ CHR 0x27 # '' WITH GRANT OPTION -- ''"
    unfolding ToUpper_def by (simp only: escalation_bytes simp_thms if_True)
  with assms show ?thesis
    by (simp add: grant_stmt_def)
qed

lemma grant_escalates_witness:
  "prefix (''GRANT ALL ON *.* TO '' @ CHR 0x27 # ''ALICE'' @ CHR 0x27 # '' WITH GRANT OPTION -- '')
     (grant_stmt sample_env sample_user \<lparr>dp_Name = ''mydb'', dp_Grants = Some [escalation]\<rparr> ''shop'')"
  by (rule grant_escalates) simp

end
