(* ===== verification/Grants_Correct.thy ===== *)
theory Grants_Correct
  imports Statement_Literals Foreign_Schemata Sample_Server
begin

text \<open>
  Privileges: what \<open>grantStatusUpdate\<close> makes of the server's answer, when \<open>userPermissions\<close> acts, and the plan
  of \<open>GRANT\<close> statements that \<open>grant\<close> implements.
\<close>

section \<open>Reading the grants\<close>

lemma contains_iff [simp]: "contains xs x \<longleftrightarrow> x \<in> set xs"
  by (induction xs) auto

text \<open>The reference: the texts of all rows but the first, and those of them that are new, each once, in their order.\<close>

definition shown :: "row list \<Rightarrow> string list" where
  "shown results = concat (map (map (\<lambda>(key, v). print_value v)) (tl results))"

fun fresh :: "string list \<Rightarrow> string list \<Rightarrow> string list" where
  "fresh seen [] = []"
| "fresh seen (g # gs) = (if g \<in> set seen then fresh seen gs else g # fresh (g # seen) gs)"

lemma fresh_cong: "set seen = set seen' \<Longrightarrow> fresh seen gs = fresh seen' gs"
proof (induction gs arbitrary: seen seen')
  case (Cons g gs)
  show ?case
    using Cons.prems Cons.IH [OF Cons.prems] Cons.IH [of "g # seen" "g # seen'"] by simp
qed simp

lemma set_fresh: "set (fresh seen gs) = set gs - set seen"
  by (induction gs arbitrary: seen) auto

lemma fresh_Nil: "fresh seen gs = [] \<longleftrightarrow> set gs \<subseteq> set seen"
  by (simp add: set_empty [symmetric] set_fresh del: set_empty)

lemma distinct_fresh: "distinct (fresh seen gs)"
  by (induction gs arbitrary: seen) (auto simp: set_fresh)

lemma fresh_append: "fresh seen (xs @ ys) = fresh seen xs @ fresh (seen @ xs) ys"
proof (induction xs arbitrary: seen)
  case (Cons x xs)
  have "fresh (x # seen @ xs) ys = fresh (seen @ x # xs) ys"
    by (rule fresh_cong) auto
  moreover have "fresh (seen @ xs) ys = fresh (seen @ x # xs) ys" if "x \<in> set seen"
    using that by (intro fresh_cong) auto
  ultimately show ?case using Cons.IH by simp
qed simp

definition with_fresh :: "string slice \<times> bool \<Rightarrow> string list \<Rightarrow> string slice \<times> bool" where
  "with_fresh acc gs =
     (let new = fresh (elems (fst acc)) gs
      in (if new = [] then fst acc else Some (elems (fst acc) @ new), snd acc \<or> new \<noteq> []))"

lemma with_fresh_Nil [simp]: "with_fresh acc [] = acc"
  by (simp add: with_fresh_def)

lemma with_fresh_append: "with_fresh (with_fresh acc xs) ys = with_fresh acc (xs @ ys)"
proof -
  have "fresh (elems (fst acc) @ fresh (elems (fst acc)) xs) ys = fresh (elems (fst acc) @ xs) ys"
    by (rule fresh_cong) (auto simp: set_fresh)
  moreover have "fresh (elems (fst acc) @ xs) ys = fresh (elems (fst acc)) ys"
    if "fresh (elems (fst acc)) xs = []"
    using that by (intro fresh_cong) (auto simp: fresh_Nil)
  ultimately show ?thesis by (auto simp: with_fresh_def Let_def fresh_append)
qed

lemma with_fresh_Cons:
  "with_fresh (grants, update) (v # vs) =
     with_fresh (if v \<in> set (elems grants) then (grants, update) else (Some (elems grants @ [v]), True)) vs"
proof -
  have "with_fresh (grants, update) [v] =
      (if v \<in> set (elems grants) then (grants, update) else (Some (elems grants @ [v]), True))"
    by (simp add: with_fresh_def)
  with with_fresh_append [of "(grants, update)" "[v]" vs] show ?thesis by simp
qed

lemma row_loop_eq: "row_loop row acc = with_fresh acc (map (\<lambda>(key, v). print_value v) row)"
  by (induction row acc rule: row_loop.induct) (simp_all add: with_fresh_Cons)

lemma rows_loop_later: "i > 0 \<Longrightarrow>
   rows_loop i rows acc = with_fresh acc (concat (map (map (\<lambda>(key, v). print_value v)) rows))"
  by (induction rows arbitrary: i acc) (simp_all add: row_loop_eq with_fresh_append)

lemma rows_loop_eq: "rows_loop 0 results acc = with_fresh acc (shown results)"
  by (cases results) (simp_all add: rows_loop_later shown_def)

text \<open>
  \<open>grantStatusUpdate\<close> takes over from \<open>SHOW GRANTS\<close> every text of every row but the first that the list does not have yet,
  once each and in the order of the answer, keeps what the list had, and reports a change exactly when there was such a
  text. A list that gets nothing stays the slice it was, nil included. When the query fails the list stays, and the
  error is returned.
\<close>

theorem grantStatusUpdate_merges:
  "grantStatusUpdate E h inst emptied w =
     (let start = (if emptied then Some [] else ust_Grants (du_Status inst));
          ((results, err), s) = gorm_raw_scan E h (show_grants_stmt inst) (ext w);
          new = (if err = None then fresh (elems start) (shown results) else []);
          grants = (if new = [] then start else Some (elems start @ new))
      in Ret (set_user_status (\<lambda>st. st\<lparr>ust_Grants := grants\<rparr>) inst, new \<noteq> [], err) (w\<lparr>ext := s\<rparr>))"
proof -
  obtain results err s where raw: "gorm_raw_scan E h (show_grants_stmt inst) (ext w) = ((results, err), s)"
    by (metis surj_pair)
  have same: "show_grants_stmt (set_user_status (\<lambda>st. st\<lparr>ust_Grants := g\<rparr>) inst) = show_grants_stmt inst" for g
    by (simp add: show_grants_stmt_def status_username_def set_user_status_def)
  have status: "du_Status (set_user_status f i) = f (du_Status i)"
    "set_user_status f (set_user_status g i) = set_user_status (\<lambda>st. f (g st)) i" for f g i
    by (simp_all add: set_user_status_def)
  have old: "set_user_status (\<lambda>st. st\<lparr>ust_Grants := ust_Grants (du_Status inst)\<rparr>) inst = inst"
    by (simp add: set_user_status_def)
  show ?thesis
    by (cases emptied; cases err)
       (simp_all add: grantStatusUpdate_def bind_ask raw same rows_loop_eq with_fresh_def Let_def status old)
qed

lemma grantStatusUpdate_returns:
  "\<exists>grants update err s. grantStatusUpdate E h i False w =
     Ret (set_user_status (\<lambda>st. st\<lparr>ust_Grants := grants\<rparr>) i, update, err) (w\<lparr>ext := s\<rparr>)"
proof -
  obtain results err s where raw: "gorm_raw_scan E h (show_grants_stmt i) (ext w) = ((results, err), s)"
    by (metis surj_pair)
  have "set_user_status (\<lambda>st. st\<lparr>ust_Grants := ust_Grants (du_Status i)\<rparr>) i = i"
    by (simp add: set_user_status_def)
  then show ?thesis
    by (cases err)
       (auto simp: grantStatusUpdate_def bind_ask raw intro: exI [of _ "ust_Grants (du_Status i)"]
         split: prod.splits)
qed

section \<open>When permissions are changed\<close>

lemma nothing_new:
  assumes "gorm_raw_scan E h (show_grants_stmt inst) (ext w) = ((results, None), s)"
    and "set (shown results) \<subseteq> set (elems (ust_Grants (du_Status inst)))"
  shows "grantStatusUpdate E h inst False w = Ret (inst, False, None) (w\<lparr>ext := s\<rparr>)"
  using assms
  by (simp add: grantStatusUpdate_def bind_ask rows_loop_eq with_fresh_def fresh_Nil Let_def set_user_status_def)

text \<open>
  C31: \<open>userPermissions\<close> leaves an account alone when the server shows nothing that the status does not have and the permission
  lists agree. Privileges that somebody has revoked on the server are therefore not noticed: the hypothesis holds when the server
  shows none of the recorded ones.
\<close>

theorem recorded_grants_suffice:
  assumes "gorm_raw_scan E h (show_grants_stmt inst) (ext w) = ((results, None), s)"
    and "set (shown results) \<subseteq> set (elems (ust_Grants (du_Status inst)))" and "PermissionListEqual inst"
  shows "userPermissions E h inst w = Ret (inst, False, None) (w\<lparr>ext := s\<rparr>)"
  using nothing_new [OF assms(1,2)] assms(3) by (simp add: userPermissions_def go_bind_def)

definition granted_user :: DatabaseUser where
  "granted_user = set_user_status (\<lambda>st. st\<lparr>ust_Username := ''alice'', ust_Grants := Some [''GRANT ALL''],
     ust_DatabaseList := us_DatabaseList (du_Spec sample_user)\<rparr>) sample_user"

lemma recorded_grants_suffice_witness:
  "userPermissions sample_env 1 granted_user (world_of sample_cluster) =
     Ret (granted_user, False, None) (world_of sample_cluster)"
  using recorded_grants_suffice [of sample_env 1 granted_user "world_of sample_cluster"
      "[[(''Grants'', VString ''GRANT USAGE'')]]" sample_cluster]
  by (simp add: shown_def PermissionListEqual_def granted_user_def set_user_status_def sample_user_def
      sample_env_def sample_raw_def world_of_def sample_cluster_def empty_cluster_def show_grants_stmt_def)

section \<open>The plan of a grant\<close>

text \<open>
  What \<open>grant\<close> is to do, over the tables: one statement for each permission whose \<open>Database\<close> may be managed and has
  recorded its schema, in the order of the list, up to the first object that can not be read.
\<close>

definition may_grant :: "'s schemata \<Rightarrow> 's database_rows \<Rightarrow> 's \<Rightarrow> Database \<Rightarrow> bool" where
  "may_grant schemas rows s d \<longleftrightarrow>
     dst_Name (db_Status d) \<noteq> [] \<and>
     (schemas s (ds_Name (db_Spec d)) = None \<or>
      database_row_matches
        (case rows s (om_UID (db_Meta d)) of Some row \<Rightarrow> row | None \<Rightarrow> zero_ManagedDatabase) d)"

fun grant_plan ::
  "'s env \<Rightarrow> 's schemata \<Rightarrow> 's database_rows \<Rightarrow> DatabaseUser \<Rightarrow> 's \<Rightarrow> DatabasePermission list \<Rightarrow>
     string list \<times> error option"
where
  "grant_plan E schemas rows inst s [] = ([], None)"
| "grant_plan E schemas rows inst s (p # ps) =
     (case fst (k_get_Database E \<lparr>nn_Namespace = om_Namespace (du_Meta inst), nn_Name = dp_Name p\<rparr> s) of
        Inl e \<Rightarrow> ([], Some e)
      | Inr d \<Rightarrow>
          (let (stmts, err) = grant_plan E schemas rows inst s ps
           in ((if may_grant schemas rows s d then [grant_stmt E inst p (dst_Name (db_Status d))] else []) @ stmts,
               err)))"

text \<open>Reads and statements for the MySQL server change no \<open>Database\<close> object.\<close>

definition objects_apart :: "'s env \<Rightarrow> bool" where
  "objects_apart E \<longleftrightarrow>
     (\<forall>k s s'. reading E s s' \<longrightarrow> fst (k_get_Database E k s') = fst (k_get_Database E k s)) \<and>
     (\<forall>k h q s. fst (k_get_Database E k (snd (gorm_exec E h q s))) = fst (k_get_Database E k s))"

definition same_view :: "'s env \<Rightarrow> 's schemata \<Rightarrow> 's database_rows \<Rightarrow> 's \<Rightarrow> 's \<Rightarrow> bool" where
  "same_view E schemas rows s s' \<longleftrightarrow> same_schemata schemas rows s s' \<and>
     (\<forall>k. fst (k_get_Database E k s') = fst (k_get_Database E k s))"

lemma grant_plan_cong:
  "same_view E schemas rows s s' \<Longrightarrow>
     grant_plan E schemas rows inst s' ps = grant_plan E schemas rows inst s ps"
  by (induction ps) (auto simp: same_view_def same_schemata_def may_grant_def split: sum.splits)

lemma same_view_steps:
  assumes "schemata_frame E schemas rows" and "objects_apart E"
  shows "reading E s s' \<Longrightarrow> same_view E schemas rows s s'"
    and "same_view E schemas rows s (snd (gorm_exec E h (grant_stmt E inst p sch) s))"
proof -
  have "\<not> changes_schemata (Exec h (grant_stmt E inst p sch))"
    using grant_stmt_intro [of E inst p sch] by (auto simp: changes_schemata_def)
  then have "same_schemata schemas rows s (after E (Exec h (grant_stmt E inst p sch)) s)"
    using assms(1) unfolding schemata_frame_def by blast
  then show "same_view E schemas rows s (snd (gorm_exec E h (grant_stmt E inst p sch) s))"
    using assms(2) by (simp add: same_view_def objects_apart_def)
  show "reading E s s' \<Longrightarrow> same_view E schemas rows s s'"
    using assms by (simp add: same_view_def objects_apart_def schemata_frame_def)
qed

lemma grant_loop_plan:
  assumes "schemata_frame E schemas rows" and "objects_apart E"
  shows "\<exists>w'. grant_loop E h inst ps w = Ret (snd (grant_plan E schemas rows inst (ext w) ps)) w' \<and>
     effects w' = effects w @ map (Exec h) (fst (grant_plan E schemas rows inst (ext w) ps))"
proof (induction ps arbitrary: w)
  case Nil
  then show ?case by simp
next
  case (Cons p ps)
  have tables: "schema_tables_ok E h schemas rows" using assms(1) by (simp add: schemata_frame_def)
  let ?k = "\<lparr>nn_Namespace = om_Namespace (du_Meta inst), nn_Name = dp_Name p\<rparr>"
  obtain r s where get: "k_get_Database E ?k (ext w) = (r, s)" by fastforce
  have view: "same_view E schemas rows (ext w) s"
    using same_view_steps(1) [OF assms reading.get_Database, of "ext w" ?k] get by simp
  show ?case
  proof (cases r)
    case (Inl e)
    then show ?thesis using get by (simp add: bind_ask)
  next
    case (Inr d)
    let ?q = "grant_stmt E inst p (dst_Name (db_Status d))"
    let ?s = "if may_grant schemas rows (ext w) d then snd (gorm_exec E h ?q s) else s"
    let ?w = "w\<lparr>ext := ?s, effects := effects w @
        (if may_grant schemas rows (ext w) d then [Exec h ?q] else [])\<rparr>"
    have same: "may_grant schemas rows s d = may_grant schemas rows (ext w) d"
      using view by (simp add: may_grant_def same_view_def same_schemata_def)
    have "grant_loop E h inst (p # ps) w = grant_loop E h inst ps ?w"
      using get Inr same
      by (auto simp: bind_ask go_bind_Ret [OF DatabaseMine_run [OF tables]] may_grant_def runStmt_def
          go_bind_assoc bind_perform)
    moreover have "same_view E schemas rows (ext w) ?s"
      using view same_view_steps(2) [OF assms, of s h inst p "dst_Name (db_Status d)"]
      by (auto simp: same_view_def same_schemata_def)
    moreover obtain w' where
      "grant_loop E h inst ps ?w = Ret (snd (grant_plan E schemas rows inst (ext ?w) ps)) w'"
      "effects w' = effects ?w @ map (Exec h) (fst (grant_plan E schemas rows inst (ext ?w) ps))"
      using Cons.IH by blast
    ultimately show ?thesis
      using get Inr grant_plan_cong [of E schemas rows "ext w" ?s inst ps]
      by (auto simp: split_beta Let_def)
  qed
qed

lemma grant_implements_plan_core:
  assumes "schemata_frame E schemas rows" and "objects_apart E"
    and "grant_plan E schemas rows inst (ext w) (elems (us_DatabaseList (du_Spec inst))) = (stmts, perr)"
  shows "\<exists>i update err w'. grant E h inst w = Ret (i, update, err) w' \<and>
     effects w' = effects w @ map (Exec h) stmts \<and>
     (case perr of
        Some e \<Rightarrow> i = inst \<and> \<not> update \<and> err = Some e
      | None \<Rightarrow> ust_DatabaseList (du_Status i) = us_DatabaseList (du_Spec inst))"
proof -
  obtain w1 where run: "grant_loop E h inst (elems (us_DatabaseList (du_Spec inst))) w = Ret perr w1"
    and es: "effects w1 = effects w @ map (Exec h) stmts"
    using grant_loop_plan [OF assms(1,2), of h inst "elems (us_DatabaseList (du_Spec inst))" w] assms(3) by auto
  let ?i = "set_user_status (\<lambda>st. st\<lparr>ust_DatabaseList := us_DatabaseList (du_Spec inst)\<rparr>) inst"
  obtain grants update err s where "grantStatusUpdate E h ?i False w1 =
      Ret (set_user_status (\<lambda>st. st\<lparr>ust_Grants := grants\<rparr>) ?i, update, err) (w1\<lparr>ext := s\<rparr>)"
    using grantStatusUpdate_returns [of E h ?i w1] by blast
  with run es show ?thesis
    by (cases perr) (auto simp: grant_def go_bind_def set_user_status_def)
qed

text \<open>
  C7: \<open>grant\<close> sends exactly the planned statements, in order: one for each permission whose \<open>Database\<close>, in the user's own
  namespace, may be managed by its object and has recorded its schema. What the server answers to them is not
  looked at. An object that can not be read ends the grant with that error, after the statements before it; otherwise the
  status takes over the permission list.
\<close>

theorem grant_implements_plan:
  assumes "schemata_frame E schemas rows" and "objects_apart E"
    and "grant_plan E schemas rows inst (ext w) (elems (us_DatabaseList (du_Spec inst))) = (stmts, perr)"
  shows "\<exists>i update err w'. grant E h inst w = Ret (i, update, err) w' \<and>
     effects w' = effects w @ map (Exec h) stmts \<and>
     (case perr of
        Some e \<Rightarrow> i = inst \<and> \<not> update \<and> err = Some e
      | None \<Rightarrow> ust_DatabaseList (du_Status i) = us_DatabaseList (du_Spec inst))"
  by (rule grant_implements_plan_core [OF assms])

lemma sample_objects_apart: "objects_apart sample_env"
proof -
  have "c_databases (snd (sample_exec h q s)) = c_databases s" for h q s
    by (simp add: sample_exec_def ok_def refused_def create_account_def rename_account_def create_schema_def
        split: option.splits prod.splits)
  then show ?thesis
    by (auto simp: objects_apart_def dest: sample_reading)
qed

definition shop_cluster :: cluster where
  "shop_cluster = sample_cluster\<lparr>c_databases :=
     [sample_database\<lparr>db_Status := (db_Status sample_database)\<lparr>dst_Name := ''shop''\<rparr>\<rparr>]\<rparr>"

lemma grant_implements_plan_witness:
  "\<exists>i update err w'. grant sample_env 1 granted_user (world_of shop_cluster) = Ret (i, update, err) w' \<and>
     effects w' = [Exec 1 (''GRANT ALL ON `shop`.* TO '' @ quoted ''alice'')]"
proof -
  have "grant_plan sample_env schema_named database_row granted_user (ext (world_of shop_cluster))
      (elems (us_DatabaseList (du_Spec granted_user))) =
      ([''GRANT ALL ON `shop`.* TO '' @ quoted ''alice''], None)"
    by (simp add: granted_user_def set_user_status_def sample_user_def world_of_def shop_cluster_def
        found_def keyed_def meta_def sample_database_def sample_cluster_def empty_cluster_def may_grant_def
        schema_named_def grant_stmt_def status_username_def quoted_def Escape_def escape_byte_def)
  from grant_implements_plan [OF sample_frame sample_objects_apart this, of 1] show ?thesis
    by (auto simp: world_of_def)
qed

section \<open>Revoking over and over\<close>

lemma grant_plan_same:
  assumes "same_account inst i"
  shows "grant_plan E schemas rows i s ps = grant_plan E schemas rows inst s ps"
proof -
  have eqs: "du_Meta i = du_Meta inst" "grant_stmt E i = grant_stmt E inst"
    using assms same_account_texts(5) [OF assms] by (simp_all add: same_account_def)
  show ?thesis
    by (induction ps) (simp_all only: grant_plan.simps eqs)
qed

lemma revoke_view:
  assumes "schemata_frame E schemas rows" and "objects_apart E"
  shows "same_view E schemas rows s (snd (gorm_exec E h (revoke_stmt inst) s))"
proof -
  have "\<not> changes_schemata (Exec h (revoke_stmt inst))"
    by (auto simp: changes_schemata_def revoke_stmt_def)
  then have "same_schemata schemas rows s (after E (Exec h (revoke_stmt inst)) s)"
    using assms(1) unfolding schemata_frame_def by blast
  then show ?thesis
    using assms(2) by (simp add: same_view_def objects_apart_def)
qed

text \<open>
  C32: a call of \<open>userPermissions\<close> for which there is nothing to do may still take everything away. When grants are recorded, the
  server shows nothing that is not among them, and their number is not the number of permissions (a permission for a \<open>Database\<close>
  that may not be managed gets no statement, and one statement may show up as several rows), then, even if the permissions are the
  ones that were granted, the call revokes everything from the account, and only if that succeeds and the grants can be read
  afterwards does it send the planned \<open>GRANT\<close> statements again; otherwise it sends nothing more.
\<close>

theorem unequal_counts_revoke_again:
  assumes frame: "schemata_frame E schemas rows" and apart: "objects_apart E"
    and shown: "gorm_raw_scan E h (show_grants_stmt inst) (ext w) = ((results, None), s)"
      "set (shown results) \<subseteq> set (elems (ust_Grants (du_Status inst)))"
    and counts: "elems (ust_Grants (du_Status inst)) \<noteq> []"
      "length (elems (ust_Grants (du_Status inst))) \<noteq> length (elems (us_DatabaseList (du_Spec inst)))"
    and revoked: "gorm_exec E h (revoke_stmt inst) s = (tx, s1)"
    and again: "gorm_raw_scan E h (show_grants_stmt inst) s1 = ((results', serr), s2)"
  shows "\<exists>i err w'. userPermissions E h inst w = Ret (i, True, err) w' \<and>
     effects w' = effects w @ Exec h (revoke_stmt inst) #
       (if tx_Error tx = None \<and> serr = None
        then map (Exec h) (fst (grant_plan E schemas rows inst (ext w) (elems (us_DatabaseList (du_Spec inst))))) else [])"
proof -
  let ?es = "effects w @ [Exec h (revoke_stmt inst)]"
  let ?i = "set_user_status (\<lambda>st. st\<lparr>ust_DatabaseList := Some []\<rparr>) inst"
  have start: "userPermissions E h inst w =
      go_bind (go_bind (revoke E h inst) (\<lambda>(inst, _, err). ret (inst, err))) (\<lambda>(inst, err).
        if err = None then go_bind (grant E h inst) (\<lambda>(inst, _, err). ret (inst, True, err)) else ret (inst, True, err))
      (w\<lparr>ext := s\<rparr>)"
    using counts nothing_new [OF shown] by (simp add: userPermissions_def go_bind_Ret PermissionListEqual_def)
  have rev: "revoke E h inst (w\<lparr>ext := s\<rparr>) =
      (case tx_Error tx of Some err \<Rightarrow> ret (inst, False, Some err) | None \<Rightarrow> grantStatusUpdate E h ?i True)
      (w\<lparr>ext := s1, effects := ?es\<rparr>)"
    using revoked by (simp add: revoke_def runStmt_def go_bind_assoc bind_perform)
  show ?thesis
  proof (cases "tx_Error tx")
    case (Some e)
    then show ?thesis
      using rev by (simp add: start go_bind_assoc) (simp add: go_bind_Ret)
  next
    case None
    have "show_grants_stmt ?i = show_grants_stmt inst"
      by (simp add: show_grants_stmt_def status_username_def set_user_status_def)
    then obtain g up where upd: "grantStatusUpdate E h ?i True (w\<lparr>ext := s1, effects := ?es\<rparr>) =
        Ret (set_user_status (\<lambda>st. st\<lparr>ust_Grants := g\<rparr>) ?i, up, serr) (w\<lparr>ext := s2, effects := ?es\<rparr>)"
      using grantStatusUpdate_merges [of E h ?i True "w\<lparr>ext := s1, effects := ?es\<rparr>"] again by (auto simp: Let_def)
    let ?j = "set_user_status (\<lambda>st. st\<lparr>ust_Grants := g\<rparr>) ?i"
    let ?w2 = "w\<lparr>ext := s2, effects := ?es\<rparr>"
    have j: "same_account inst ?j" by (simp add: same_account_status)
    have run: "userPermissions E h inst w =
        (if serr = None then go_bind (grant E h ?j) (\<lambda>(inst, _, err). ret (inst, True, err)) else ret (?j, True, serr)) ?w2"
      using rev None upd by (simp add: start go_bind_assoc) (simp add: go_bind_Ret)
    show ?thesis
    proof (cases serr)
      case Some
      with run \<open>tx_Error tx = None\<close> show ?thesis by simp
    next
      case None
      have "same_view E schemas rows (ext w) s" "same_view E schemas rows s1 s2" "same_view E schemas rows s s1"
        using same_view_steps(1) [OF frame apart reading.raw] shown(1) again revoke_view [OF frame apart, of s h inst] revoked
        by (metis snd_conv)+
      then have "same_view E schemas rows (ext w) s2"
        by (auto simp: same_view_def same_schemata_def)
      from grant_plan_cong [OF this] have plan: "grant_plan E schemas rows ?j (ext ?w2) ps = grant_plan E schemas rows inst (ext w) ps" for ps
        by (simp add: grant_plan_same [OF j])
      have spec: "du_Spec ?j = du_Spec inst" using j by (simp add: same_account_def)
      obtain stmts perr where st: "grant_plan E schemas rows ?j (ext ?w2) (elems (us_DatabaseList (du_Spec ?j))) = (stmts, perr)"
        by fastforce
      then have "fst (grant_plan E schemas rows inst (ext w) (elems (us_DatabaseList (du_Spec inst)))) = stmts"
        unfolding plan spec by simp
      with grant_implements_plan_core [OF frame apart st, of h] None \<open>tx_Error tx = None\<close> run show ?thesis
        by (auto simp: go_bind_Ret)
    qed
  qed
qed

definition twice_granted_user :: DatabaseUser where
  "twice_granted_user = set_user_status (\<lambda>st. st\<lparr>ust_Grants := Some [''GRANT ALL'', ''GRANT SELECT'']\<rparr>) granted_user"

lemma unequal_counts_revoke_again_witness:
  "\<exists>i err w'. userPermissions sample_env 1 twice_granted_user (world_of shop_cluster) = Ret (i, True, err) w' \<and>
     effects w' = [Exec 1 (revoke_stmt twice_granted_user), Exec 1 (''GRANT ALL ON `shop`.* TO '' @ quoted ''alice'')]"
proof -
  let ?u = twice_granted_user
  have ext: "ext (world_of shop_cluster) = shop_cluster" by (simp add: world_of_def)
  have raw: "gorm_raw_scan sample_env 1 (show_grants_stmt ?u) (ext (world_of shop_cluster)) = (([[(''Grants'', VString ''GRANT USAGE'')]], None), shop_cluster)"
    by (simp add: world_of_def sample_env_def sample_raw_def shop_cluster_def sample_cluster_def empty_cluster_def show_grants_stmt_def)
  have exec: "gorm_exec sample_env 1 (revoke_stmt ?u) shop_cluster = (\<lparr>tx_DB = 1, tx_Error = None\<rparr>, shop_cluster)"
    by (simp add: sample_exec_def ok_def revoke_stmt_def after_prefix_def literal_after_def shop_cluster_def sample_cluster_def empty_cluster_def)
  have plan: "grant_plan sample_env schema_named database_row ?u shop_cluster (elems (us_DatabaseList (du_Spec ?u))) =
      ([''GRANT ALL ON `shop`.* TO '' @ quoted ''alice''], None)"
    by (simp add: twice_granted_user_def granted_user_def set_user_status_def sample_user_def shop_cluster_def
        found_def keyed_def meta_def sample_database_def sample_cluster_def empty_cluster_def may_grant_def
        schema_named_def grant_stmt_def status_username_def quoted_def Escape_def escape_byte_def)
  have lists: "elems (ust_Grants (du_Status ?u)) = [''GRANT ALL'', ''GRANT SELECT'']" "length (elems (us_DatabaseList (du_Spec ?u))) = 1"
    by (simp_all add: twice_granted_user_def granted_user_def set_user_status_def sample_user_def)
  have shown: "set (shown [[(''Grants'', VString ''GRANT USAGE'')]]) \<subseteq> set (elems (ust_Grants (du_Status ?u)))"
    by (simp add: shown_def)
  have counts: "elems (ust_Grants (du_Status ?u)) \<noteq> []"
    "length (elems (ust_Grants (du_Status ?u))) \<noteq> length (elems (us_DatabaseList (du_Spec ?u)))"
    unfolding lists by simp_all
  from unequal_counts_revoke_again [OF sample_frame sample_objects_apart raw shown counts exec raw [unfolded ext]] show ?thesis
    unfolding ext plan by (simp add: world_of_def)
qed

end
