(* ===== verification/Foreign_Accounts.thy ===== *)
theory Foreign_Accounts
  imports Foreign_Schemata Sample_Server
begin

text \<open>
  Accounts that are not the object's: what the theorems take for granted of the accounts of a MySQL server
  (\<open>accounts_server\<close>), and that one pass over a \<open>DatabaseUser\<close> leaves every account alone that exists and is not
  the one its status and its managed row both name.
\<close>

section \<open>Accounts of a server\<close>

definition changes_accounts :: "effect \<Rightarrow> bool" where
  "changes_accounts e \<longleftrightarrow>
     (case e of
        Exec h q \<Rightarrow> prefix ''CREATE USER '' q \<or> prefix ''ALTER USER '' q \<or> prefix ''RENAME USER '' q \<or>
          prefix ''DROP USER '' q
      | SaveManagedUser h r \<Rightarrow> True
      | DeleteManagedUser h u \<Rightarrow> True
      | _ \<Rightarrow> False)"

type_synonym 's accounts = "'s \<Rightarrow> string \<Rightarrow> MySqlUser option"
type_synonym 's user_rows = "'s \<Rightarrow> uid \<Rightarrow> ManagedUser option"

text \<open>Only the statements for users, and the calls on their rows, change the two views.\<close>

definition accounts_frame :: "'s env \<Rightarrow> 's accounts \<Rightarrow> 's user_rows \<Rightarrow> bool" where
  "accounts_frame E accounts rows \<longleftrightarrow>
     (\<forall>h. account_tables_ok E h accounts rows) \<and>
     (\<forall>s s'. reading E s s' \<longrightarrow> accounts s' = accounts s \<and> rows s' = rows s) \<and>
     (\<forall>e s. \<not> changes_accounts e \<longrightarrow> accounts (after E e s) = accounts s \<and> rows (after E e s) = rows s)"

text \<open>
  \<open>CREATE USER\<close> and \<open>RENAME USER\<close> fail for a name that is taken; \<open>ALTER USER\<close> and \<open>DROP USER\<close> are about the
  account they name; the rows of the operator are no accounts.
\<close>

definition statements_ok :: "'s env \<Rightarrow> 's accounts \<Rightarrow> bool" where
  "statements_ok E accounts \<longleftrightarrow>
     (\<forall>h inst d s n a. details d \<longrightarrow> accounts s n = Some a \<longrightarrow>
        accounts (snd (gorm_exec E h (create_user_stmt inst d) s)) n = Some a) \<and>
     (\<forall>h inst d s n. details d \<longrightarrow> n \<noteq> status_username inst \<longrightarrow>
        accounts (snd (gorm_exec E h (alter_user_stmt inst d) s)) n = accounts s n) \<and>
     (\<forall>h inst s n a. n \<noteq> status_username inst \<longrightarrow> accounts s n = Some a \<longrightarrow>
        accounts (snd (gorm_exec E h (rename_user_stmt inst) s)) n = Some a) \<and>
     (\<forall>h inst s n. n \<noteq> status_username inst \<longrightarrow>
        accounts (snd (gorm_exec E h (drop_user_stmt inst) s)) n = accounts s n) \<and>
     (\<forall>h r s. accounts (snd (gorm_save_ManagedUser E h r s)) = accounts s) \<and>
     (\<forall>h u s. accounts (snd (gorm_delete_ManagedUser E h u s)) = accounts s)"

text \<open>The rows of the operator change by the calls on them and by no statement about users.\<close>

definition user_rows_ok :: "'s env \<Rightarrow> 's user_rows \<Rightarrow> bool" where
  "user_rows_ok E rows \<longleftrightarrow>
     (\<forall>h r s. rows (snd (gorm_save_ManagedUser E h r s)) \<in> {rows s, (rows s)(mu_Uuid r \<mapsto> r)}) \<and>
     (\<forall>h u s. rows (snd (gorm_delete_ManagedUser E h u s)) \<in> {rows s, (rows s)(u := None)}) \<and>
     (\<forall>h q s. changes_accounts (Exec h q) \<longrightarrow> rows (snd (gorm_exec E h q s)) = rows s)"

definition accounts_server :: "'s env \<Rightarrow> 's accounts \<Rightarrow> 's user_rows \<Rightarrow> bool" where
  "accounts_server E accounts rows \<longleftrightarrow>
     accounts_frame E accounts rows \<and> statements_ok E accounts \<and> user_rows_ok E rows"

lemma accounts_laws:
  assumes "accounts_server E accounts rows"
  shows "account_tables_ok E h accounts rows"
    and "reading E s s' \<Longrightarrow> accounts s' = accounts s \<and> rows s' = rows s"
    and "\<not> changes_accounts e \<Longrightarrow> accounts (after E e s) = accounts s \<and> rows (after E e s) = rows s"
    and "details d \<Longrightarrow> accounts s n = Some a \<Longrightarrow>
      accounts (snd (gorm_exec E h (create_user_stmt inst d) s)) n = Some a"
    and "details d \<Longrightarrow> n \<noteq> status_username inst \<Longrightarrow>
      accounts (snd (gorm_exec E h (alter_user_stmt inst d) s)) n = accounts s n"
    and "n \<noteq> status_username inst \<Longrightarrow> accounts s n = Some a \<Longrightarrow>
      accounts (snd (gorm_exec E h (rename_user_stmt inst) s)) n = Some a"
    and "n \<noteq> status_username inst \<Longrightarrow>
      accounts (snd (gorm_exec E h (drop_user_stmt inst) s)) n = accounts s n"
    and "accounts (snd (gorm_save_ManagedUser E h r s)) = accounts s"
    and "accounts (snd (gorm_delete_ManagedUser E h u s)) = accounts s"
    and "rows (snd (gorm_save_ManagedUser E h r s)) \<in> {rows s, (rows s)(mu_Uuid r \<mapsto> r)}"
    and "rows (snd (gorm_delete_ManagedUser E h u s)) \<in> {rows s, (rows s)(u := None)}"
    and "changes_accounts (Exec h q) \<Longrightarrow> rows (snd (gorm_exec E h q s)) = rows s"
  using assms by (simp_all add: accounts_server_def accounts_frame_def statements_ok_def user_rows_ok_def)

section \<open>An account that the status does not name\<close>

lemma other_statement:
  assumes srv: "accounts_server E accounts rows" and n: "n \<noteq> status_username inst"
    and q: "account_statement E inst q \<or> q = drop_user_stmt inst" and a: "accounts s n = Some a"
  shows "accounts (snd (gorm_exec E h q s)) n = Some a"
proof -
  have "\<not> changes_accounts (Exec h (revoke_stmt inst))"
    by (simp add: changes_accounts_def revoke_stmt_def)
  then have revoke: "accounts (snd (gorm_exec E h (revoke_stmt inst) s)) n = Some a"
    using accounts_laws(3) [OF srv, of "Exec h (revoke_stmt inst)" s] a by simp
  have "\<not> changes_accounts (Exec h (grant_stmt E inst p sch))" for p sch
    using grant_stmt_intro [of E inst p sch] by (auto simp: changes_accounts_def)
  then have grant: "accounts (snd (gorm_exec E h (grant_stmt E inst p sch) s)) n = Some a" for p sch
    using accounts_laws(3) [OF srv, of "Exec h (grant_stmt E inst p sch)" s] a by simp
  show ?thesis
    using q a n revoke grant unfolding account_statement_def
    by (elim disjE exE conjE) (simp_all add: accounts_laws [OF srv])
qed

lemma stable_other_account:
  assumes srv: "accounts_server E accounts rows" and n: "n \<noteq> status_username inst"
  shows "stable E (user_effect E inst) (\<lambda>s. accounts s n = Some a)"
proof -
  have "accounts (after E e s) n = Some a" if e: "user_effect E inst e" and a: "accounts s n = Some a" for e s
  proof (cases "changes_accounts e")
    case False
    then show ?thesis using accounts_laws(3) [OF srv] a by simp
  next
    case True
    then show ?thesis
      using e a other_statement [OF srv n _ a] accounts_laws(8,9) [OF srv]
      by (cases e) (auto simp: changes_accounts_def user_effect_def)
  qed
  then show ?thesis
    unfolding stable_def using accounts_laws(2) [OF srv] by simp
qed

section \<open>An account that is not the object's\<close>

text \<open>The account exists, and the row of the object does not make it the object's own.\<close>

definition not_owned ::
  "'s accounts \<Rightarrow> 's user_rows \<Rightarrow> DatabaseUser \<Rightarrow> string \<Rightarrow> MySqlUser \<Rightarrow> 's \<Rightarrow> bool" where
  "not_owned accounts rows inst n a s \<longleftrightarrow> accounts s n = Some a \<and>
     (\<forall>row. rows s (om_UID (du_Meta inst)) = Some row \<longrightarrow> \<not> user_row_matches row n inst)"

text \<open>A condition on the outside that looks at the two views only.\<close>

definition of_views :: "'s accounts \<Rightarrow> 's user_rows \<Rightarrow> ('s \<Rightarrow> bool) \<Rightarrow> bool" where
  "of_views accounts rows I \<longleftrightarrow> (\<forall>s s'. accounts s' = accounts s \<longrightarrow> rows s' = rows s \<longrightarrow> I s \<longrightarrow> I s')"

lemma of_views_not_owned: "of_views accounts rows (not_owned accounts rows inst n a)"
  by (simp add: of_views_def not_owned_def)

lemma stable_of_views:
  assumes "accounts_server E accounts rows" and "of_views accounts rows I"
    and "\<And>e. P e \<Longrightarrow> \<not> changes_accounts e"
  shows "stable E P I"
  unfolding stable_def using accounts_laws(2,3) [OF assms(1)] assms(2,3) unfolding of_views_def by metis

lemma UserMine_not_owned:
  assumes "account_tables_ok E h accounts rows" and "same_account inst i"
    and "n = status_username inst" and "n \<noteq> []" and "not_owned accounts rows inst n a (ext w)"
  shows "UserMine E h i w = Ret False w"
proof -
  have i: "du_Meta i = du_Meta inst" "ust_Username (du_Status i) = n"
    using assms(2,3) by (simp_all add: same_account_def status_username_def)
  have "n \<in> set (user_names i)"
    using i assms(4) by (auto simp: user_names_def Let_def)
  moreover have "\<not> user_owns accounts rows (ext w) i zero_ManagedUser n"
    using assms(4,5) i
    by (auto simp: user_owns_def not_owned_def user_row_matches_def zero_ManagedUser_def split: option.splits)
  ultimately show ?thesis
    unfolding UserMine_run [OF assms(1)] by auto
qed

definition object_effect :: "effect \<Rightarrow> bool" where
  "object_effect e \<longleftrightarrow>
     (case e of UpdateDatabaseUser i \<Rightarrow> True | StatusDatabaseUser i \<Rightarrow> True | UpdateSecret s \<Rightarrow> True
      | CreateSecret s \<Rightarrow> True | _ \<Rightarrow> False)"

lemma object_effects [simp]:
  "object_effect (UpdateDatabaseUser i)" "object_effect (StatusDatabaseUser i)"
  "object_effect (UpdateSecret s)" "object_effect (CreateSecret s)"
  by (simp_all add: object_effect_def)

lemma object_effect_quiet: "object_effect e \<Longrightarrow> \<not> changes_accounts e"
  by (cases e) (simp_all add: object_effect_def changes_accounts_def)

text \<open>
  The pass over an object whose account it may not manage: it is enough that the ownership check fails and the account is found
  whenever the condition \<open>I\<close> holds, and that writing to the API server keeps \<open>I\<close>.
\<close>

lemma user_pass_kept:
  assumes objects: "stable E object_effect I" and ne: "status_username inst \<noteq> []"
    and mine: "\<And>h i w. same_account inst i \<Longrightarrow> I (ext w) \<Longrightarrow> \<exists>b w'. UserMine E h i w = Ret b w' \<and> \<not> b \<and> I (ext w')"
    and known: "\<And>h w. I (ext w) \<Longrightarrow> \<exists>x w'. userExists E h inst w = Ret x w' \<and>
      (\<exists>i. x = (i, True, None) \<and> same_account inst i) \<and> I (ext w')"
  shows "maintains I (user_pass E inst adm d err)"
proof -
  have quiet: "maintains I m" if "emits object_effect m" "conducts E m" for m :: "('a world, 'b) go"
    by (rule conducts_maintains [OF that(2,1) objects])
  have release: "maintains I (update_released_user E inst)"
    unfolding update_released_user_def by (intro quiet emits_intros conducts_intros) simp
  have "maintains I (user_deletion E (Some a) (Some h) inst)" if "user_has_finalizer E inst" for a h
    unfolding user_end.flow_owner [OF that]
    by (rule maintains_bind_known [OF mine]) (auto intro: release)
  then have deletion: "maintains I (user_deletion E adm d inst)"
    by (cases "user_has_finalizer E inst"; cases adm; cases d)
       (auto simp: user_end.flow_skip user_end.flow_no_db user_end.flow_no_admin intro: release emits_intros)
  have status: "maintains I (perform (StatusDatabaseUser i) (k_status_DatabaseUser E i))" for i
    by (intro quiet emits_intros conducts_intros) simp
  have align: "maintains I (user_align E h i secret True)" if "same_account inst i" for h i secret
    unfolding user_align_def
    by (auto intro!: emits_intros maintains_bind_known [OF mine [OF that]])
  have sync: "maintains I (user_sync E h inst secret)" for h secret
    unfolding user_sync_def
    by (rule maintains_bind_known [OF known]) (auto intro!: emits_intros align status)
  have phases: "maintains I (user_own_secret E inst secret)" "maintains I (user_add_finalizer E inst)"
    "maintains I (secretOwnershipOk inst secret)" "maintains I (user_secret E inst)"
    "maintains I (user_unreachable E inst err)" for secret
    unfolding user_own_secret_def user_add_finalizer_def user_secret_def user_unreachable_def Let_def
    by (rule quiet; intro emits_intros conducts_intros createSecret_emits secretOwnershipOk_emits; simp)+
  have steps: "maintains I (user_steps E h inst secret)" for h secret
    unfolding user_steps_def
    by (simp add: ne cong del: if_weak_cong) (intro conjI impI emits_intros phases sync)
  show ?thesis
    unfolding user_pass_def by (auto intro!: emits_intros deletion phases steps)
qed

lemma user_pass_not_owned:
  assumes srv: "accounts_server E accounts rows" and n: "n = status_username inst" "n \<noteq> []"
    and views: "of_views accounts rows I" and I: "\<And>s. I s \<Longrightarrow> not_owned accounts rows inst n a s"
  shows "maintains I (user_pass E inst adm d err)"
proof (rule user_pass_kept)
  note tables = accounts_laws(1) [OF srv]
  show "stable E object_effect I" by (rule stable_of_views [OF srv views object_effect_quiet])
  show "status_username inst \<noteq> []" using n by simp
  show "\<exists>b w'. UserMine E h i w = Ret b w' \<and> \<not> b \<and> I (ext w')"
    if "same_account inst i" "I (ext w)" for h i and w :: "'a world"
    using UserMine_not_owned [OF tables that(1) n I [OF that(2)]] that(2) by (intro exI [of _ False] exI [of _ w]) simp
  show "\<exists>x w'. userExists E h inst w = Ret x w' \<and>
      (\<exists>i. x = (i, True, None) \<and> same_account inst i) \<and> I (ext w')"
    if "I (ext w)" for h and w :: "'a world"
    using that n I [OF that]
    by (auto simp: userExists_def go_bind_def UserExists_run [OF tables] not_owned_def same_account_status)
qed

lemma connection_quiet: "connection_effect e \<Longrightarrow> \<not> changes_accounts e"
  by (cases e) (auto simp: connection_effect_def changes_accounts_def DatabaseName_def)

lemma resolve_keeps_accounts:
  "accounts_server E accounts rows \<Longrightarrow> of_views accounts rows I \<Longrightarrow> maintains I (resolve_admin E ns ref)"
  by (rule resolve_admin_maintains) (rule stable_of_views [OF _ _ connection_quiet])

text \<open>
  C3: a pass over a \<open>DatabaseUser\<close> never touches somebody else's account: an account that exists, and that is not the
  one that both the object's status and its managed row name, exists afterwards as it was, whatever
  the specification asks for and whether the pass returns or panics.
\<close>

theorem user_Reconcile_spares_account:
  assumes srv: "accounts_server E accounts rows" and n: "n \<noteq> []" and a: "accounts (ext w) n = Some a"
    and get: "k_get_DatabaseUser E req (ext w) = (Inr inst, s)"
    and other: "n \<noteq> status_username inst \<or>
      (\<forall>row. rows (ext w) (om_UID (du_Meta inst)) = Some row \<longrightarrow> \<not> user_row_matches row n inst)"
  shows "accounts (ext (final_world (user_Reconcile E req w))) n = Some a"
proof -
  let ?m = "go_bind (resolve_admin E (om_Namespace (du_Meta inst)) (us_AdminConnection (du_Spec inst)))
      (\<lambda>(adm, d, err). user_pass E inst adm d err)"
  have run: "user_Reconcile E req w = ?m (w\<lparr>ext := s\<rparr>)"
    by (simp add: user_Reconcile_def bind_ask get)
  have s: "accounts s = accounts (ext w)" "rows s = rows (ext w)"
    using accounts_laws(2) [OF srv reading.get_DatabaseUser, of req "ext w"] get by simp_all
  show ?thesis
  proof (cases "n = status_username inst")
    case True
    have "maintains (not_owned accounts rows inst n a) ?m"
      by (intro emits_intros user_pass_not_owned [OF srv True n of_views_not_owned]
          resolve_keeps_accounts [OF srv of_views_not_owned])
    moreover have "not_owned accounts rows inst n a (ext w)"
      using a other True unfolding not_owned_def by blast
    then have "not_owned accounts rows inst n a (ext (w\<lparr>ext := s\<rparr>))"
      by (simp add: not_owned_def s)
    ultimately have "not_owned accounts rows inst n a (ext (final_world (?m (w\<lparr>ext := s\<rparr>))))"
      by (rule maintainsD)
    then show ?thesis unfolding run not_owned_def by blast
  next
    case False
    have "maintains (\<lambda>s. accounts s n = Some a) ?m"
      by (intro emits_intros user_pass_maintains [OF stable_other_account [OF srv False]]
          resolve_keeps_accounts [OF srv]) (simp add: of_views_def)
    moreover have "accounts (ext (w\<lparr>ext := s\<rparr>)) n = Some a" using a s by simp
    ultimately have "accounts (ext (final_world (?m (w\<lparr>ext := s\<rparr>)))) n = Some a" by (rule maintainsD)
    then show ?thesis unfolding run .
  qed
qed

section \<open>The sample server\<close>

lemma exec_create_user:
  "details d \<Longrightarrow> sample_exec h (create_user_stmt inst d) s = create_account (status_username inst) s"
proof -
  assume "details d"
  then have "ends_literal d"
    by (fastforce simp: details_def identification_fragment_def)
  then have "literal_after ''CREATE USER '' (create_user_stmt inst d) = Some (status_username inst, d)"
    unfolding create_user_stmt_def by (rule literal_after_quoted)
  then show ?thesis
    by (simp add: sample_exec_def after_prefix_def create_user_stmt_def)
qed

lemma exec_drop_user:
  "sample_exec h (drop_user_stmt inst) s =
     ok (s\<lparr>c_accounts := filter (\<lambda>r. mysql_User r \<noteq> status_username inst) (c_accounts s)\<rparr>)"
proof -
  have "literal_after ''DROP USER IF EXISTS '' (drop_user_stmt inst) = Some (status_username inst, [])"
    unfolding drop_user_stmt_def by (rule literal_after_last)
  then show ?thesis
    by (simp add: sample_exec_def after_prefix_def drop_user_stmt_def literal_after_def)
qed

lemma exec_rename_user:
  "sample_exec h (rename_user_stmt inst) s = rename_account (status_username inst) (spec_username inst) s"
proof -
  have "literal_after ''RENAME USER '' (rename_user_stmt inst) =
      Some (status_username inst, '' TO '' @ quoted (Escape (spec_username inst)))"
    unfolding rename_user_stmt_def by (rule literal_after_quoted) simp
  moreover have "literal_after '' TO '' ('' TO '' @ quoted (Escape (spec_username inst))) =
      Some (spec_username inst, [])"
    by (rule literal_after_last)
  ultimately show ?thesis
    by (simp add: sample_exec_def after_prefix_def rename_user_stmt_def literal_after_def)
qed

lemma exec_alter_user: "sample_exec h (alter_user_stmt inst d) s = ok s"
  by (simp add: sample_exec_def after_prefix_def literal_after_def alter_user_stmt_def)

lemma find_map_other:
  "(\<And>x. P (f x) = P x) \<Longrightarrow> (\<And>x. P x \<Longrightarrow> f x = x) \<Longrightarrow> find P (map f xs) = find P xs"
  by (induction xs) auto

lemma rename_account_other:
  assumes "n \<noteq> old" and "account_named s n = Some a"
  shows "account_named (snd (rename_account old new s)) n = Some a"
proof (cases "account_named s old = None \<or> account_named s new \<noteq> None")
  case True
  then show ?thesis using assms by (simp add: rename_account_def refused_def)
next
  case False
  let ?f = "\<lambda>r. if mysql_User r = old then r\<lparr>mysql_User := new\<rparr> else r"
  have "n \<noteq> new" using False assms(2) by auto
  then have "find (\<lambda>r. mysql_User r = n) (map ?f (c_accounts s)) = find (\<lambda>r. mysql_User r = n) (c_accounts s)"
    using assms(1) by (intro find_map_other) auto
  then have "account_named (s\<lparr>c_accounts := map ?f (c_accounts s)\<rparr>) n = account_named s n"
    by (simp add: account_named_def)
  then show ?thesis
    using False assms(2) by (auto simp: rename_account_def ok_def)
qed

lemma sample_statements: "statements_ok sample_env account_named"
proof -
  have "account_named (snd (create_account m s)) n = Some a" if "account_named s n = Some a" for m n s a
    using that by (auto simp: create_account_def account_named_def ok_def refused_def find_append split: if_splits)
  moreover have "account_named (s\<lparr>c_accounts := filter (\<lambda>r. mysql_User r \<noteq> m) (c_accounts s)\<rparr>) n = account_named s n"
    if "n \<noteq> m" for m n s
  proof -
    have "find (\<lambda>r. mysql_User r = n) (filter (\<lambda>r. mysql_User r \<noteq> m) (c_accounts s)) =
        find (\<lambda>r. mysql_User r = n) (c_accounts s)"
      using that by (intro find_filter_other) auto
    then show ?thesis by (simp add: account_named_def)
  qed
  moreover have "account_named (s\<lparr>c_managed_users := x\<rparr>) = account_named s" for s x
    by (simp add: account_named_def fun_eq_iff)
  ultimately show ?thesis
    unfolding statements_ok_def sample_env_simps
    by (simp add: exec_create_user exec_alter_user exec_rename_user exec_drop_user rename_account_other)
       (simp add: ok_def sample_env_def)
qed

lemma no_literal: "\<not> prefix p q \<Longrightarrow> literal_after p q = None"
  by (auto simp: literal_after_def prefix_def) (metis append_Cons append_assoc append_eq_append_conv2 append_take_drop_id)

lemma exec_not_account:
  assumes "\<not> changes_accounts (Exec h q)"
  shows "c_accounts (snd (sample_exec h q s)) = c_accounts s \<and>
     c_managed_users (snd (sample_exec h q s)) = c_managed_users s"
proof -
  have p: "\<not> prefix ''CREATE USER '' q" "\<not> prefix ''RENAME USER '' q" "\<not> prefix ''DROP USER '' q"
    using assms by (simp_all add: changes_accounts_def)
  have "prefix ''DROP USER '' q" if "prefix ''DROP USER IF EXISTS '' q"
    using prefix_order.trans [OF _ that, of "''DROP USER ''"] by simp
  with p have "literal_after ''CREATE USER '' q = None" "literal_after ''RENAME USER '' q = None"
    "literal_after ''DROP USER IF EXISTS '' q = None"
    by (blast intro: no_literal)+
  then show ?thesis
    by (simp add: sample_exec_def ok_def refused_def create_schema_def split: option.splits)
qed

lemma sample_accounts_frame: "accounts_frame sample_env account_named user_row"
proof -
  have "c_accounts (after sample_env e s) = c_accounts s \<and>
      c_managed_users (after sample_env e s) = c_managed_users s"
    if "\<not> changes_accounts e" for e s
  proof (cases e)
    case (Exec h q)
    then show ?thesis
      using that exec_not_account [of h q s] by simp
  qed (use that in \<open>simp_all add: sample_env_def ok_def refused_def changes_accounts_def\<close>)
  then have "account_named (after sample_env e s) = account_named s \<and>
      user_row (after sample_env e s) = user_row s"
    if "\<not> changes_accounts e" for e s
    using that by (simp add: account_named_def user_row_def fun_eq_iff)
  then show ?thesis
    unfolding accounts_frame_def using sample_account_tables sample_reading by blast
qed

lemma save_row_result:
  "user_row (s\<lparr>c_managed_users := filter (\<lambda>x. mu_Uuid x \<noteq> mu_Uuid r) (c_managed_users s) @ [r]\<rparr>) =
     (user_row s)(mu_Uuid r \<mapsto> r)"
proof
  fix v
  show "user_row (s\<lparr>c_managed_users := filter (\<lambda>x. mu_Uuid x \<noteq> mu_Uuid r) (c_managed_users s) @ [r]\<rparr>) v =
      ((user_row s)(mu_Uuid r \<mapsto> r)) v"
  proof (cases "v = mu_Uuid r")
    case True
    then show ?thesis
      using find_filter_none [of "\<lambda>x. mu_Uuid x = mu_Uuid r" "c_managed_users s"]
      by (simp add: user_row_def find_append)
  next
    case False
    then have "find (\<lambda>x. mu_Uuid x = v) (filter (\<lambda>x. mu_Uuid x \<noteq> mu_Uuid r) (c_managed_users s)) =
        find (\<lambda>x. mu_Uuid x = v) (c_managed_users s)"
      by (intro find_filter_other) auto
    with False show ?thesis
      by (simp add: user_row_def find_append split: option.split)
  qed
qed

lemma forget_user_row_result:
  "user_row (s\<lparr>c_managed_users := filter (\<lambda>x. mu_Uuid x \<noteq> u) (c_managed_users s)\<rparr>) = (user_row s)(u := None)"
proof
  fix v
  have "find (\<lambda>x. mu_Uuid x = v) (filter (\<lambda>x. mu_Uuid x \<noteq> u) (c_managed_users s)) =
      find (\<lambda>x. mu_Uuid x = v) (c_managed_users s)" if "v \<noteq> u"
    using that by (intro find_filter_other) auto
  then show "user_row (s\<lparr>c_managed_users := filter (\<lambda>x. mu_Uuid x \<noteq> u) (c_managed_users s)\<rparr>) v =
      ((user_row s)(u := None)) v"
    by (auto simp: user_row_def find_None_iff)
qed

lemma sample_accounts: "accounts_server sample_env account_named user_row"
proof -
  have "c_managed_users (snd (sample_exec h q s)) = c_managed_users s" for h q s
    by (simp add: sample_exec_def ok_def refused_def create_schema_def create_account_def rename_account_def
        split: option.splits prod.splits)
  then have "user_row (snd (gorm_exec sample_env h q s)) = user_row s" for h q s
    by (simp add: user_row_def fun_eq_iff)
  then have "user_rows_ok sample_env user_row"
    by (simp add: user_rows_ok_def) (simp add: sample_env_def ok_def save_row_result forget_user_row_result)
  then show ?thesis
    by (simp add: accounts_server_def sample_accounts_frame sample_statements)
qed

text \<open>An account \<open>alice\<close> that somebody else made, and a \<open>DatabaseUser\<close> that has recorded the name without owning it.\<close>

definition claiming_user :: DatabaseUser where
  "claiming_user = set_user_status (\<lambda>st. st\<lparr>ust_Username := ''alice''\<rparr>)
     (sample_user\<lparr>du_Meta := (meta ''tenant1'' ''alice'' ''U'')\<lparr>om_Finalizers := [userFinalizer]\<rparr>\<rparr>)"

definition taken_cluster :: cluster where
  "taken_cluster = sample_cluster\<lparr>c_users := [claiming_user], c_accounts :=
     [\<lparr>mysql_Host = ''%'', mysql_User = ''alice'', mysql_Plugin = ''sha256_password''\<rparr>]\<rparr>"

lemma user_Reconcile_spares_account_witness:
  "account_named (ext (final_world (user_Reconcile sample_env \<lparr>nn_Namespace = ''tenant1'', nn_Name = ''alice''\<rparr>
       (world_of taken_cluster)))) ''alice'' =
     Some \<lparr>mysql_Host = ''%'', mysql_User = ''alice'', mysql_Plugin = ''sha256_password''\<rparr>"
proof (rule user_Reconcile_spares_account [OF sample_accounts])
  show "k_get_DatabaseUser sample_env \<lparr>nn_Namespace = ''tenant1'', nn_Name = ''alice''\<rparr>
      (ext (world_of taken_cluster)) = (Inr claiming_user, taken_cluster)"
    by (simp add: sample_env_def world_of_def taken_cluster_def found_def keyed_def claiming_user_def
        set_user_status_def meta_def)
qed (simp_all add: taken_cluster_def world_of_def account_named_def user_row_def sample_cluster_def empty_cluster_def)

end
