(* ===== verification/User_Progress.thy ===== *)
theory User_Progress
  imports Foreign_Accounts
begin

text \<open>
  Progress of the \<open>DatabaseUser\<close> reconciler: with a server that accepts the account, the pass that creates it leaves
  the account and the row that makes it the object's own.
\<close>

definition gives_details :: "'s env \<Rightarrow> DatabaseUser \<Rightarrow> Secret option \<Rightarrow> 's world \<Rightarrow> bool" where
  "gives_details E inst secret w \<longleftrightarrow>
     (\<exists>i d w'. userDetailString E inst secret True w = Ret (i, d, None) w')"

text \<open>The server accepts the account, and gorm saves its row.\<close>

definition accepts_account :: "'s env \<Rightarrow> 's accounts \<Rightarrow> 's user_rows \<Rightarrow> DatabaseUser \<Rightarrow> bool" where
  "accepts_account E accounts rows inst \<longleftrightarrow>
     (\<forall>h d s. details d \<longrightarrow> accounts s (status_username inst) = None \<longrightarrow>
        tx_Error (fst (gorm_exec E h (create_user_stmt inst d) s)) = None \<and>
        accounts (snd (gorm_exec E h (create_user_stmt inst d) s)) (status_username inst) \<noteq> None) \<and>
     (\<forall>h s. rows (snd (gorm_save_ManagedUser E h (managed_user inst) s)) =
        (rows s)(om_UID (du_Meta inst) \<mapsto> managed_user inst))"

definition account_settled :: "'s accounts \<Rightarrow> 's user_rows \<Rightarrow> DatabaseUser \<Rightarrow> 's \<Rightarrow> bool" where
  "account_settled accounts rows inst s \<longleftrightarrow>
     accounts s (status_username inst) \<noteq> None \<and>
     rows s (om_UID (du_Meta inst)) = Some (managed_user inst)"

definition quiet_effect :: "effect \<Rightarrow> bool" where
  "quiet_effect e \<longleftrightarrow> \<not> changes_accounts e"

lemma quiet_maintains:
  assumes "accounts_server E accounts rows" and "emits quiet_effect m" and "conducts E m"
    and "\<And>s s'. accounts s' = accounts s \<Longrightarrow> rows s' = rows s \<Longrightarrow> I s \<Longrightarrow> I s'"
  shows "maintains I m"
proof (rule conducts_maintains [OF assms(3,2)])
  show "stable E quiet_effect I"
    unfolding stable_def quiet_effect_def using accounts_laws(2,3) [OF assms(1)] assms(4) by metis
qed

lemma grant_quiet: "emits quiet_effect (grant E h i)"
proof -
  have "quiet_effect (Exec g (grant_stmt E i' p sch))" for g i' p sch
    using grant_stmt_intro [of E i' p sch] by (auto simp: quiet_effect_def changes_accounts_def)
  then show ?thesis
    unfolding grant_def by (intro emits_intros grant_loop_emits user_facts)
qed

lemma grant_returns: "never_panics (grant E h i)"
proof -
  have "never_panics (grantStatusUpdate E h j b)" for j b
    unfolding grantStatusUpdate_def Let_def by (intro emits_intros)
  moreover have "never_panics (grant_loop E h j ps)" for j ps
    by (induction ps) (auto simp: runStmt_def intro!: emits_intros)
  ultimately show ?thesis
    unfolding grant_def by (intro emits_intros)
qed

lemma save_settles:
  assumes srv: "accounts_server E accounts rows" and acc: "accepts_account E accounts rows inst"
    and i: "same_account inst i" and s: "accounts (ext w) (status_username inst) \<noteq> None"
  shows "account_settled accounts rows inst
     (ext (final_world (go_bind (save_managed_user E h i) (\<lambda>_. ret x) w)))"
proof -
  have "\<not> changes_accounts (Commit g)" for g by (simp add: changes_accounts_def)
  then have "accounts (snd (gorm_commit E g s)) = accounts s \<and> rows (snd (gorm_commit E g s)) = rows s" for g s
    using accounts_laws(3) [OF srv, of "Commit g" s] by simp
  then show ?thesis
    using acc s accounts_laws(8) [OF srv] same_account_texts(6) [OF i]
    by (simp add: save_managed_user_def go_bind_assoc bind_perform account_settled_def accepts_account_def)
qed

lemma userCreate_settles:
  assumes srv: "accounts_server E accounts rows" and acc: "accepts_account E accounts rows inst"
    and absent: "accounts (ext w) (status_username inst) = None" and giv: "gives_details E inst secret w"
  shows "account_settled accounts rows inst (ext (final_world (userCreate E h inst secret w)))"
proof -
  let ?n = "status_username inst"
  obtain i d w1 where run: "userDetailString E inst secret True w = Ret (i, d, None) w1"
    using giv by (auto simp: gives_details_def)
  have i: "same_account inst i" "details d"
    using yields_Ret [OF userDetailString_details [OF same_account_refl(1)] run] by auto
  have "maintains (\<lambda>s. accounts s ?n = None) (userDetailString E inst secret True)"
    by (rule quiet_maintains [OF srv]) (auto intro: user_facts conducts_intros)
  from maintainsD [OF this, of w] have w1: "accounts (ext w1) ?n = None"
    using absent run by simp
  let ?q = "create_user_stmt inst d" and ?i = "set_user_status (\<lambda>st. st\<lparr>ust_Grants := Some []\<rparr>) i"
  obtain tx s2 where exec: "gorm_exec E h ?q (ext w1) = (tx, s2)" by fastforce
  then have tx: "tx_Error tx = None" "accounts s2 ?n \<noteq> None"
    using acc i(2) w1 unfolding accepts_account_def by (metis fst_conv, metis snd_conv)
  let ?w2 = "w1\<lparr>ext := s2, effects := effects w1 @ [Exec h ?q]\<rparr>"
  obtain x w3 where grant: "grant E h ?i ?w2 = Ret x w3"
    using never_panics_Ret [OF grant_returns] by blast
  obtain j u e where x: "x = (j, u, e)" by (cases x) auto
  have same: "same_account inst ?i" using i(1) by (simp add: same_account_status)
  have j: "same_account inst j"
    using yields_Ret [OF grant_revoke_yields(1) [OF same] grant] x by simp
  have "maintains (\<lambda>s. accounts s ?n \<noteq> None) (grant E h ?i)"
    by (rule quiet_maintains [OF srv grant_quiet]) (auto intro: conducts_intros)
  from maintainsD [OF this, of ?w2] have w3: "accounts (ext w3) ?n \<noteq> None"
    using tx(2) grant by simp
  have "userCreate E h inst secret w = go_bind (save_managed_user E h j) (\<lambda>_. ret (j, e)) w3"
    using run exec tx(1) grant x same_account_texts(1) [OF i(1)]
    by (simp add: userCreate_def go_bind_Ret runStmt_def go_bind_assoc bind_perform)
  with save_settles [OF srv acc j w3, of h "(j, e)"] show ?thesis by simp
qed

text \<open>
  Progress. For an object whose recorded name is no account yet, one pass of the working branch, with readable credentials and a
  server that accepts the account, leaves the account under that name and the object's row, whatever becomes of its grants.
\<close>

lemma user_sync_account:
  assumes srv: "accounts_server E accounts rows" and acc: "accepts_account E accounts rows inst"
    and absent: "accounts (ext w) (status_username inst) = None" and giv: "gives_details E inst secret w"
    and w': "w' = final_world (user_sync E h inst secret w)"
  shows "account_settled accounts rows inst (ext w')"
proof -
  let ?K = "account_settled accounts rows inst"
  note tables = accounts_laws(1) [OF srv]
  have clock: "maintains ?K (ask (now E))"
    by (rule quiet_maintains [OF srv]) (auto simp: account_settled_def intro!: emits_intros conducts_intros)
  have status: "maintains ?K (perform (StatusDatabaseUser i) (k_status_DatabaseUser E i))" for i
    by (rule quiet_maintains [OF srv])
       (auto simp: account_settled_def quiet_effect_def changes_accounts_def intro!: emits_intros conducts_intros)
  have run: "user_sync E h inst secret w =
      go_bind (userCreate E h inst secret) (\<lambda>(inst, err).
        go_bind (go_bind (ask (now E)) (\<lambda>t. ret (set_user_status (\<lambda>st. st\<lparr>ust_CreationTime := Some t,
               ust_Message := ''Created user''\<rparr>) inst, err))) (\<lambda>(inst, err).
        if err \<noteq> None then ret None
        else go_bind (perform (StatusDatabaseUser inst) (k_status_DatabaseUser E inst)) (\<lambda>_. ret None))) w"
    using absent
    by (simp add: user_sync_def userExists_def go_bind_def UserExists_run [OF tables] user_align_def split_beta
        split: run.splits)
  show "?K (ext w')"
    unfolding w' run
    by (rule bind_reaches [where K = ?K], rule userCreate_settles [OF srv acc absent giv])
       (intro emits_intros clock status)
qed

text \<open>When the recorded name is the one that the object asks for, it may manage the account from then on.\<close>

theorem user_sync_settles:
  assumes srv: "accounts_server E accounts rows" and acc: "accepts_account E accounts rows inst"
    and name: "status_username inst = spec_username inst"
    and absent: "accounts (ext w) (status_username inst) = None" and giv: "gives_details E inst secret w"
    and w': "w' = final_world (user_sync E h inst secret w)"
  shows "account_settled accounts rows inst (ext w') \<and> UserMine E h inst w' = Ret True w'"
proof -
  note tables = accounts_laws(1) [OF srv] and settled = user_sync_account [OF srv acc absent giv w']
  have "user_names inst = [spec_username inst]"
    using name by (simp add: user_names_def spec_username_def status_username_def)
  then have "\<forall>n \<in> set (user_names inst). user_owns accounts rows (ext w') inst zero_ManagedUser n"
    using settled name
    by (simp add: user_owns_def account_settled_def user_row_matches_def managed_user_def)
  then show ?thesis
    using settled by (simp add: UserMine_run [OF tables])
qed

lemma sample_accepts_account:
  assumes "status_username inst \<noteq> []"
  shows "accepts_account sample_env account_named user_row inst"
proof -
  have "tx_Error (fst (create_account n s)) = None \<and> account_named (snd (create_account n s)) n \<noteq> None"
    if "account_named s n = None" "n \<noteq> []" for n s
    using that by (auto simp: create_account_def ok_def account_named_def find_append)
  moreover have "om_UID (du_Meta inst) = mu_Uuid (managed_user inst)"
    by (simp add: managed_user_def)
  ultimately show ?thesis
    unfolding accepts_account_def sample_env_simps using assms
    by (simp add: exec_create_user) (simp add: sample_env_def ok_def save_row_result)
qed

lemma user_sync_settles_witness:
  "UserMine sample_env 1 claiming_user (final_world (user_sync sample_env 1 claiming_user None (world_of sample_cluster))) =
     Ret True (final_world (user_sync sample_env 1 claiming_user None (world_of sample_cluster)))"
proof -
  have giv: "gives_details sample_env claiming_user None (world_of sample_cluster)"
    by (simp add: gives_details_def userDetailString_def claiming_user_def set_user_status_def sample_user_def)
  have name: "status_username claiming_user \<noteq> []" "status_username claiming_user = spec_username claiming_user"
    and absent: "account_named (ext (world_of sample_cluster)) (status_username claiming_user) = None"
    by (simp_all add: claiming_user_def set_user_status_def sample_user_def status_username_def spec_username_def
        account_named_def world_of_def sample_cluster_def empty_cluster_def)
  show ?thesis
    using user_sync_settles [OF sample_accounts sample_accepts_account [OF name(1)] name(2) absent giv refl, of 1] by simp
qed

end
