(* ===== verification/Operator_Run.thy ===== *)
theory Operator_Run
  imports Admin_Correct Foreign_Accounts
begin

text \<open>
  The operator as a whole: \<open>main.go\<close> starts the three reconcilers over one connection cache, and the
  controller runtime calls them one request at a time, in any order, between the steps of everyone else (what happens
  in the middle of a pass is the matter of \<open>Interference\<close>). A pass that
  panics ends where it panicked; a restart of the process forgets the connection cache. The relation
  \<open>operator_step\<close> is one such step; \<open>others\<close> are the steps of the rest of the world, and \<open>okd\<close> and \<open>oku\<close> the
  \<open>Database\<close> and \<open>DatabaseUser\<close> objects that a run may meet.
\<close>

inductive operator_step ::
  "'s env \<Rightarrow> (Database \<Rightarrow> bool) \<Rightarrow> (DatabaseUser \<Rightarrow> bool) \<Rightarrow> ('s \<Rightarrow> 's \<Rightarrow> bool) \<Rightarrow> 's world \<Rightarrow> 's world \<Rightarrow> bool"
  for E okd oku others
where
  admin: "operator_step E okd oku others w (final_world (admin_Reconcile E req w))"
| database: "(\<And>inst. fst (k_get_Database E req (ext w)) = Inr inst \<Longrightarrow> okd inst) \<Longrightarrow>
    operator_step E okd oku others w (final_world (database_Reconcile E req w))"
| user: "(\<And>inst. fst (k_get_DatabaseUser E req (ext w)) = Inr inst \<Longrightarrow> oku inst) \<Longrightarrow>
    operator_step E okd oku others w (final_world (user_Reconcile E req w))"
| elsewhere: "others (ext w) s \<Longrightarrow> operator_step E okd oku others w (w\<lparr>ext := s\<rparr>)"
| restart: "operator_step E okd oku others w (w\<lparr>connections := Map.empty\<rparr>)"

inductive_cases operator_step_cases: "operator_step E okd oku others w w'"

text \<open>An invariant of the outside that every pass and every step of the others keeps is kept by a run.\<close>

lemma run_keeps:
  assumes "(operator_step E okd oku others)\<^sup>*\<^sup>* w w'" and "I (ext w)"
    and "\<And>req v. I (ext v) \<Longrightarrow> I (ext (final_world (admin_Reconcile E req v)))"
    and "\<And>req v. (\<And>inst. fst (k_get_Database E req (ext v)) = Inr inst \<Longrightarrow> okd inst) \<Longrightarrow> I (ext v) \<Longrightarrow>
      I (ext (final_world (database_Reconcile E req v)))"
    and "\<And>req v. (\<And>inst. fst (k_get_DatabaseUser E req (ext v)) = Inr inst \<Longrightarrow> oku inst) \<Longrightarrow> I (ext v) \<Longrightarrow>
      I (ext (final_world (user_Reconcile E req v)))"
    and "\<And>s s'. others s s' \<Longrightarrow> I s \<Longrightarrow> I s'"
  shows "I (ext w')"
  using assms(1)
proof (induction rule: rtranclp_induct)
  case base
  show ?case by (rule assms(2))
next
  case (step v v')
  from step.hyps(2) show ?case
  proof (rule operator_step_cases)
    fix req assume "v' = final_world (admin_Reconcile E req v)"
    then show ?thesis using assms(3) step.IH by simp
  next
    fix req assume "v' = final_world (database_Reconcile E req v)"
      and "\<And>inst. fst (k_get_Database E req (ext v)) = Inr inst \<Longrightarrow> okd inst"
    then show ?thesis using assms(4) step.IH by simp
  next
    fix req assume "v' = final_world (user_Reconcile E req v)"
      and "\<And>inst. fst (k_get_DatabaseUser E req (ext v)) = Inr inst \<Longrightarrow> oku inst"
    then show ?thesis using assms(5) step.IH by simp
  next
    fix s assume "v' = v\<lparr>ext := s\<rparr>" and "others (ext v) s"
    then show ?thesis using assms(6) step.IH by simp
  qed (use step.IH in simp)
qed

section \<open>Schemata\<close>

lemma admin_Reconcile_out_of_reach:
  assumes "schema_out_of_reach E n I"
  shows "maintains I (admin_Reconcile E req)"
proof (rule conducts_maintains [OF admin_Reconcile_conducts admin_Reconcile_emits])
  show "stable E admin_effect I"
    using stable_or [OF out_of_reachD(1,2) [OF assms]] by (rule stable_weaken) (simp add: admin_effect_def)
qed

lemma run_out_of_reach:
  assumes reach: "schema_out_of_reach E n I"
    and others: "\<And>s s'. others s s' \<Longrightarrow> I s \<Longrightarrow> I s'"
    and run: "(operator_step E (\<lambda>inst. plain_spec (db_Spec inst)) oku others)\<^sup>*\<^sup>* w w'"
    and I: "I (ext w)"
  shows "I (ext w')"
  by (rule run_keeps [OF run, where I = I, OF I
        maintainsD [OF admin_Reconcile_out_of_reach [OF reach]]
        database_Reconcile_out_of_reach [OF reach]
        maintainsD [OF user_Reconcile_out_of_reach [OF reach]] others])

section \<open>Accounts\<close>

text \<open>An account that exists and that no managed row names.\<close>

definition foreign_account ::
  "'s accounts \<Rightarrow> 's user_rows \<Rightarrow> string \<Rightarrow> MySqlUser \<Rightarrow> 's \<Rightarrow> bool" where
  "foreign_account accounts rows n a s \<longleftrightarrow>
     accounts s n = Some a \<and> (\<forall>u row. rows s u = Some row \<longrightarrow> mu_Username row \<noteq> n)"

text \<open>
  A \<open>DatabaseUser\<close> that asks for the name \<open>n\<close> has not recorded another name before. (If it has, \<open>userCreate\<close> can leave a
  row for \<open>n\<close> without an account of the operator's; see \<open>created_under_other_name_is_disowned\<close>.)
\<close>

definition asks_first :: "string \<Rightarrow> DatabaseUser \<Rightarrow> bool" where
  "asks_first n inst \<longleftrightarrow> spec_username inst = n \<longrightarrow> status_username inst \<in> {n, []}"

lemma of_views_foreign: "of_views accounts rows (foreign_account accounts rows n a)"
  by (simp add: of_views_def foreign_account_def)

lemma foreign_account_user_stable:
  assumes srv: "accounts_server E accounts rows" and n: "n \<noteq> status_username inst" "n \<noteq> []"
    and asks: "asks_first n inst"
  shows "stable E (user_effect E inst) (foreign_account accounts rows n a)"
proof -
  have "foreign_account accounts rows n a (after E e s)"
    if e: "user_effect E inst e" and I: "foreign_account accounts rows n a s" for e s
  proof (cases "changes_accounts e")
    case False
    then show ?thesis using accounts_laws(3) [OF srv] I by (simp add: foreign_account_def)
  next
    case True
    have acc: "accounts (after E e s) n = Some a"
      using stable_other_account [OF srv n(1), of a] e I unfolding stable_def foreign_account_def by blast
    have "\<forall>u row. rows (after E e s) u = Some row \<longrightarrow> mu_Username row \<noteq> n"
    proof (cases e)
      case (Exec h q)
      then show ?thesis using accounts_laws(12) [OF srv, of h q s] I True by (simp add: foreign_account_def)
    next
      case (SaveManagedUser h row)
      with e have "user_ready E inst" "row = managed_user inst" by (auto simp: user_effect_def)
      then have "mu_Username row \<noteq> n"
        using asks n by (auto simp: asks_first_def user_ready_def managed_user_def)
      then show ?thesis
        using accounts_laws(10) [OF srv, of h row s] I SaveManagedUser
        unfolding foreign_account_def by (elim insertE emptyE) simp_all
    next
      case (DeleteManagedUser h u)
      then show ?thesis
        using accounts_laws(11) [OF srv, of h u s] I
        unfolding foreign_account_def by (elim insertE emptyE) simp_all
    qed (use True in \<open>simp_all add: changes_accounts_def\<close>)
    with acc show ?thesis by (simp add: foreign_account_def)
  qed
  then show ?thesis
    unfolding stable_def using accounts_laws(2) [OF srv] by (simp add: foreign_account_def)
qed

text \<open>Out of reach, as for schemata: the lookups find the account and no row that names it.\<close>

definition account_out_of_reach :: "'s env \<Rightarrow> string \<Rightarrow> ('s \<Rightarrow> bool) \<Rightarrow> bool" where
  "account_out_of_reach E n I \<longleftrightarrow>
     stable E connection_effect I \<and> stable E admin_effect I \<and> stable E object_effect I \<and>
     (\<forall>inst. stable E (database_effect E inst) I) \<and>
     (\<forall>inst. asks_first n inst \<longrightarrow> n \<noteq> status_username inst \<longrightarrow> stable E (user_effect E inst) I) \<and>
     (\<forall>h s. I s \<longrightarrow> mysql_User (fst (gorm_first_user E h n s)) \<noteq> []) \<and>
     (\<forall>h row u s. I s \<longrightarrow> mu_Username row \<noteq> n \<longrightarrow> mu_Username (fst (gorm_find_ManagedUser E h row u s)) \<noteq> n)"

lemma account_out_of_reachD:
  assumes "account_out_of_reach E n I"
  shows "stable E connection_effect I" and "stable E admin_effect I" and "stable E object_effect I"
    and "stable E (database_effect E db) I"
    and "asks_first n inst \<Longrightarrow> n \<noteq> status_username inst \<Longrightarrow> stable E (user_effect E inst) I"
    and "I s \<Longrightarrow> mysql_User (fst (gorm_first_user E h n s)) \<noteq> []"
    and "I s \<Longrightarrow> mu_Username row \<noteq> n \<Longrightarrow> mu_Username (fst (gorm_find_ManagedUser E h row u s)) \<noteq> n"
    and "reading E s s' \<Longrightarrow> I s \<Longrightarrow> I s'"
  using assms by (simp_all add: account_out_of_reach_def stable_def)

lemma foreign_account_out_of_reach:
  assumes srv: "accounts_server E accounts rows" and n: "n \<noteq> []"
  shows "account_out_of_reach E n (foreign_account accounts rows n a)"
proof -
  let ?I = "foreign_account accounts rows n a"
  note views = stable_of_views [OF srv of_views_foreign [of accounts rows n a]]
  have "\<not> changes_accounts e" if "admin_effect e" for e
    using that connection_quiet by (auto simp: admin_effect_def changes_accounts_def)
  then have admin: "stable E admin_effect ?I" by (rule views)
  have "\<not> changes_accounts e" if "database_effect E inst e" for inst e
    using that
    by (cases e) (auto simp: database_effect_def changes_accounts_def create_database_stmt_def
        alter_database_stmt_def drop_database_stmt_def)
  then have database: "stable E (database_effect E inst) ?I" for inst by (rule views)
  have user: "stable E (user_effect E inst) ?I" if "asks_first n inst" "n \<noteq> status_username inst" for inst
    by (rule foreign_account_user_stable [OF srv that(2) n that(1)])
  have "mysql_User (fst (gorm_first_user E h n s)) \<noteq> []" if "?I s" for h s
    using that accounts_laws(1) [OF srv, of h] by (auto simp: foreign_account_def account_tables_ok_def)
  moreover have "mu_Username (fst (gorm_find_ManagedUser E h row u s)) \<noteq> n"
    if "?I s" "mu_Username row \<noteq> n" for h row u s
    using that accounts_laws(1) [OF srv, of h]
    by (auto simp: foreign_account_def account_tables_ok_def split: option.splits)
  ultimately show ?thesis
    unfolding account_out_of_reach_def
    using views [OF connection_quiet] views [OF object_effect_quiet] admin database user by blast
qed

lemma account_out_of_reach_through:
  assumes "account_out_of_reach E n I" and "\<And>t. J t \<Longrightarrow> I (pre t)" and "\<And>t s. J t \<Longrightarrow> I s \<Longrightarrow> J (post t s)"
  shows "account_out_of_reach (seen_through pre post E) n J"
proof -
  note D = account_out_of_reachD [OF assms(1)]
  have st: "stable (seen_through pre post E) P J" if "stable E P I" for P
    by (rule stable_through [OF that]) (fact assms)+
  have "mysql_User (fst (gorm_first_user (seen_through pre post E) h n s)) \<noteq> []"
    "mu_Username row \<noteq> n \<Longrightarrow> mu_Username (fst (gorm_find_ManagedUser (seen_through pre post E) h row u s)) \<noteq> n"
    if "J s" for h row u s
    using D(6,7) assms(2) [OF that] by (simp_all add: seen_through_def)
  then show ?thesis
    unfolding account_out_of_reach_def effects_through(1) using st D(1-5) user_stable_through by blast
qed

lemma account_out_of_reach_interrupted:
  "account_out_of_reach E n I \<Longrightarrow> (\<And>s. I s \<Longrightarrow> I (turn s)) \<Longrightarrow> account_out_of_reach (interrupted turn E) n I"
  unfolding interrupted_def by (erule account_out_of_reach_through) auto

text \<open>The ownership check can not succeed for the name, wherever it stands in the list.\<close>

lemma user_mine_loop_kept:
  assumes reach: "account_out_of_reach E n I"
  shows "I (ext w) \<Longrightarrow> mu_Username row \<noteq> n \<Longrightarrow>
    \<exists>b w'. user_mine_loop E h i names row w = Ret b w' \<and> I (ext w') \<and> (n \<in> set names \<longrightarrow> \<not> b)"
proof (induction names arbitrary: row w)
  case Nil
  then show ?case by (intro exI [of _ True] exI [of _ w]) simp
next
  case (Cons m names)
  let ?s = "snd (gorm_first_user E h m (ext w))" and ?u = "om_UID (du_Meta i)"
  let ?row = "fst (gorm_find_ManagedUser E h row ?u ?s)"
  have s: "I ?s" by (rule account_out_of_reachD(8) [OF reach reading.first_user Cons.prems(1)])
  then have s': "I (snd (gorm_find_ManagedUser E h row ?u ?s))"
    by (rule account_out_of_reachD(8) [OF reach reading.find_user])
  have row: "mu_Username ?row \<noteq> n" by (rule account_out_of_reachD(7) [OF reach s Cons.prems(2)])
  show ?case
  proof (cases "mysql_User (fst (gorm_first_user E h m (ext w))) = []")
    case True
    then have "m \<noteq> n" using account_out_of_reachD(6) [OF reach Cons.prems(1), of h] by auto
    then show ?thesis
      using True Cons.IH [of "w\<lparr>ext := ?s\<rparr>" row] s Cons.prems(2)
      by (simp add: UserExists_def go_bind_assoc bind_ask)
  next
    case False
    then show ?thesis
      using row s' Cons.IH [of "w\<lparr>ext := snd (gorm_find_ManagedUser E h row ?u ?s)\<rparr>" ?row]
      by (auto simp: UserExists_def go_bind_assoc bind_ask user_row_matches_def)
  qed
qed

lemma user_pass_out_of_reach:
  assumes reach: "account_out_of_reach E n I" and n: "n = status_username inst" "n \<noteq> []"
  shows "maintains I (user_pass E inst adm d err)"
proof (rule user_pass_kept [OF account_out_of_reachD(3) [OF reach]])
  show "status_username inst \<noteq> []" using n by simp
  show "\<exists>b w'. UserMine E h i w = Ret b w' \<and> \<not> b \<and> I (ext w')"
    if "same_account inst i" "I (ext w)" for h i and w :: "'a world"
  proof -
    have "n \<in> set (user_names i)"
      using that(1) n by (auto simp: user_names_def same_account_def status_username_def Let_def)
    then show ?thesis
      using user_mine_loop_kept [OF reach that(2), of zero_ManagedUser h i "user_names i"] n(2)
      by (auto simp: UserMine_def zero_ManagedUser_def)
  qed
  show "\<exists>x w'. userExists E h inst w = Ret x w' \<and> (\<exists>i. x = (i, True, None) \<and> same_account inst i) \<and> I (ext w')"
    if "I (ext w)" for h and w :: "'a world"
    using account_out_of_reachD(6) [OF reach that, of h] account_out_of_reachD(8) [OF reach reading.first_user that, of h n] n
    by (simp add: userExists_def UserExists_def go_bind_assoc bind_ask same_account_status)
qed

lemma user_Reconcile_out_of_reach_account:
  assumes reach: "account_out_of_reach E n I" and n: "n \<noteq> []"
    and ok: "\<And>inst. fst (k_get_DatabaseUser E req (ext w)) = Inr inst \<Longrightarrow> asks_first n inst"
    and I: "I (ext w)"
  shows "I (ext (final_world (user_Reconcile E req w)))"
proof -
  have pass: "maintains I (user_pass E inst adm d err)" if "asks_first n inst" for inst adm d err
    using user_pass_out_of_reach [OF reach _ n] user_pass_maintains [OF account_out_of_reachD(5) [OF reach that]] by blast
  have resolve: "maintains I (resolve_admin E ns ref)" for ns ref
    by (rule resolve_admin_maintains [OF account_out_of_reachD(1) [OF reach]])
  obtain x s where g: "k_get_DatabaseUser E req (ext w) = (x, s)" by fastforce
  have s: "I s" using account_out_of_reachD(8) [OF reach reading.get_DatabaseUser I, of req] g by simp
  show ?thesis
  proof (cases x)
    case (Inl e)
    then show ?thesis using g s by (simp add: user_Reconcile_def bind_ask)
  next
    case (Inr inst)
    then have "maintains I (go_bind (resolve_admin E (om_Namespace (du_Meta inst))
        (us_AdminConnection (du_Spec inst))) (\<lambda>(a, d, err). user_pass E inst a d err))"
      using ok g by (intro emits_intros resolve pass) simp
    then show ?thesis
      using g s Inr maintainsD [where w = "w\<lparr>ext := s\<rparr>"] by (simp add: user_Reconcile_def bind_ask)
  qed
qed

lemma other_Reconciles_out_of_reach_account:
  assumes reach: "account_out_of_reach E n I"
  shows "maintains I (admin_Reconcile E req)" and "maintains I (database_Reconcile E req)"
proof -
  show "maintains I (admin_Reconcile E req)"
    by (rule conducts_maintains [OF admin_Reconcile_conducts admin_Reconcile_emits account_out_of_reachD(2) [OF reach]])
  show "maintains I (database_Reconcile E req)"
    unfolding database_Reconcile_def
    by (intro emits_intros maintains_ask account_out_of_reachD(8) [OF reach reading.get_Database]
        resolve_admin_maintains [OF account_out_of_reachD(1) [OF reach]]
        database_pass_maintains [OF account_out_of_reachD(4) [OF reach]])
qed

lemma run_out_of_reach_account:
  assumes reach: "account_out_of_reach E n I" and n: "n \<noteq> []"
    and others: "\<And>s s'. others s s' \<Longrightarrow> I s \<Longrightarrow> I s'"
    and run: "(operator_step E okd (asks_first n) others)\<^sup>*\<^sup>* w w'"
    and I: "I (ext w)"
  shows "I (ext w')"
  by (rule run_keeps [OF run, where I = I, OF I
        maintainsD [OF other_Reconciles_out_of_reach_account(1) [OF reach]]
        maintainsD [OF other_Reconciles_out_of_reach_account(2) [OF reach]]
        user_Reconcile_out_of_reach_account [OF reach n] others])

end
