(* ===== verification/Go_Heap.thy ===== *)
theory Go_Heap
  imports Prelude
begin

text \<open>
  Go's memory, as far as the generated deep copies use it: blocks of elements of one type,
  allocated one after the other and never freed. A pointer is a block with an index (\<open>new\<close> makes a
  block of one element, \<open>&s[i]\<close> points into the block of the slice), a slice header is a block with
  a first index and a length; what is behind it in the block is its spare capacity. Every
  type of element has its own kind of block. A computation over the heap is a Go computation
  whose world is the heap; reading through nil or through an address without a block
  of the right kind is Go's \<open>invalid memory address or nil pointer dereference\<close>.

  A value of a type with pointers is known by its view, the tree of values it stands for, and by
  its reach, the blocks that the view depends on.
\<close>

section \<open>Blocks\<close>

record 'c heap =
  limit :: nat
  cells :: "nat \<rightharpoonup> 'c"

record ('a, 'c) kind =
  wrap :: "'a list \<Rightarrow> 'c"
  unwrap :: "'c \<Rightarrow> 'a list option"

type_synonym pointer = "(nat \<times> nat) option"

record slice_header =
  sl_Block :: nat
  sl_First :: nat
  sl_Len :: nat

type_synonym memslice = "slice_header option"

definition block :: "('a, 'c) kind \<Rightarrow> 'c heap \<Rightarrow> nat \<Rightarrow> 'a list option" where
  "block K h b = Option.bind (cells h b) (unwrap K)"

definition put_block :: "('a, 'c) kind \<Rightarrow> nat \<Rightarrow> 'a list \<Rightarrow> 'c heap \<Rightarrow> 'c heap" where
  "put_block K b xs h = h\<lparr>cells := (cells h)(b \<mapsto> wrap K xs)\<rparr>"

definition read_at :: "('a, 'c) kind \<Rightarrow> pointer \<Rightarrow> ('c heap, 'a) go" where
  "read_at K p h =
     (case p of
        None \<Rightarrow> Panic NilDereference h
      | Some (b, i) \<Rightarrow>
          (case block K h b of
             None \<Rightarrow> Panic NilDereference h
           | Some xs \<Rightarrow> if i < length xs then Ret (xs ! i) h else Panic IndexOutOfRange h))"

definition write_at :: "('a, 'c) kind \<Rightarrow> pointer \<Rightarrow> 'a \<Rightarrow> ('c heap, unit) go" where
  "write_at K p x h =
     (case p of
        None \<Rightarrow> Panic NilDereference h
      | Some (b, i) \<Rightarrow>
          (case block K h b of
             None \<Rightarrow> Panic NilDereference h
           | Some xs \<Rightarrow>
               if i < length xs then Ret () (put_block K b (xs[i := x]) h)
               else Panic IndexOutOfRange h))"

text \<open>\<open>make([]T, n)\<close> and \<open>new(T)\<close>: a block of zero values.\<close>

definition make_slice :: "('a, 'c) kind \<Rightarrow> 'a \<Rightarrow> nat \<Rightarrow> ('c heap, slice_header) go" where
  "make_slice K zero n h =
     Ret \<lparr>sl_Block = limit h, sl_First = 0, sl_Len = n\<rparr>
       (put_block K (limit h) (replicate n zero) (h\<lparr>limit := limit h + 1\<rparr>))"

definition new_block :: "('a, 'c) kind \<Rightarrow> 'a \<Rightarrow> ('c heap, nat \<times> nat) go" where
  "new_block K zero h = Ret (limit h, 0) (put_block K (limit h) [zero] (h\<lparr>limit := limit h + 1\<rparr>))"

text \<open>\<open>&s[i]\<close>\<close>

definition slice_at :: "slice_header \<Rightarrow> nat \<Rightarrow> ('c heap, pointer) go" where
  "slice_at s i h =
     (if i < sl_Len s then Ret (Some (sl_Block s, sl_First s + i)) h else Panic IndexOutOfRange h)"

section \<open>The statements of the generated code\<close>

text \<open>
  \<open>p.DeepCopyInto(q)\<close> for a \<open>DeepCopyInto\<close> that is given as a function from the value behind its receiver
  to the value that it leaves in \<open>*out\<close>. The receiver is not written in between, since \<open>out\<close> never lies in the
  memory that is copied.
\<close>

definition copy_into :: "('a, 'c) kind \<Rightarrow> ('a \<Rightarrow> ('c heap, 'a) go) \<Rightarrow> pointer \<Rightarrow> pointer \<Rightarrow> ('c heap, unit) go" where
  "copy_into K f p q = go_bind (read_at K p) (\<lambda>x. go_bind (f x) (\<lambda>y. write_at K q y))"

text \<open>\<open>for i := range *in { (*in)[i].DeepCopyInto(&(*out)[i]) }\<close>\<close>

primrec copy_items ::
  "('a, 'c) kind \<Rightarrow> ('a \<Rightarrow> ('c heap, 'a) go) \<Rightarrow> slice_header \<Rightarrow> slice_header \<Rightarrow> nat list \<Rightarrow> ('c heap, unit) go" where
  "copy_items K f src dst [] = ret ()"
| "copy_items K f src dst (i # is) =
     go_bind (slice_at src i) (\<lambda>p.
     go_bind (slice_at dst i) (\<lambda>q.
     go_bind (copy_into K f p q) (\<lambda>_. copy_items K f src dst is)))"

text \<open>\<open>if s != nil { *out = make([]T, len(*in)); for i := range *in { ... } }\<close>\<close>

definition copy_slice ::
  "('a, 'c) kind \<Rightarrow> 'a \<Rightarrow> ('a \<Rightarrow> ('c heap, 'a) go) \<Rightarrow> memslice \<Rightarrow> ('c heap, memslice) go" where
  "copy_slice K zero f s =
     (case s of
        None \<Rightarrow> ret None
      | Some src \<Rightarrow>
          go_bind (make_slice K zero (sl_Len src)) (\<lambda>dst.
          go_bind (copy_items K f src dst [0..<sl_Len src]) (\<lambda>_. ret (Some dst))))"

text \<open>
  \<open>if s != nil { *out = make([]T, len(*in)); copy(*out, *in) }\<close>: the built-in \<open>copy\<close> copies as many elements as
  the shorter slice has, element by element when the two do not overlap.
\<close>

definition clone_slice :: "('a, 'c) kind \<Rightarrow> 'a \<Rightarrow> memslice \<Rightarrow> ('c heap, memslice) go" where
  "clone_slice K zero s =
     (case s of
        None \<Rightarrow> ret None
      | Some src \<Rightarrow>
          go_bind (make_slice K zero (sl_Len src)) (\<lambda>dst.
          go_bind (copy_items K ret src dst [0..<min (sl_Len dst) (sl_Len src)]) (\<lambda>_. ret (Some dst))))"

text \<open>\<open>if p == nil { return nil }; out := new(T); p.DeepCopyInto(out); return out\<close>\<close>

definition copy_pointer ::
  "('a, 'c) kind \<Rightarrow> 'a \<Rightarrow> ('a \<Rightarrow> ('c heap, 'a) go) \<Rightarrow> pointer \<Rightarrow> ('c heap, pointer) go" where
  "copy_pointer K zero f p =
     (case p of
        None \<Rightarrow> ret None
      | Some l \<Rightarrow>
          go_bind (new_block K zero) (\<lambda>q.
          go_bind (copy_into K f (Some l) (Some q)) (\<lambda>_. ret (Some q))))"

section \<open>Views\<close>

definition peek :: "('a, 'c) kind \<Rightarrow> 'c heap \<Rightarrow> nat \<times> nat \<Rightarrow> 'a option" where
  "peek K h l =
     (case block K h (fst l) of None \<Rightarrow> None | Some xs \<Rightarrow> if snd l < length xs then Some (xs ! snd l) else None)"

definition slice_elems :: "('a, 'c) kind \<Rightarrow> 'c heap \<Rightarrow> slice_header \<Rightarrow> 'a list option" where
  "slice_elems K h s =
     (case block K h (sl_Block s) of
        None \<Rightarrow> None
      | Some xs \<Rightarrow>
          if sl_First s + sl_Len s \<le> length xs then Some (take (sl_Len s) (drop (sl_First s) xs)) else None)"

definition pointer_view ::
  "('a, 'c) kind \<Rightarrow> ('c heap \<Rightarrow> 'a \<Rightarrow> 'b option) \<Rightarrow> 'c heap \<Rightarrow> pointer \<Rightarrow> 'b option option" where
  "pointer_view K view h p =
     (case p of None \<Rightarrow> Some None | Some l \<Rightarrow> map_option Some (Option.bind (peek K h l) (view h)))"

definition pointer_reach ::
  "('a, 'c) kind \<Rightarrow> ('c heap \<Rightarrow> 'a \<Rightarrow> nat set) \<Rightarrow> 'c heap \<Rightarrow> pointer \<Rightarrow> nat set" where
  "pointer_reach K reach h p =
     (case p of None \<Rightarrow> {} | Some l \<Rightarrow> insert (fst l) (case peek K h l of None \<Rightarrow> {} | Some x \<Rightarrow> reach h x))"

definition slice_view ::
  "('a, 'c) kind \<Rightarrow> ('c heap \<Rightarrow> 'a \<Rightarrow> 'b option) \<Rightarrow> 'c heap \<Rightarrow> memslice \<Rightarrow> 'b slice option" where
  "slice_view K view h s =
     (case s of
        None \<Rightarrow> Some None
      | Some sl \<Rightarrow> map_option Some (Option.bind (slice_elems K h sl) (\<lambda>xs. those (map (view h) xs))))"

definition slice_reach ::
  "('a, 'c) kind \<Rightarrow> ('c heap \<Rightarrow> 'a \<Rightarrow> nat set) \<Rightarrow> 'c heap \<Rightarrow> memslice \<Rightarrow> nat set" where
  "slice_reach K reach h s =
     (case s of
        None \<Rightarrow> {}
      | Some sl \<Rightarrow>
          insert (sl_Block sl) (case slice_elems K h sl of None \<Rightarrow> {} | Some xs \<Rightarrow> \<Union> (reach h ` set xs)))"

text \<open>Values without pointers, and two values side by side.\<close>

definition plain_view :: "'c heap \<Rightarrow> 'a \<Rightarrow> 'a option" where
  "plain_view h v = Some v"

definition plain_reach :: "'c heap \<Rightarrow> 'a \<Rightarrow> nat set" where
  "plain_reach h v = {}"

definition both_view ::
  "('c heap \<Rightarrow> 'a \<Rightarrow> 'x option) \<Rightarrow> ('c heap \<Rightarrow> 'b \<Rightarrow> 'y option) \<Rightarrow> 'c heap \<Rightarrow> 'a \<times> 'b \<Rightarrow> ('x \<times> 'y) option" where
  "both_view v1 v2 h p = Option.bind (v1 h (fst p)) (\<lambda>x. map_option (Pair x) (v2 h (snd p)))"

definition both_reach ::
  "('c heap \<Rightarrow> 'a \<Rightarrow> nat set) \<Rightarrow> ('c heap \<Rightarrow> 'b \<Rightarrow> nat set) \<Rightarrow> 'c heap \<Rightarrow> 'a \<times> 'b \<Rightarrow> nat set" where
  "both_reach r1 r2 h p = r1 h (fst p) \<union> r2 h (snd p)"

definition both_copy ::
  "('a \<Rightarrow> ('c heap, 'a) go) \<Rightarrow> ('b \<Rightarrow> ('c heap, 'b) go) \<Rightarrow> 'a \<times> 'b \<Rightarrow> ('c heap, 'a \<times> 'b) go" where
  "both_copy f g p = go_bind (f (fst p)) (\<lambda>a. go_bind (g (snd p)) (\<lambda>b. ret (a, b)))"

section \<open>Heaps that only grow\<close>

definition fenced :: "'c heap \<Rightarrow> bool" where
  "fenced h \<longleftrightarrow> dom (cells h) \<subseteq> {..<limit h}"

definition grows :: "'c heap \<Rightarrow> 'c heap \<Rightarrow> bool" where
  "grows h h' \<longleftrightarrow> limit h \<le> limit h' \<and> (\<forall>b<limit h. cells h' b = cells h b)"

lemma grows_refl [simp, intro]: "grows h h"
  by (simp add: grows_def)

lemma grows_trans [trans]: "grows h h' \<Longrightarrow> grows h' h'' \<Longrightarrow> grows h h''"
  by (auto simp: grows_def)

lemma those_Some_iff: "those (map f xs) = Some ys \<longleftrightarrow> list_all2 (\<lambda>x y. f x = Some y) xs ys"
  by (induction xs arbitrary: ys) (auto simp: list_all2_Cons1 split: option.splits)

lemma all2_Some_member: "list_all2 (\<lambda>x y. f x = Some y) xs ys \<Longrightarrow> x \<in> set xs \<Longrightarrow> \<exists>y. f x = Some y"
  by (auto simp: list_all2_conv_all_nth in_set_conv_nth)

end
