(* ===== verification/Deep_Copy.thy ===== *)
theory Deep_Copy
  imports Go_Heap Api_Types
begin

text \<open>
  The generated \<open>DeepCopyInto\<close>, \<open>DeepCopy\<close> and \<open>DeepCopyObject\<close> (\<open>zz_generated.deepcopy.go\<close>) over Go's
  memory. Here the structs of the resources are as they lie in memory, pointers and slice
  headers included; \<open>Api_Types\<close> has the values that they stand for. A struct with pointers is
  a record over the types of its pointer fields, so that the same record also describes the tree behind
  it (a slice instead of a header, a value instead of a pointer).

  \<open>DeepCopyInto\<close> takes the value behind its receiver and returns what it leaves in \<open>*out\<close>; \<open>DeepCopy\<close> and
  \<open>DeepCopyObject\<close> take and return pointers. The copy functions of the Kubernetes library
  (\<open>ObjectMeta\<close>, \<open>ListMeta\<close>, \<open>Time\<close>, \<open>SecretKeySelector\<close>) and the zero values of its structs are parameters; its structs are
  values of the type \<open>'v\<close>, and what they point to is in blocks of the type \<open>'l\<close>.
\<close>

section \<open>Structs in memory\<close>

record TypeMeta =
  tm_Kind :: string
  tm_APIVersion :: string

record 'sel key_source =
  ks_SecretKeyRef :: 'sel

record 'src identification =
  idn_AuthPlugin :: string
  idn_AuthString :: 'src
  idn_ClearText :: bool

record 'grants permission =
  perm_Name :: string
  perm_Grants :: 'grants

record 'collations charset =
  chs_Name :: string
  chs_Collations :: 'collations

record ('src, 'names) admin_spec =
  as_Host :: string
  as_Port :: int32
  as_AdminUser :: 'src
  as_AdminPassword :: 'src
  as_AllowedNamespaces :: 'names

record ('time, 'charsets) admin_status =
  ast_SyncTime :: 'time
  ast_Message :: string
  ast_ControlDatabase :: string
  ast_CharacterSet :: string
  ast_Collation :: string
  ast_AvailableCharsets :: 'charsets

record 'time database_status =
  dbst_CreationTime :: 'time
  dbst_SyncTime :: 'time
  dbst_CharacterSet :: string
  dbst_Collate :: string
  dbst_Message :: string
  dbst_Name :: string
  dbst_Host :: string
  dbst_Port :: int32

record ('identification, 'permissions) user_spec =
  usp_AdminConnection :: AdminConnectionRef
  usp_Username :: string
  usp_Identification :: 'identification
  usp_DatabaseList :: 'permissions
  usp_TlsOptions :: TlsOptions

record ('time, 'identification, 'permissions, 'grants) user_status =
  usts_CreationTime :: 'time
  usts_SyncTime :: 'time
  usts_Message :: string
  usts_Username :: string
  usts_DatabaseList :: 'permissions
  usts_Grants :: 'grants
  usts_Identification :: 'identification
  usts_IdentificationResourceVersion :: string
  usts_TlsOptions :: TlsOptions

record ('meta, 'spec, 'status) resource =
  res_TypeMeta :: TypeMeta
  res_ObjectMeta :: 'meta
  res_Spec :: 'spec
  res_Status :: 'status

record ('meta, 'items) resource_list =
  rl_TypeMeta :: TypeMeta
  rl_ListMeta :: 'meta
  rl_Items :: 'items

type_synonym identification_m = "pointer identification"
type_synonym permission_m = "memslice permission"
type_synonym charset_m = "memslice charset"
type_synonym admin_spec_m = "(pointer, memslice) admin_spec"
type_synonym 'v admin_status_m = "('v, memslice) admin_status"
type_synonym 'v admin_m = "('v, admin_spec_m, 'v admin_status_m) resource"
type_synonym 'v database_m = "('v, DatabaseSpec, 'v database_status) resource"
type_synonym user_spec_m = "(pointer, memslice) user_spec"
type_synonym 'v user_status_m = "('v, pointer, memslice, memslice) user_status"
type_synonym 'v user_m = "('v, user_spec_m, 'v user_status_m) resource"
type_synonym 'v object_list_m = "('v, memslice) resource_list"

section \<open>Memory\<close>

text \<open>One kind of block for every type that the code allocates.\<close>

datatype ('v, 'l) cell =
    Strings "string list"
  | AdminConnections "'v admin_m list"
  | AdminConnectionLists "'v object_list_m list"
  | AdminConnectionRefs "AdminConnectionRef list"
  | AdminConnectionSpecs "admin_spec_m list"
  | AdminConnectionStatuses "'v admin_status_m list"
  | CharsetBlock "charset_m list"
  | CollationBlock "Collation list"
  | Databases "'v database_m list"
  | DatabaseLists "'v object_list_m list"
  | DatabasePermissions "permission_m list"
  | DatabaseSpecs "DatabaseSpec list"
  | DatabaseStatuses "'v database_status list"
  | DatabaseUsers "'v user_m list"
  | DatabaseUserLists "'v object_list_m list"
  | DatabaseUserSpecs "user_spec_m list"
  | DatabaseUserStatuses "'v user_status_m list"
  | Identifications "identification_m list"
  | SecretKeySources "'v key_source list"
  | TlsOptionsBlock "TlsOptions list"
  | LibraryBlock 'l

type_synonym ('v, 'l) memory = "('v, 'l) cell heap"

definition string_kind :: "(string, ('v, 'l) cell) kind" where
  "string_kind = \<lparr>wrap = Strings, unwrap = (\<lambda>c. case c of Strings xs \<Rightarrow> Some xs | _ \<Rightarrow> None)\<rparr>"

definition AdminConnection_kind :: "('v admin_m, ('v, 'l) cell) kind" where
  "AdminConnection_kind = \<lparr>wrap = AdminConnections, unwrap = (\<lambda>c. case c of AdminConnections xs \<Rightarrow> Some xs | _ \<Rightarrow> None)\<rparr>"

definition AdminConnectionList_kind :: "('v object_list_m, ('v, 'l) cell) kind" where
  "AdminConnectionList_kind = \<lparr>wrap = AdminConnectionLists, unwrap = (\<lambda>c. case c of AdminConnectionLists xs \<Rightarrow> Some xs | _ \<Rightarrow> None)\<rparr>"

definition AdminConnectionRef_kind :: "(AdminConnectionRef, ('v, 'l) cell) kind" where
  "AdminConnectionRef_kind = \<lparr>wrap = AdminConnectionRefs, unwrap = (\<lambda>c. case c of AdminConnectionRefs xs \<Rightarrow> Some xs | _ \<Rightarrow> None)\<rparr>"

definition AdminConnectionSpec_kind :: "(admin_spec_m, ('v, 'l) cell) kind" where
  "AdminConnectionSpec_kind = \<lparr>wrap = AdminConnectionSpecs, unwrap = (\<lambda>c. case c of AdminConnectionSpecs xs \<Rightarrow> Some xs | _ \<Rightarrow> None)\<rparr>"

definition AdminConnectionStatus_kind :: "('v admin_status_m, ('v, 'l) cell) kind" where
  "AdminConnectionStatus_kind = \<lparr>wrap = AdminConnectionStatuses, unwrap = (\<lambda>c. case c of AdminConnectionStatuses xs \<Rightarrow> Some xs | _ \<Rightarrow> None)\<rparr>"

definition Charset_kind :: "(charset_m, ('v, 'l) cell) kind" where
  "Charset_kind = \<lparr>wrap = CharsetBlock, unwrap = (\<lambda>c. case c of CharsetBlock xs \<Rightarrow> Some xs | _ \<Rightarrow> None)\<rparr>"

definition Collation_kind :: "(Collation, ('v, 'l) cell) kind" where
  "Collation_kind = \<lparr>wrap = CollationBlock, unwrap = (\<lambda>c. case c of CollationBlock xs \<Rightarrow> Some xs | _ \<Rightarrow> None)\<rparr>"

definition Database_kind :: "('v database_m, ('v, 'l) cell) kind" where
  "Database_kind = \<lparr>wrap = Databases, unwrap = (\<lambda>c. case c of Databases xs \<Rightarrow> Some xs | _ \<Rightarrow> None)\<rparr>"

definition DatabaseList_kind :: "('v object_list_m, ('v, 'l) cell) kind" where
  "DatabaseList_kind = \<lparr>wrap = DatabaseLists, unwrap = (\<lambda>c. case c of DatabaseLists xs \<Rightarrow> Some xs | _ \<Rightarrow> None)\<rparr>"

definition DatabasePermission_kind :: "(permission_m, ('v, 'l) cell) kind" where
  "DatabasePermission_kind = \<lparr>wrap = DatabasePermissions, unwrap = (\<lambda>c. case c of DatabasePermissions xs \<Rightarrow> Some xs | _ \<Rightarrow> None)\<rparr>"

definition DatabaseSpec_kind :: "(DatabaseSpec, ('v, 'l) cell) kind" where
  "DatabaseSpec_kind = \<lparr>wrap = DatabaseSpecs, unwrap = (\<lambda>c. case c of DatabaseSpecs xs \<Rightarrow> Some xs | _ \<Rightarrow> None)\<rparr>"

definition DatabaseStatus_kind :: "('v database_status, ('v, 'l) cell) kind" where
  "DatabaseStatus_kind = \<lparr>wrap = DatabaseStatuses, unwrap = (\<lambda>c. case c of DatabaseStatuses xs \<Rightarrow> Some xs | _ \<Rightarrow> None)\<rparr>"

definition DatabaseUser_kind :: "('v user_m, ('v, 'l) cell) kind" where
  "DatabaseUser_kind = \<lparr>wrap = DatabaseUsers, unwrap = (\<lambda>c. case c of DatabaseUsers xs \<Rightarrow> Some xs | _ \<Rightarrow> None)\<rparr>"

definition DatabaseUserList_kind :: "('v object_list_m, ('v, 'l) cell) kind" where
  "DatabaseUserList_kind = \<lparr>wrap = DatabaseUserLists, unwrap = (\<lambda>c. case c of DatabaseUserLists xs \<Rightarrow> Some xs | _ \<Rightarrow> None)\<rparr>"

definition DatabaseUserSpec_kind :: "(user_spec_m, ('v, 'l) cell) kind" where
  "DatabaseUserSpec_kind = \<lparr>wrap = DatabaseUserSpecs, unwrap = (\<lambda>c. case c of DatabaseUserSpecs xs \<Rightarrow> Some xs | _ \<Rightarrow> None)\<rparr>"

definition DatabaseUserStatus_kind :: "('v user_status_m, ('v, 'l) cell) kind" where
  "DatabaseUserStatus_kind = \<lparr>wrap = DatabaseUserStatuses, unwrap = (\<lambda>c. case c of DatabaseUserStatuses xs \<Rightarrow> Some xs | _ \<Rightarrow> None)\<rparr>"

definition Identification_kind :: "(identification_m, ('v, 'l) cell) kind" where
  "Identification_kind = \<lparr>wrap = Identifications, unwrap = (\<lambda>c. case c of Identifications xs \<Rightarrow> Some xs | _ \<Rightarrow> None)\<rparr>"

definition SecretKeySource_kind :: "('v key_source, ('v, 'l) cell) kind" where
  "SecretKeySource_kind = \<lparr>wrap = SecretKeySources, unwrap = (\<lambda>c. case c of SecretKeySources xs \<Rightarrow> Some xs | _ \<Rightarrow> None)\<rparr>"

definition TlsOptions_kind :: "(TlsOptions, ('v, 'l) cell) kind" where
  "TlsOptions_kind = \<lparr>wrap = TlsOptionsBlock, unwrap = (\<lambda>c. case c of TlsOptionsBlock xs \<Rightarrow> Some xs | _ \<Rightarrow> None)\<rparr>"

section \<open>The library, and zero values\<close>

record ('v, 'l) library =
  ObjectMeta_DeepCopyInto :: "'v \<Rightarrow> (('v, 'l) memory, 'v) go"
  ListMeta_DeepCopyInto :: "'v \<Rightarrow> (('v, 'l) memory, 'v) go"
  Time_DeepCopyInto :: "'v \<Rightarrow> (('v, 'l) memory, 'v) go"
  SecretKeySelector_DeepCopyInto :: "'v \<Rightarrow> (('v, 'l) memory, 'v) go"
  zero_ObjectMeta :: 'v
  zero_ListMeta :: 'v
  zero_Time :: 'v
  zero_SecretKeySelector :: 'v

definition zero_TypeMeta :: TypeMeta where
  "zero_TypeMeta = \<lparr>tm_Kind = [], tm_APIVersion = []\<rparr>"

definition zero_AdminConnectionRef :: AdminConnectionRef where
  "zero_AdminConnectionRef = \<lparr>acr_Namespace = [], acr_Name = []\<rparr>"

definition zero_Collation :: Collation where
  "zero_Collation = \<lparr>coll_Name = [], coll_Default = False\<rparr>"

definition zero_Charset :: charset_m where
  "zero_Charset = \<lparr>chs_Name = [], chs_Collations = None\<rparr>"

definition zero_DatabasePermission :: permission_m where
  "zero_DatabasePermission = \<lparr>perm_Name = [], perm_Grants = None\<rparr>"

definition zero_Identification :: identification_m where
  "zero_Identification = \<lparr>idn_AuthPlugin = [], idn_AuthString = None, idn_ClearText = False\<rparr>"

definition zero_TlsOptions :: TlsOptions where
  "zero_TlsOptions = \<lparr>tls_Required = False\<rparr>"

definition zero_SecretKeySource :: "('v, 'l) library \<Rightarrow> 'v key_source" where
  "zero_SecretKeySource L = \<lparr>ks_SecretKeyRef = zero_SecretKeySelector L\<rparr>"

definition zero_AdminConnectionSpec :: admin_spec_m where
  "zero_AdminConnectionSpec =
     \<lparr>as_Host = [], as_Port = 0, as_AdminUser = None, as_AdminPassword = None, as_AllowedNamespaces = None\<rparr>"

definition zero_AdminConnectionStatus :: "('v, 'l) library \<Rightarrow> 'v admin_status_m" where
  "zero_AdminConnectionStatus L =
     \<lparr>ast_SyncTime = zero_Time L, ast_Message = [], ast_ControlDatabase = [], ast_CharacterSet = [],
      ast_Collation = [], ast_AvailableCharsets = None\<rparr>"

definition zero_DatabaseSpec :: DatabaseSpec where
  "zero_DatabaseSpec =
     \<lparr>ds_AdminConnection = zero_AdminConnectionRef, ds_Name = [], ds_CharacterSet = [], ds_Collate = []\<rparr>"

definition zero_DatabaseStatus :: "('v, 'l) library \<Rightarrow> 'v database_status" where
  "zero_DatabaseStatus L =
     \<lparr>dbst_CreationTime = zero_Time L, dbst_SyncTime = zero_Time L, dbst_CharacterSet = [], dbst_Collate = [],
      dbst_Message = [], dbst_Name = [], dbst_Host = [], dbst_Port = 0\<rparr>"

definition zero_DatabaseUserSpec :: user_spec_m where
  "zero_DatabaseUserSpec =
     \<lparr>usp_AdminConnection = zero_AdminConnectionRef, usp_Username = [], usp_Identification = None,
      usp_DatabaseList = None, usp_TlsOptions = zero_TlsOptions\<rparr>"

definition zero_DatabaseUserStatus :: "('v, 'l) library \<Rightarrow> 'v user_status_m" where
  "zero_DatabaseUserStatus L =
     \<lparr>usts_CreationTime = zero_Time L, usts_SyncTime = zero_Time L, usts_Message = [], usts_Username = [],
      usts_DatabaseList = None, usts_Grants = None, usts_Identification = None,
      usts_IdentificationResourceVersion = [], usts_TlsOptions = zero_TlsOptions\<rparr>"

definition zero_resource :: "('v, 'l) library \<Rightarrow> 'spec \<Rightarrow> 'status \<Rightarrow> ('v, 'spec, 'status) resource" where
  "zero_resource L spec status =
     \<lparr>res_TypeMeta = zero_TypeMeta, res_ObjectMeta = zero_ObjectMeta L, res_Spec = spec, res_Status = status\<rparr>"

definition zero_AdminConnection :: "('v, 'l) library \<Rightarrow> 'v admin_m" where
  "zero_AdminConnection L = zero_resource L zero_AdminConnectionSpec (zero_AdminConnectionStatus L)"

definition zero_Database :: "('v, 'l) library \<Rightarrow> 'v database_m" where
  "zero_Database L = zero_resource L zero_DatabaseSpec (zero_DatabaseStatus L)"

definition zero_DatabaseUser :: "('v, 'l) library \<Rightarrow> 'v user_m" where
  "zero_DatabaseUser L = zero_resource L zero_DatabaseUserSpec (zero_DatabaseUserStatus L)"

definition zero_list :: "('v, 'l) library \<Rightarrow> 'v object_list_m" where
  "zero_list L = \<lparr>rl_TypeMeta = zero_TypeMeta, rl_ListMeta = zero_ListMeta L, rl_Items = None\<rparr>"

section \<open>DeepCopyInto\<close>

text \<open>The record that each definition updates is \<open>*in\<close>: every function begins with \<open>*out = *in\<close>.\<close>

definition AdminConnectionRef_DeepCopyInto ::
  "AdminConnectionRef \<Rightarrow> (('v, 'l) memory, AdminConnectionRef) go" where
  "AdminConnectionRef_DeepCopyInto inp =
     ret inp"

definition Collation_DeepCopyInto ::
  "Collation \<Rightarrow> (('v, 'l) memory, Collation) go" where
  "Collation_DeepCopyInto inp =
     ret inp"

definition TlsOptions_DeepCopyInto ::
  "TlsOptions \<Rightarrow> (('v, 'l) memory, TlsOptions) go" where
  "TlsOptions_DeepCopyInto inp =
     ret inp"

definition DatabaseSpec_DeepCopyInto ::
  "DatabaseSpec \<Rightarrow> (('v, 'l) memory, DatabaseSpec) go" where
  "DatabaseSpec_DeepCopyInto inp =
     ret (inp\<lparr>ds_AdminConnection := ds_AdminConnection inp\<rparr>)"

definition Charset_DeepCopyInto ::
  "charset_m \<Rightarrow> (('v, 'l) memory, charset_m) go" where
  "Charset_DeepCopyInto inp =
     go_bind (clone_slice Collation_kind zero_Collation (chs_Collations inp)) (\<lambda>collations.
     ret (inp\<lparr>chs_Collations := collations\<rparr>))"

definition DatabasePermission_DeepCopyInto ::
  "permission_m \<Rightarrow> (('v, 'l) memory, permission_m) go" where
  "DatabasePermission_DeepCopyInto inp =
     go_bind (clone_slice string_kind [] (perm_Grants inp)) (\<lambda>grants.
     ret (inp\<lparr>perm_Grants := grants\<rparr>))"

definition SecretKeySource_DeepCopyInto ::
  "('v, 'l) library \<Rightarrow> 'v key_source \<Rightarrow> (('v, 'l) memory, 'v key_source) go" where
  "SecretKeySource_DeepCopyInto L inp =
     go_bind (SecretKeySelector_DeepCopyInto L (ks_SecretKeyRef inp)) (\<lambda>ref.
     ret (inp\<lparr>ks_SecretKeyRef := ref\<rparr>))"

definition Identification_DeepCopyInto ::
  "('v, 'l) library \<Rightarrow> identification_m \<Rightarrow> (('v, 'l) memory, identification_m) go" where
  "Identification_DeepCopyInto L inp =
     go_bind (copy_pointer SecretKeySource_kind (zero_SecretKeySource L) (SecretKeySource_DeepCopyInto L)
                (idn_AuthString inp)) (\<lambda>src.
     ret (inp\<lparr>idn_AuthString := src\<rparr>))"

definition AdminConnectionSpec_DeepCopyInto ::
  "('v, 'l) library \<Rightarrow> admin_spec_m \<Rightarrow> (('v, 'l) memory, admin_spec_m) go" where
  "AdminConnectionSpec_DeepCopyInto L inp =
     go_bind (copy_pointer SecretKeySource_kind (zero_SecretKeySource L) (SecretKeySource_DeepCopyInto L)
                (as_AdminUser inp)) (\<lambda>user.
     go_bind (copy_pointer SecretKeySource_kind (zero_SecretKeySource L) (SecretKeySource_DeepCopyInto L)
                (as_AdminPassword inp)) (\<lambda>password.
     go_bind (clone_slice string_kind [] (as_AllowedNamespaces inp)) (\<lambda>names.
     ret (inp\<lparr>as_AdminUser := user, as_AdminPassword := password, as_AllowedNamespaces := names\<rparr>))))"

definition AdminConnectionStatus_DeepCopyInto ::
  "('v, 'l) library \<Rightarrow> 'v admin_status_m \<Rightarrow> (('v, 'l) memory, 'v admin_status_m) go" where
  "AdminConnectionStatus_DeepCopyInto L inp =
     go_bind (Time_DeepCopyInto L (ast_SyncTime inp)) (\<lambda>sync.
     go_bind (copy_slice Charset_kind zero_Charset Charset_DeepCopyInto (ast_AvailableCharsets inp)) (\<lambda>charsets.
     ret (inp\<lparr>ast_SyncTime := sync, ast_AvailableCharsets := charsets\<rparr>)))"

definition DatabaseStatus_DeepCopyInto ::
  "('v, 'l) library \<Rightarrow> 'v database_status \<Rightarrow> (('v, 'l) memory, 'v database_status) go" where
  "DatabaseStatus_DeepCopyInto L inp =
     go_bind (Time_DeepCopyInto L (dbst_CreationTime inp)) (\<lambda>creation.
     go_bind (Time_DeepCopyInto L (dbst_SyncTime inp)) (\<lambda>sync.
     ret (inp\<lparr>dbst_CreationTime := creation, dbst_SyncTime := sync\<rparr>)))"

definition DatabaseUserSpec_DeepCopyInto ::
  "('v, 'l) library \<Rightarrow> user_spec_m \<Rightarrow> (('v, 'l) memory, user_spec_m) go" where
  "DatabaseUserSpec_DeepCopyInto L inp =
     go_bind (copy_pointer Identification_kind zero_Identification (Identification_DeepCopyInto L)
                (usp_Identification inp)) (\<lambda>ident.
     go_bind (copy_slice DatabasePermission_kind zero_DatabasePermission DatabasePermission_DeepCopyInto
                (usp_DatabaseList inp)) (\<lambda>permissions.
     ret (inp\<lparr>usp_AdminConnection := usp_AdminConnection inp, usp_Identification := ident,
              usp_DatabaseList := permissions, usp_TlsOptions := usp_TlsOptions inp\<rparr>)))"

definition DatabaseUserStatus_DeepCopyInto ::
  "('v, 'l) library \<Rightarrow> 'v user_status_m \<Rightarrow> (('v, 'l) memory, 'v user_status_m) go" where
  "DatabaseUserStatus_DeepCopyInto L inp =
     go_bind (Time_DeepCopyInto L (usts_CreationTime inp)) (\<lambda>creation.
     go_bind (Time_DeepCopyInto L (usts_SyncTime inp)) (\<lambda>sync.
     go_bind (copy_slice DatabasePermission_kind zero_DatabasePermission DatabasePermission_DeepCopyInto
                (usts_DatabaseList inp)) (\<lambda>permissions.
     go_bind (clone_slice string_kind [] (usts_Grants inp)) (\<lambda>grants.
     go_bind (copy_pointer Identification_kind zero_Identification (Identification_DeepCopyInto L)
                (usts_Identification inp)) (\<lambda>ident.
     ret (inp\<lparr>usts_CreationTime := creation, usts_SyncTime := sync, usts_DatabaseList := permissions,
              usts_Grants := grants, usts_Identification := ident, usts_TlsOptions := usts_TlsOptions inp\<rparr>))))))"

definition AdminConnection_DeepCopyInto ::
  "('v, 'l) library \<Rightarrow> 'v admin_m \<Rightarrow> (('v, 'l) memory, 'v admin_m) go" where
  "AdminConnection_DeepCopyInto L inp =
     go_bind (ObjectMeta_DeepCopyInto L (res_ObjectMeta inp)) (\<lambda>meta.
     go_bind (AdminConnectionSpec_DeepCopyInto L (res_Spec inp)) (\<lambda>spec.
     go_bind (AdminConnectionStatus_DeepCopyInto L (res_Status inp)) (\<lambda>status.
     ret (inp\<lparr>res_TypeMeta := res_TypeMeta inp, res_ObjectMeta := meta, res_Spec := spec, res_Status := status\<rparr>))))"

definition DatabaseUser_DeepCopyInto ::
  "('v, 'l) library \<Rightarrow> 'v user_m \<Rightarrow> (('v, 'l) memory, 'v user_m) go" where
  "DatabaseUser_DeepCopyInto L inp =
     go_bind (ObjectMeta_DeepCopyInto L (res_ObjectMeta inp)) (\<lambda>meta.
     go_bind (DatabaseUserSpec_DeepCopyInto L (res_Spec inp)) (\<lambda>spec.
     go_bind (DatabaseUserStatus_DeepCopyInto L (res_Status inp)) (\<lambda>status.
     ret (inp\<lparr>res_TypeMeta := res_TypeMeta inp, res_ObjectMeta := meta, res_Spec := spec, res_Status := status\<rparr>))))"

definition Database_DeepCopyInto ::
  "('v, 'l) library \<Rightarrow> 'v database_m \<Rightarrow> (('v, 'l) memory, 'v database_m) go" where
  "Database_DeepCopyInto L inp =
     go_bind (ObjectMeta_DeepCopyInto L (res_ObjectMeta inp)) (\<lambda>meta.
     go_bind (DatabaseStatus_DeepCopyInto L (res_Status inp)) (\<lambda>status.
     ret (inp\<lparr>res_TypeMeta := res_TypeMeta inp, res_ObjectMeta := meta, res_Spec := res_Spec inp,
              res_Status := status\<rparr>)))"

definition AdminConnectionList_DeepCopyInto ::
  "('v, 'l) library \<Rightarrow> 'v object_list_m \<Rightarrow> (('v, 'l) memory, 'v object_list_m) go" where
  "AdminConnectionList_DeepCopyInto L inp =
     go_bind (ListMeta_DeepCopyInto L (rl_ListMeta inp)) (\<lambda>meta.
     go_bind (copy_slice AdminConnection_kind (zero_AdminConnection L) (AdminConnection_DeepCopyInto L) (rl_Items inp)) (\<lambda>items.
     ret (inp\<lparr>rl_TypeMeta := rl_TypeMeta inp, rl_ListMeta := meta, rl_Items := items\<rparr>)))"

definition DatabaseList_DeepCopyInto ::
  "('v, 'l) library \<Rightarrow> 'v object_list_m \<Rightarrow> (('v, 'l) memory, 'v object_list_m) go" where
  "DatabaseList_DeepCopyInto L inp =
     go_bind (ListMeta_DeepCopyInto L (rl_ListMeta inp)) (\<lambda>meta.
     go_bind (copy_slice Database_kind (zero_Database L) (Database_DeepCopyInto L) (rl_Items inp)) (\<lambda>items.
     ret (inp\<lparr>rl_TypeMeta := rl_TypeMeta inp, rl_ListMeta := meta, rl_Items := items\<rparr>)))"

definition DatabaseUserList_DeepCopyInto ::
  "('v, 'l) library \<Rightarrow> 'v object_list_m \<Rightarrow> (('v, 'l) memory, 'v object_list_m) go" where
  "DatabaseUserList_DeepCopyInto L inp =
     go_bind (ListMeta_DeepCopyInto L (rl_ListMeta inp)) (\<lambda>meta.
     go_bind (copy_slice DatabaseUser_kind (zero_DatabaseUser L) (DatabaseUser_DeepCopyInto L) (rl_Items inp)) (\<lambda>items.
     ret (inp\<lparr>rl_TypeMeta := rl_TypeMeta inp, rl_ListMeta := meta, rl_Items := items\<rparr>)))"

section \<open>DeepCopy\<close>

definition AdminConnection_DeepCopy ::
  "('v, 'l) library \<Rightarrow> pointer \<Rightarrow> (('v, 'l) memory, pointer) go" where
  "AdminConnection_DeepCopy L inp =
     copy_pointer AdminConnection_kind (zero_AdminConnection L) (AdminConnection_DeepCopyInto L) inp"

definition AdminConnectionList_DeepCopy ::
  "('v, 'l) library \<Rightarrow> pointer \<Rightarrow> (('v, 'l) memory, pointer) go" where
  "AdminConnectionList_DeepCopy L inp =
     copy_pointer AdminConnectionList_kind (zero_list L) (AdminConnectionList_DeepCopyInto L) inp"

definition AdminConnectionRef_DeepCopy ::
  "pointer \<Rightarrow> (('v, 'l) memory, pointer) go" where
  "AdminConnectionRef_DeepCopy inp = copy_pointer AdminConnectionRef_kind zero_AdminConnectionRef AdminConnectionRef_DeepCopyInto inp"

definition AdminConnectionSpec_DeepCopy ::
  "('v, 'l) library \<Rightarrow> pointer \<Rightarrow> (('v, 'l) memory, pointer) go" where
  "AdminConnectionSpec_DeepCopy L inp =
     copy_pointer AdminConnectionSpec_kind zero_AdminConnectionSpec (AdminConnectionSpec_DeepCopyInto L) inp"

definition AdminConnectionStatus_DeepCopy ::
  "('v, 'l) library \<Rightarrow> pointer \<Rightarrow> (('v, 'l) memory, pointer) go" where
  "AdminConnectionStatus_DeepCopy L inp =
     copy_pointer AdminConnectionStatus_kind (zero_AdminConnectionStatus L) (AdminConnectionStatus_DeepCopyInto L) inp"

definition Charset_DeepCopy ::
  "pointer \<Rightarrow> (('v, 'l) memory, pointer) go" where
  "Charset_DeepCopy inp = copy_pointer Charset_kind zero_Charset Charset_DeepCopyInto inp"

definition Collation_DeepCopy ::
  "pointer \<Rightarrow> (('v, 'l) memory, pointer) go" where
  "Collation_DeepCopy inp = copy_pointer Collation_kind zero_Collation Collation_DeepCopyInto inp"

definition Database_DeepCopy ::
  "('v, 'l) library \<Rightarrow> pointer \<Rightarrow> (('v, 'l) memory, pointer) go" where
  "Database_DeepCopy L inp =
     copy_pointer Database_kind (zero_Database L) (Database_DeepCopyInto L) inp"

definition DatabaseList_DeepCopy ::
  "('v, 'l) library \<Rightarrow> pointer \<Rightarrow> (('v, 'l) memory, pointer) go" where
  "DatabaseList_DeepCopy L inp =
     copy_pointer DatabaseList_kind (zero_list L) (DatabaseList_DeepCopyInto L) inp"

definition DatabasePermission_DeepCopy ::
  "pointer \<Rightarrow> (('v, 'l) memory, pointer) go" where
  "DatabasePermission_DeepCopy inp = copy_pointer DatabasePermission_kind zero_DatabasePermission DatabasePermission_DeepCopyInto inp"

definition DatabaseSpec_DeepCopy ::
  "pointer \<Rightarrow> (('v, 'l) memory, pointer) go" where
  "DatabaseSpec_DeepCopy inp = copy_pointer DatabaseSpec_kind zero_DatabaseSpec DatabaseSpec_DeepCopyInto inp"

definition DatabaseStatus_DeepCopy ::
  "('v, 'l) library \<Rightarrow> pointer \<Rightarrow> (('v, 'l) memory, pointer) go" where
  "DatabaseStatus_DeepCopy L inp =
     copy_pointer DatabaseStatus_kind (zero_DatabaseStatus L) (DatabaseStatus_DeepCopyInto L) inp"

definition DatabaseUser_DeepCopy ::
  "('v, 'l) library \<Rightarrow> pointer \<Rightarrow> (('v, 'l) memory, pointer) go" where
  "DatabaseUser_DeepCopy L inp =
     copy_pointer DatabaseUser_kind (zero_DatabaseUser L) (DatabaseUser_DeepCopyInto L) inp"

definition DatabaseUserList_DeepCopy ::
  "('v, 'l) library \<Rightarrow> pointer \<Rightarrow> (('v, 'l) memory, pointer) go" where
  "DatabaseUserList_DeepCopy L inp =
     copy_pointer DatabaseUserList_kind (zero_list L) (DatabaseUserList_DeepCopyInto L) inp"

definition DatabaseUserSpec_DeepCopy ::
  "('v, 'l) library \<Rightarrow> pointer \<Rightarrow> (('v, 'l) memory, pointer) go" where
  "DatabaseUserSpec_DeepCopy L inp =
     copy_pointer DatabaseUserSpec_kind zero_DatabaseUserSpec (DatabaseUserSpec_DeepCopyInto L) inp"

definition DatabaseUserStatus_DeepCopy ::
  "('v, 'l) library \<Rightarrow> pointer \<Rightarrow> (('v, 'l) memory, pointer) go" where
  "DatabaseUserStatus_DeepCopy L inp =
     copy_pointer DatabaseUserStatus_kind (zero_DatabaseUserStatus L) (DatabaseUserStatus_DeepCopyInto L) inp"

definition Identification_DeepCopy ::
  "('v, 'l) library \<Rightarrow> pointer \<Rightarrow> (('v, 'l) memory, pointer) go" where
  "Identification_DeepCopy L inp =
     copy_pointer Identification_kind zero_Identification (Identification_DeepCopyInto L) inp"

definition SecretKeySource_DeepCopy ::
  "('v, 'l) library \<Rightarrow> pointer \<Rightarrow> (('v, 'l) memory, pointer) go" where
  "SecretKeySource_DeepCopy L inp =
     copy_pointer SecretKeySource_kind (zero_SecretKeySource L) (SecretKeySource_DeepCopyInto L) inp"

definition TlsOptions_DeepCopy ::
  "pointer \<Rightarrow> (('v, 'l) memory, pointer) go" where
  "TlsOptions_DeepCopy inp = copy_pointer TlsOptions_kind zero_TlsOptions TlsOptions_DeepCopyInto inp"

section \<open>DeepCopyObject\<close>

text \<open>A value of the interface \<open>runtime.Object\<close>: a type with a pointer, or nil.\<close>

datatype runtime_Object =
    RO_AdminConnection pointer
  | RO_AdminConnectionList pointer
  | RO_Database pointer
  | RO_DatabaseList pointer
  | RO_DatabaseUser pointer
  | RO_DatabaseUserList pointer

definition AdminConnection_DeepCopyObject ::
  "('v, 'l) library \<Rightarrow> pointer \<Rightarrow> (('v, 'l) memory, runtime_Object option) go" where
  "AdminConnection_DeepCopyObject L inp =
     go_bind (AdminConnection_DeepCopy L inp) (\<lambda>c. if c \<noteq> None then ret (Some (RO_AdminConnection c)) else ret None)"

definition AdminConnectionList_DeepCopyObject ::
  "('v, 'l) library \<Rightarrow> pointer \<Rightarrow> (('v, 'l) memory, runtime_Object option) go" where
  "AdminConnectionList_DeepCopyObject L inp =
     go_bind (AdminConnectionList_DeepCopy L inp) (\<lambda>c. if c \<noteq> None then ret (Some (RO_AdminConnectionList c)) else ret None)"

definition Database_DeepCopyObject ::
  "('v, 'l) library \<Rightarrow> pointer \<Rightarrow> (('v, 'l) memory, runtime_Object option) go" where
  "Database_DeepCopyObject L inp =
     go_bind (Database_DeepCopy L inp) (\<lambda>c. if c \<noteq> None then ret (Some (RO_Database c)) else ret None)"

definition DatabaseList_DeepCopyObject ::
  "('v, 'l) library \<Rightarrow> pointer \<Rightarrow> (('v, 'l) memory, runtime_Object option) go" where
  "DatabaseList_DeepCopyObject L inp =
     go_bind (DatabaseList_DeepCopy L inp) (\<lambda>c. if c \<noteq> None then ret (Some (RO_DatabaseList c)) else ret None)"

definition DatabaseUser_DeepCopyObject ::
  "('v, 'l) library \<Rightarrow> pointer \<Rightarrow> (('v, 'l) memory, runtime_Object option) go" where
  "DatabaseUser_DeepCopyObject L inp =
     go_bind (DatabaseUser_DeepCopy L inp) (\<lambda>c. if c \<noteq> None then ret (Some (RO_DatabaseUser c)) else ret None)"

definition DatabaseUserList_DeepCopyObject ::
  "('v, 'l) library \<Rightarrow> pointer \<Rightarrow> (('v, 'l) memory, runtime_Object option) go" where
  "DatabaseUserList_DeepCopyObject L inp =
     go_bind (DatabaseUserList_DeepCopy L inp) (\<lambda>c. if c \<noteq> None then ret (Some (RO_DatabaseUserList c)) else ret None)"

text \<open>The call through the interface.\<close>

primrec DeepCopyObject :: "('v, 'l) library \<Rightarrow> runtime_Object \<Rightarrow> (('v, 'l) memory, runtime_Object option) go" where
  "DeepCopyObject L (RO_AdminConnection p) = AdminConnection_DeepCopyObject L p"
| "DeepCopyObject L (RO_AdminConnectionList p) = AdminConnectionList_DeepCopyObject L p"
| "DeepCopyObject L (RO_Database p) = Database_DeepCopyObject L p"
| "DeepCopyObject L (RO_DatabaseList p) = DatabaseList_DeepCopyObject L p"
| "DeepCopyObject L (RO_DatabaseUser p) = DatabaseUser_DeepCopyObject L p"
| "DeepCopyObject L (RO_DatabaseUserList p) = DatabaseUserList_DeepCopyObject L p"

end
