(* ===== verification/Deep_Copying.thy ===== *)
theory Deep_Copying
  imports Go_Heap
begin

text \<open>
  The contract of a deep copy, as a locale: the copy has the same view as the original,
  over blocks that did not exist before, and nothing that existed has changed. Both sides
  can then be written to without the other one noticing. The contract is carried from
  the elements of a slice to the slice, from the target of a pointer to the pointer, and
  from the fields of a struct to the struct.
\<close>

section \<open>What a deep copy promises\<close>

locale deep_value =
  fixes view :: "'c heap \<Rightarrow> 'a \<Rightarrow> 'b option"
    and reach :: "'c heap \<Rightarrow> 'a \<Rightarrow> nat set"
  assumes reach_allocated: "view h v = Some x \<Longrightarrow> reach h v \<subseteq> dom (cells h)"
    and frame: "view h v = Some x \<Longrightarrow> (\<And>b. b \<in> reach h v \<Longrightarrow> cells h' b = cells h b) \<Longrightarrow>
      view h' v = Some x \<and> reach h' v = reach h v"
begin

lemma reach_below: "fenced h \<Longrightarrow> view h v = Some x \<Longrightarrow> reach h v \<subseteq> {..<limit h}"
  using reach_allocated by (fastforce simp: fenced_def)

lemma kept:
  assumes "fenced h" and "view h v = Some x" and "\<And>b. b < limit h \<Longrightarrow> cells h' b = cells h b"
  shows "view h' v = Some x" and "reach h' v = reach h v"
proof -
  have "\<And>b. b \<in> reach h v \<Longrightarrow> cells h' b = cells h b"
    using reach_below [OF assms(1,2)] assms(3) by auto
  from frame [OF assms(2) this] show "view h' v = Some x" and "reach h' v = reach h v" by auto
qed

lemma kept_grows:
  "fenced h \<Longrightarrow> grows h h' \<Longrightarrow> view h v = Some x \<Longrightarrow> view h' v = Some x \<and> reach h' v = reach h v"
  using kept [of h v x h'] by (simp add: grows_def)

end

locale deep_copying = deep_value view reach
  for view :: "'c heap \<Rightarrow> 'a \<Rightarrow> 'b option" and reach :: "'c heap \<Rightarrow> 'a \<Rightarrow> nat set" +
  fixes copy :: "'a \<Rightarrow> ('c heap, 'a) go"
  assumes copies: "fenced h \<Longrightarrow> view h v = Some x \<Longrightarrow>
    \<exists>v' h'. copy v h = Ret v' h' \<and> fenced h' \<and> grows h h' \<and> view h' v' = Some x \<and>
      reach h' v' \<subseteq> {limit h..<limit h'}"
begin

lemma copyE:
  assumes "fenced h" and "view h v = Some x"
  obtains v' h' where "copy v h = Ret v' h'" and "fenced h'" and "grows h h'" and "view h' v' = Some x"
    and "reach h' v' \<subseteq> {limit h..<limit h'}"
  using copies [OF assms] by blast

text \<open>The copy lives in blocks of its own, and whatever is written to the one does not change the other.\<close>

lemma separate:
  assumes "fenced h" and "view h v = Some x" and "copy v h = Ret v' h'"
  shows "reach h' v' \<inter> reach h' v = {}"
proof -
  obtain v1 h1 where c: "copy v h = Ret v1 h1" "grows h h1" "reach h1 v1 \<subseteq> {limit h..<limit h1}"
    using copyE [OF assms(1,2)] by metis
  moreover have "reach h1 v \<subseteq> {..<limit h}"
    using kept_grows [OF assms(1) c(2) assms(2)] reach_below [OF assms(1,2)] by simp
  ultimately show ?thesis using assms(3) by (fastforce simp: disjoint_iff)
qed

lemma isolated:
  assumes "fenced h" and "view h v = Some x" and "copy v h = Ret v' h'"
  shows "(\<And>b. b < limit h' \<Longrightarrow> b \<notin> reach h' v' \<Longrightarrow> cells h'' b = cells h' b) \<Longrightarrow> view h'' v = Some x"
    and "(\<And>b. b < limit h' \<Longrightarrow> b \<notin> reach h' v \<Longrightarrow> cells h'' b = cells h' b) \<Longrightarrow> view h'' v' = Some x"
proof -
  obtain v1 h1 where c: "copy v h = Ret v1 h1" "grows h h1" "view h1 v1 = Some x" "fenced h1"
    using copyE [OF assms(1,2)] by metis
  then have c': "grows h h'" "view h' v' = Some x" "fenced h'" using assms(3) by auto
  have o: "view h' v = Some x" using kept_grows [OF assms(1) c'(1) assms(2)] by simp
  note below = reach_below [OF c'(3)]
  show "view h'' v = Some x" if "\<And>b. b < limit h' \<Longrightarrow> b \<notin> reach h' v' \<Longrightarrow> cells h'' b = cells h' b"
    using frame [OF o, of h''] that separate [OF assms] below [OF o] by blast
  show "view h'' v' = Some x" if "\<And>b. b < limit h' \<Longrightarrow> b \<notin> reach h' v \<Longrightarrow> cells h'' b = cells h' b"
    using frame [OF c'(2), of h''] that separate [OF assms] below [OF c'(2)] by blast
qed

end

lemma plain_copying: "deep_copying plain_view plain_reach ret"
  by unfold_locales (auto simp: plain_view_def plain_reach_def)

interpretation plain: deep_copying plain_view plain_reach ret
  by (rule plain_copying)

lemma both_value:
  assumes "deep_value v1 r1" and "deep_value v2 r2"
  shows "deep_value (both_view v1 v2) (both_reach r1 r2)"
proof (unfold_locales, goal_cases)
  case (1 h p x)
  then show ?case
    using deep_value.reach_allocated [OF assms(1)] deep_value.reach_allocated [OF assms(2)]
    by (fastforce simp: both_view_def both_reach_def bind_eq_Some_conv)
next
  case (2 h p x h')
  then obtain a b where x: "x = (a, b)" and v: "v1 h (fst p) = Some a" "v2 h (snd p) = Some b"
    by (auto simp: both_view_def bind_eq_Some_conv)
  have "v1 h' (fst p) = Some a \<and> r1 h' (fst p) = r1 h (fst p)"
    by (rule deep_value.frame [OF assms(1) v(1)]) (simp add: 2(2) both_reach_def)
  moreover have "v2 h' (snd p) = Some b \<and> r2 h' (snd p) = r2 h (snd p)"
    by (rule deep_value.frame [OF assms(2) v(2)]) (simp add: 2(2) both_reach_def)
  ultimately show ?case by (simp add: both_view_def both_reach_def x)
qed

lemma deep_copyingI:
  assumes "deep_value view reach"
    and "\<And>h v x. fenced h \<Longrightarrow> view h v = Some x \<Longrightarrow>
      \<exists>v' h'. f v h = Ret v' h' \<and> fenced h' \<and> grows h h' \<and> view h' v' = Some x \<and>
        reach h' v' \<subseteq> {limit h..<limit h'}"
  shows "deep_copying view reach f"
  using assms by (simp add: deep_copying_def deep_copying_axioms_def)

lemma deep_copying_value: "deep_copying view reach f \<Longrightarrow> deep_value view reach"
  by (simp add: deep_copying_def)

lemma both_run:
  assumes "deep_copying v1 r1 f1" and "deep_copying v2 r2 f2" and h: "fenced h"
    and "both_view v1 v2 h p = Some x"
  obtains p1 p2 h1 h2 where "both_copy f1 f2 p h = Ret (p1, p2) h2" and "fenced h2" and "grows h h2"
    and "both_view v1 v2 h2 (p1, p2) = Some x" and "both_reach r1 r2 h2 (p1, p2) \<subseteq> {limit h..<limit h2}"
    and "fenced h1" and "grows h h1" and "r1 h2 p1 \<subseteq> {..<limit h1}" and "v2 h1 (snd p) = v2 h (snd p)"
    and "f2 (snd p) h1 = Ret p2 h2"
proof -
  note d = assms(1,2) [THEN deep_copying_value]
  obtain a b where x: "x = (a, b)" and v: "v1 h (fst p) = Some a" "v2 h (snd p) = Some b"
    using assms(4) by (auto simp: both_view_def bind_eq_Some_conv)
  obtain p1 h1 where 1: "f1 (fst p) h = Ret p1 h1" "fenced h1" "grows h h1" "v1 h1 p1 = Some a"
      "r1 h1 p1 \<subseteq> {limit h..<limit h1}"
    using deep_copying.copyE [OF assms(1) h v(1)] by blast
  have v2: "v2 h1 (snd p) = Some b" using deep_value.kept_grows [OF d(2) h 1(3) v(2)] by simp
  then obtain p2 h2 where 2: "f2 (snd p) h1 = Ret p2 h2" "fenced h2" "grows h1 h2" "v2 h2 p2 = Some b"
      "r2 h2 p2 \<subseteq> {limit h1..<limit h2}"
    using deep_copying.copyE [OF assms(2) 1(2)] by blast
  have "v1 h2 p1 = Some a \<and> r1 h2 p1 = r1 h1 p1"
    by (rule deep_value.kept_grows [OF d(1) 1(2) 2(3) 1(4)])
  moreover have "limit h \<le> limit h1" "limit h1 \<le> limit h2" using 1(3) 2(3) by (auto simp: grows_def)
  ultimately have "both_view v1 v2 h2 (p1, p2) = Some x" "both_reach r1 r2 h2 (p1, p2) \<subseteq> {limit h..<limit h2}"
      "r1 h2 p1 \<subseteq> {..<limit h1}"
    using 1(5) 2(4,5) by (auto simp: both_view_def both_reach_def x)
  moreover have "both_copy f1 f2 p h = Ret (p1, p2) h2"
    using 1(1) 2(1) by (simp add: both_copy_def go_bind_def)
  ultimately show thesis using that 1(2,3) 2(1,2) grows_trans [OF 1(3) 2(3)] v(2) v2 by metis
qed

lemma both_copying:
  assumes "deep_copying v1 r1 f1" and "deep_copying v2 r2 f2"
  shows "deep_copying (both_view v1 v2) (both_reach r1 r2) (both_copy f1 f2)"
proof (rule deep_copyingI)
  show "deep_value (both_view v1 v2) (both_reach r1 r2)"
    by (rule both_value) (rule assms [THEN deep_copying_value])+
  fix h :: "'a heap" and p x
  assume "fenced h" and "both_view v1 v2 h p = Some x"
  from both_run [OF assms this] show "\<exists>v' h'. both_copy f1 f2 p h = Ret v' h' \<and> fenced h' \<and> grows h h' \<and>
      both_view v1 v2 h' v' = Some x \<and> both_reach r1 r2 h' v' \<subseteq> {limit h..<limit h'}" by metis
qed

text \<open>A struct is copied by copying the fields that have pointers and putting them in place.\<close>

lemma copying_via:
  assumes "deep_copying view reach f"
    and "\<And>h v. view' h v = map_option (mk v) (view h (sel v))"
    and "\<And>h v. reach' h v = reach h (sel v)"
    and "\<And>v. f' v = go_bind (f (sel v)) (\<lambda>y. ret (upd y v))"
    and "\<And>y v. sel (upd y v) = y" and "\<And>y v. mk (upd y v) = mk v"
  shows "deep_copying view' reach' f'"
proof (rule deep_copyingI)
  note d = assms(1) [THEN deep_copying_value]
  show "deep_value view' reach'"
  proof (unfold_locales, goal_cases)
    case (1 h v x)
    then obtain y where "view h (sel v) = Some y" by (auto simp: assms)
    from deep_value.reach_allocated [OF d this] show ?case by (simp add: assms)
  next
    case (2 h v x h')
    then obtain y where y: "view h (sel v) = Some y" "x = mk v y" by (auto simp: assms)
    have "view h' (sel v) = Some y \<and> reach h' (sel v) = reach h (sel v)"
      by (rule deep_value.frame [OF d y(1)]) (simp add: 2(2) assms(3))
    then show ?case by (simp add: assms y(2))
  qed
  fix h :: "'a heap" and v x
  assume h: "fenced h" and "view' h v = Some x"
  then obtain y where y: "view h (sel v) = Some y" "x = mk v y" by (auto simp: assms)
  obtain v' h' where c: "f (sel v) h = Ret v' h'" "fenced h'" "grows h h'" "view h' v' = Some y"
      "reach h' v' \<subseteq> {limit h..<limit h'}"
    using deep_copying.copyE [OF assms(1) h y(1)] by blast
  then show "\<exists>v' h'. f' v h = Ret v' h' \<and> fenced h' \<and> grows h h' \<and> view' h' v' = Some x \<and>
      reach' h' v' \<subseteq> {limit h..<limit h'}"
    by (simp add: assms y(2) go_bind_def)
qed

section \<open>Blocks of one kind\<close>

locale block_kind =
  fixes K :: "('a, 'c) kind"
  assumes unwrap_iff: "unwrap K c = Some xs \<longleftrightarrow> c = wrap K xs"
begin

lemma block_iff: "block K h b = Some xs \<longleftrightarrow> cells h b = Some (wrap K xs)"
  by (auto simp: block_def bind_eq_Some_conv unwrap_iff)

lemma block_put [simp]: "block K (put_block K b xs h) b' = (if b' = b then Some xs else block K h b')"
  by (auto simp: block_def put_block_def unwrap_iff)

lemma block_limit [simp]: "block K (h\<lparr>limit := n\<rparr>) b = block K h b"
  by (simp add: block_def)

lemma peek_load: "peek K h l = Some x \<Longrightarrow> read_at K (Some l) h = Ret x h"
  by (cases l) (auto simp: peek_def read_at_def split: option.splits if_splits)

lemma peek_cell: "peek K h l = Some x \<Longrightarrow> fst l \<in> dom (cells h)"
  by (auto simp: peek_def block_iff split: option.splits)

lemma elems_cell: "slice_elems K h s = Some xs \<Longrightarrow> sl_Block s \<in> dom (cells h)"
  by (auto simp: slice_elems_def block_iff split: option.splits)

lemma pointer_value:
  assumes "deep_value view reach"
  shows "deep_value (pointer_view K view) (pointer_reach K reach)"
proof (unfold_locales, goal_cases)
  case (1 h p x)
  show ?case
  proof (cases p)
    case (Some l)
    with 1 obtain y z where "peek K h l = Some y" "view h y = Some z"
      by (auto simp: pointer_view_def bind_eq_Some_conv)
    then show ?thesis
      using deep_value.reach_allocated [OF assms] peek_cell by (simp add: pointer_reach_def Some)
  qed (simp add: pointer_reach_def)
next
  case (2 h p x h')
  show ?case
  proof (cases p)
    case (Some l)
    with 2(1) obtain y z where y: "peek K h l = Some y" "view h y = Some z" and x: "x = Some z"
      by (auto simp: pointer_view_def bind_eq_Some_conv)
    have "cells h' (fst l) = cells h (fst l)" using 2(2) by (simp add: pointer_reach_def Some)
    then have p: "peek K h' l = Some y" using y(1) by (simp add: peek_def block_def)
    have "view h' y = Some z \<and> reach h' y = reach h y"
      by (rule deep_value.frame [OF assms y(2)]) (simp add: 2(2) pointer_reach_def Some y(1))
    then show ?thesis by (simp add: pointer_view_def pointer_reach_def Some p y(1) x)
  qed (use 2(1) in \<open>simp add: pointer_view_def pointer_reach_def\<close>)
qed

lemma slice_value:
  assumes "deep_value view reach"
  shows "deep_value (slice_view K view) (slice_reach K reach)"
proof (unfold_locales, goal_cases)
  case (1 h s x)
  show ?case
  proof (cases s)
    case (Some sl)
    with 1 obtain xs ys where xs: "slice_elems K h sl = Some xs" "list_all2 (\<lambda>x y. view h x = Some y) xs ys"
      by (auto simp: slice_view_def bind_eq_Some_conv those_Some_iff)
    have "reach h v \<subseteq> dom (cells h)" if "v \<in> set xs" for v
      using all2_Some_member [OF xs(2) that] deep_value.reach_allocated [OF assms] by blast
    then show ?thesis using elems_cell [OF xs(1)] by (auto simp: slice_reach_def Some xs(1))
  qed (simp add: slice_reach_def)
next
  case (2 h s x h')
  show ?case
  proof (cases s)
    case (Some sl)
    with 2(1) obtain xs ys where xs: "slice_elems K h sl = Some xs" "list_all2 (\<lambda>x y. view h x = Some y) xs ys"
      and x: "x = Some ys"
      by (auto simp: slice_view_def bind_eq_Some_conv those_Some_iff)
    have "cells h' (sl_Block sl) = cells h (sl_Block sl)" using 2(2) by (simp add: slice_reach_def Some)
    then have e: "slice_elems K h' sl = Some xs" using xs(1) by (simp add: slice_elems_def block_def)
    have v: "view h' v = view h v \<and> reach h' v = reach h v" if "v \<in> set xs" for v
    proof -
      from all2_Some_member [OF xs(2) that] obtain y where y: "view h v = Some y" ..
      have "cells h' b = cells h b" if "b \<in> reach h v" for b
        using 2(2) [of b] that \<open>v \<in> set xs\<close> by (auto simp: slice_reach_def Some xs(1))
      from deep_value.frame [OF assms y this] show ?thesis by (simp add: y)
    qed
    then have "list_all2 (\<lambda>x y. view h' x = Some y) xs ys"
      using xs(2) by (auto simp: list_all2_conv_all_nth)
    then show ?thesis using v by (simp add: slice_view_def slice_reach_def Some e xs(1) x those_Some_iff)
  qed (use 2(1) in \<open>simp add: slice_view_def slice_reach_def\<close>)
qed

text \<open>Making a block, and writing into one.\<close>

lemma fresh_block:
  assumes "fenced h"
  shows "fenced (put_block K (limit h) xs (h\<lparr>limit := limit h + 1\<rparr>))"
    and "grows h (put_block K (limit h) xs (h\<lparr>limit := limit h + 1\<rparr>))"
    and "limit (put_block K (limit h) xs (h\<lparr>limit := limit h + 1\<rparr>)) = limit h + 1"
  using assms by (auto simp: fenced_def grows_def put_block_def)

lemma put_block_simps:
  "limit (put_block K b xs h) = limit h"
  "b' \<noteq> b \<Longrightarrow> cells (put_block K b xs h) b' = cells h b'"
  by (simp_all add: put_block_def)

lemma put_fenced: "fenced h \<Longrightarrow> b < limit h \<Longrightarrow> fenced (put_block K b xs h)"
  by (auto simp: fenced_def put_block_def)

lemma put_keeps:
  assumes "deep_value view reach" and "view h v = Some x" and "b \<notin> reach h v"
  shows "view (put_block K b xs h) v = Some x \<and> reach (put_block K b xs h) v = reach h v"
  using assms(3) by (intro deep_value.frame [OF assms(1,2)] put_block_simps(2)) auto

lemma block_kept: "b < limit h \<Longrightarrow> grows h h' \<Longrightarrow> block K h' b = block K h b"
  by (simp add: block_def grows_def)

text \<open>What a pointer's copy is made of: a new block, and behind it a copy that was made in the meantime.\<close>

lemma pointer_copy_run:
  assumes "deep_copying view reach f" and h: "fenced h" and y: "peek K h l = Some y" "view h y = Some z"
  obtains y' h2 where "copy_pointer K zero f (Some l) h = Ret (Some (limit h, 0)) (put_block K (limit h) [y'] h2)"
    and "fenced h2" and "grows h h2" and "limit h < limit h2" and "view h2 y' = Some z"
    and "reach h2 y' \<subseteq> {limit h + 1..<limit h2}"
    and "f y (put_block K (limit h) [zero] (h\<lparr>limit := limit h + 1\<rparr>)) = Ret y' h2"
proof -
  note d = assms(1) [THEN deep_copying_value]
  define h1 where "h1 = put_block K (limit h) [zero] (h\<lparr>limit := limit h + 1\<rparr>)"
  have h1: "fenced h1" "grows h h1" "limit h1 = limit h + 1"
    unfolding h1_def by (rule fresh_block [OF h])+
  have "fst l < limit h" using peek_cell [OF y(1)] h by (auto simp: fenced_def)
  then have y1: "read_at K (Some l) h1 = Ret y h1"
    using y(1) block_kept [OF _ h1(2), of "fst l"] by (intro peek_load) (simp add: peek_def)
  have "view h1 y = Some z" using deep_value.kept_grows [OF d h h1(2) y(2)] by simp
  then obtain y' h2 where c: "f y h1 = Ret y' h2" "fenced h2" "grows h1 h2" "view h2 y' = Some z"
      "reach h2 y' \<subseteq> {limit h1..<limit h2}"
    using deep_copying.copyE [OF assms(1) h1(1)] by blast
  have l: "limit h < limit h2" using c(3) h1(3) by (simp add: grows_def)
  have "block K h2 (limit h) = Some [zero]"
    using block_kept [OF _ c(3), of "limit h"] h1(3) by (simp add: h1_def)
  then have "copy_pointer K zero f (Some l) h = Ret (Some (limit h, 0)) (put_block K (limit h) [y'] h2)"
    using y1 c(1) by (simp add: copy_pointer_def new_block_def go_bind_def copy_into_def write_at_def h1_def)
  then show thesis
    by (rule that) (use c l h1 grows_trans [OF h1(2) c(3)] in \<open>auto simp: h1_def\<close>)
qed

lemma pointer_copying:
  assumes "deep_copying view reach f"
  shows "deep_copying (pointer_view K view) (pointer_reach K reach) (copy_pointer K zero f)"
proof (rule deep_copyingI)
  note d = assms [THEN deep_copying_value]
  show "deep_value (pointer_view K view) (pointer_reach K reach)" by (rule pointer_value [OF d])
  fix h :: "'c heap" and p x
  assume h: "fenced h" and vp: "pointer_view K view h p = Some x"
  show "\<exists>v' h'. copy_pointer K zero f p h = Ret v' h' \<and> fenced h' \<and> grows h h' \<and>
      pointer_view K view h' v' = Some x \<and> pointer_reach K reach h' v' \<subseteq> {limit h..<limit h'}"
  proof (cases p)
    case None
    with vp h show ?thesis by (auto simp: copy_pointer_def pointer_view_def pointer_reach_def)
  next
    case (Some l)
    with vp obtain y z where y: "peek K h l = Some y" "view h y = Some z" and x: "x = Some z"
      by (auto simp: pointer_view_def bind_eq_Some_conv)
    obtain y' h2 where run: "copy_pointer K zero f (Some l) h = Ret (Some (limit h, 0)) (put_block K (limit h) [y'] h2)"
      and c: "fenced h2" "grows h h2" "limit h < limit h2" "view h2 y' = Some z" "reach h2 y' \<subseteq> {limit h + 1..<limit h2}"
      using pointer_copy_run [OF assms h y] by metis
    define h3 where "h3 = put_block K (limit h) [y'] h2"
    have v3: "view h3 y' = Some z \<and> reach h3 y' = reach h2 y'"
      unfolding h3_def using c(5) by (intro put_keeps [OF d c(4)]) auto
    have "fenced h3" unfolding h3_def by (rule put_fenced [OF c(1,3)])
    moreover have "grows h h3" using c(2) by (auto simp: h3_def grows_def put_block_simps)
    moreover have "pointer_view K view h3 (Some (limit h, 0)) = Some x"
      using v3 by (simp add: pointer_view_def peek_def x) (simp add: h3_def)
    moreover have "pointer_reach K reach h3 (Some (limit h, 0)) \<subseteq> {limit h..<limit h3}"
      using v3 c(3,5) by (auto simp: pointer_reach_def peek_def h3_def put_block_simps)
    ultimately show ?thesis using run by (auto simp: Some h3_def)
  qed
qed

text \<open>
  The loop over a slice: \<open>upto_copied\<close> is what holds when the first \<open>i\<close> elements are copied, \<open>h0\<close> being
  the heap before the destination was made.
\<close>

definition upto_copied ::
  "('c heap \<Rightarrow> 'a \<Rightarrow> 'b option) \<Rightarrow> ('c heap \<Rightarrow> 'a \<Rightarrow> nat set) \<Rightarrow> 'c heap \<Rightarrow> 'b list \<Rightarrow> nat \<Rightarrow> 'c heap \<Rightarrow> bool" where
  "upto_copied view reach h0 ys i h \<longleftrightarrow>
     fenced h \<and> limit h0 < limit h \<and> grows h0 h \<and>
     (\<exists>zs. block K h (limit h0) = Some zs \<and> length zs = length ys \<and>
        (\<forall>j<i. view h (zs ! j) = Some (ys ! j) \<and> reach h (zs ! j) \<subseteq> {limit h0 + 1..<limit h}))"

lemma copied_item:
  assumes f: "deep_copying view reach f" and src: "slice_elems K h0 src = Some xs" and h0: "fenced h0"
    and ys: "list_all2 (\<lambda>x y. view h0 x = Some y) xs ys"
    and i: "i < length ys" and u: "upto_copied view reach h0 ys i h"
    and dst: "dst = \<lparr>sl_Block = limit h0, sl_First = 0, sl_Len = length ys\<rparr>"
  shows "\<exists>h'. go_bind (slice_at src i) (\<lambda>p. go_bind (slice_at dst i) (\<lambda>q. copy_into K f p q)) h = Ret () h' \<and>
    upto_copied view reach h0 ys (Suc i) h'"
proof -
  note d = f [THEN deep_copying_value]
  obtain zs where h: "fenced h" "limit h0 < limit h" "grows h0 h"
    and zs: "block K h (limit h0) = Some zs" "length zs = length ys"
      "\<And>j. j < i \<Longrightarrow> view h (zs ! j) = Some (ys ! j) \<and> reach h (zs ! j) \<subseteq> {limit h0 + 1..<limit h}"
    using u by (auto simp: upto_copied_def)
  have len: "length xs = length ys" and y: "view h0 (xs ! i) = Some (ys ! i)"
    using ys i by (auto simp: list_all2_conv_all_nth)
  have "sl_Block src < limit h0" using elems_cell [OF src] h0 by (auto simp: fenced_def)
  then have "slice_elems K h src = Some xs" using block_kept [OF _ h(3)] src by (simp add: slice_elems_def)
  then have ld: "read_at K (Some (sl_Block src, sl_First src + i)) h = Ret (xs ! i) h" and "sl_Len src = length ys"
    using i len by (auto simp: read_at_def slice_elems_def split: option.splits if_splits)
  have "view h (xs ! i) = Some (ys ! i)" using deep_value.kept_grows [OF d h0 h(3) y] by simp
  then obtain z h1 where c: "f (xs ! i) h = Ret z h1" "fenced h1" "grows h h1" "view h1 z = Some (ys ! i)"
      "reach h1 z \<subseteq> {limit h..<limit h1}"
    using deep_copying.copyE [OF f h(1)] by blast
  define h2 where "h2 = put_block K (limit h0) (zs[i := z]) h1"
  have b1: "block K h1 (limit h0) = Some zs" using block_kept [OF h(2) c(3)] zs(1) by simp
  have l: "limit h \<le> limit h1" using c(3) by (simp add: grows_def)
  have run: "go_bind (slice_at src i) (\<lambda>p. go_bind (slice_at dst i) (\<lambda>q. copy_into K f p q)) h = Ret () h2"
    using ld c(1) b1 i zs(2) \<open>sl_Len src = length ys\<close>
    by (simp add: dst slice_at_def go_bind_def copy_into_def write_at_def h2_def)
  have "view h2 (zs[i := z] ! j) = Some (ys ! j) \<and> reach h2 (zs[i := z] ! j) \<subseteq> {limit h0 + 1..<limit h2}"
    if j: "j < Suc i" for j
  proof -
    define w where "w = zs[i := z] ! j"
    have "view h1 w = Some (ys ! j) \<and> reach h1 w \<subseteq> {limit h0 + 1..<limit h1}"
    proof (cases "j = i")
      case True then show ?thesis using c(4,5) h(2) i zs(2) by (auto simp: w_def)
    next
      case False
      with j have "j < i" by simp
      then show ?thesis
        using zs(3) [of j] l deep_value.kept_grows [OF d h(1) c(3), of w "ys ! j"] by (auto simp: w_def)
    qed
    moreover from this have "view h2 w = Some (ys ! j) \<and> reach h2 w = reach h1 w"
      unfolding h2_def by (intro put_keeps [OF d]) auto
    ultimately show ?thesis unfolding w_def [symmetric] by (simp add: h2_def put_block_simps)
  qed
  moreover have "fenced h2" unfolding h2_def using h(2) l by (intro put_fenced [OF c(2)]) simp
  moreover have "grows h0 h2" using h(2,3) c(3) l by (auto simp: h2_def grows_def put_block_simps)
  moreover have "limit h0 < limit h2" using h(2) l by (simp add: h2_def put_block_simps)
  moreover have "block K h2 (limit h0) = Some (zs[i := z])" by (simp add: h2_def)
  ultimately have "upto_copied view reach h0 ys (Suc i) h2" using zs(2) by (simp add: upto_copied_def)
  with run show ?thesis by blast
qed

lemma copied_items:
  assumes "deep_copying view reach f" and "slice_elems K h0 src = Some xs" and "fenced h0"
    and "list_all2 (\<lambda>x y. view h0 x = Some y) xs ys" and "i \<le> length ys" and "upto_copied view reach h0 ys i h"
    and "dst = \<lparr>sl_Block = limit h0, sl_First = 0, sl_Len = length ys\<rparr>"
  shows "\<exists>h'. copy_items K f src dst [i..<length ys] h = Ret () h' \<and>
    upto_copied view reach h0 ys (length ys) h'"
  using assms(5,6)
proof (induction "length ys - i" arbitrary: i h)
  case 0
  then show ?case by simp
next
  case (Suc n)
  then have i: "i < length ys" by simp
  obtain h1 where h1: "go_bind (slice_at src i) (\<lambda>p. go_bind (slice_at dst i) (\<lambda>q. copy_into K f p q)) h = Ret () h1"
    "upto_copied view reach h0 ys (Suc i) h1"
    using copied_item [OF assms(1-4) i Suc.prems(2) assms(7)] by blast
  have "copy_items K f src dst [i..<length ys] h =
      go_bind (go_bind (slice_at src i) (\<lambda>p. go_bind (slice_at dst i) (\<lambda>q. copy_into K f p q)))
        (\<lambda>_. copy_items K f src dst [Suc i..<length ys]) h"
    using i by (simp add: upt_rec [of i] go_bind_assoc)
  also have "\<dots> = copy_items K f src dst [Suc i..<length ys] h1" by (rule go_bind_Ret) (rule h1(1))
  finally show ?case using Suc.hyps(1) [of "Suc i" h1] Suc.hyps(2) i h1(2) by simp
qed

lemma slice_copying:
  assumes "deep_copying view reach f"
  shows "deep_copying (slice_view K view) (slice_reach K reach) (copy_slice K zero f)"
proof (rule deep_copyingI)
  note d = assms [THEN deep_copying_value]
  show "deep_value (slice_view K view) (slice_reach K reach)" by (rule slice_value [OF d])
  fix h :: "'c heap" and s x
  assume h: "fenced h" and vs: "slice_view K view h s = Some x"
  show "\<exists>v' h'. copy_slice K zero f s h = Ret v' h' \<and> fenced h' \<and> grows h h' \<and>
      slice_view K view h' v' = Some x \<and> slice_reach K reach h' v' \<subseteq> {limit h..<limit h'}"
  proof (cases s)
    case None
    with vs h show ?thesis by (auto simp: copy_slice_def slice_view_def slice_reach_def)
  next
    case (Some src)
    with vs obtain xs ys where xs: "slice_elems K h src = Some xs" "list_all2 (\<lambda>x y. view h x = Some y) xs ys"
      and x: "x = Some ys"
      by (auto simp: slice_view_def bind_eq_Some_conv those_Some_iff)
    have len: "sl_Len src = length ys"
      using xs by (auto simp: slice_elems_def dest!: list_all2_lengthD split: option.splits if_splits)
    define dst where "dst = \<lparr>sl_Block = limit h, sl_First = 0, sl_Len = length ys\<rparr>"
    define h1 where "h1 = put_block K (limit h) (replicate (length ys) zero) (h\<lparr>limit := limit h + 1\<rparr>)"
    have "upto_copied view reach h ys 0 h1"
      using fresh_block [OF h, of "replicate (length ys) zero"] by (simp add: upto_copied_def h1_def)
    then obtain h2 where run: "copy_items K f src dst [0..<length ys] h1 = Ret () h2"
      and u: "upto_copied view reach h ys (length ys) h2"
      using copied_items [OF assms xs(1) h xs(2) le0 _ dst_def] by blast
    obtain zs where zs: "block K h2 (limit h) = Some zs" "length zs = length ys"
      "\<And>j. j < length ys \<Longrightarrow> view h2 (zs ! j) = Some (ys ! j) \<and> reach h2 (zs ! j) \<subseteq> {limit h + 1..<limit h2}"
      using u by (auto simp: upto_copied_def)
    have e: "slice_elems K h2 dst = Some zs" by (simp add: slice_elems_def dst_def zs)
    have "copy_slice K zero f s h = Ret (Some dst) h2"
      using run by (simp add: copy_slice_def Some make_slice_def go_bind_def len h1_def dst_def)
    moreover have "slice_view K view h2 (Some dst) = Some x"
      using zs by (auto simp: slice_view_def e x those_Some_iff list_all2_conv_all_nth)
    moreover have "slice_reach K reach h2 (Some dst) \<subseteq> {limit h..<limit h2}"
    proof -
      have "reach h2 z \<subseteq> {limit h..<limit h2}" if "z \<in> set zs" for z
        using that zs(2,3) by (force simp: in_set_conv_nth)
      then show ?thesis using u by (auto simp: slice_reach_def e) (auto simp: dst_def upto_copied_def)
    qed
    ultimately show ?thesis using u by (auto simp: upto_copied_def)
  qed
qed

lemma clone_copying:
  "deep_copying (slice_view K plain_view) (slice_reach K plain_reach) (clone_slice K zero)"
proof -
  have "clone_slice K zero = copy_slice K zero ret"
    by (simp add: fun_eq_iff clone_slice_def copy_slice_def make_slice_def go_bind_def split: option.splits)
  then show ?thesis using slice_copying [OF plain_copying] by simp
qed

end

end
