(* ===== verification/Deep_Copy_Views.thy ===== *)
theory Deep_Copy_Views
  imports Deep_Copy Deep_Copying
begin

text \<open>
  What each struct in memory stands for (\<open>_view\<close>) and which blocks that depends on (\<open>_reach\<close>), and
  the contract \<open>deep_copying\<close> for every \<open>DeepCopyInto\<close>, from the leaves up. The library's own structs have
  the view \<open>lv\<close> and the reach \<open>lr\<close>; its copy functions are taken to fulfil the contract
  (\<open>library_copies\<close>), which is what their documentation says of them.
\<close>

section \<open>Every kind of block keeps its elements apart from the others\<close>

interpretation string_blocks: block_kind string_kind
  by unfold_locales (auto simp: string_kind_def split: cell.splits)

interpretation AdminConnection_blocks: block_kind AdminConnection_kind
  by unfold_locales (auto simp: AdminConnection_kind_def split: cell.splits)

interpretation AdminConnectionList_blocks: block_kind AdminConnectionList_kind
  by unfold_locales (auto simp: AdminConnectionList_kind_def split: cell.splits)

interpretation AdminConnectionRef_blocks: block_kind AdminConnectionRef_kind
  by unfold_locales (auto simp: AdminConnectionRef_kind_def split: cell.splits)

interpretation AdminConnectionSpec_blocks: block_kind AdminConnectionSpec_kind
  by unfold_locales (auto simp: AdminConnectionSpec_kind_def split: cell.splits)

interpretation AdminConnectionStatus_blocks: block_kind AdminConnectionStatus_kind
  by unfold_locales (auto simp: AdminConnectionStatus_kind_def split: cell.splits)

interpretation Charset_blocks: block_kind Charset_kind
  by unfold_locales (auto simp: Charset_kind_def split: cell.splits)

interpretation Collation_blocks: block_kind Collation_kind
  by unfold_locales (auto simp: Collation_kind_def split: cell.splits)

interpretation Database_blocks: block_kind Database_kind
  by unfold_locales (auto simp: Database_kind_def split: cell.splits)

interpretation DatabaseList_blocks: block_kind DatabaseList_kind
  by unfold_locales (auto simp: DatabaseList_kind_def split: cell.splits)

interpretation DatabasePermission_blocks: block_kind DatabasePermission_kind
  by unfold_locales (auto simp: DatabasePermission_kind_def split: cell.splits)

interpretation DatabaseSpec_blocks: block_kind DatabaseSpec_kind
  by unfold_locales (auto simp: DatabaseSpec_kind_def split: cell.splits)

interpretation DatabaseStatus_blocks: block_kind DatabaseStatus_kind
  by unfold_locales (auto simp: DatabaseStatus_kind_def split: cell.splits)

interpretation DatabaseUser_blocks: block_kind DatabaseUser_kind
  by unfold_locales (auto simp: DatabaseUser_kind_def split: cell.splits)

interpretation DatabaseUserList_blocks: block_kind DatabaseUserList_kind
  by unfold_locales (auto simp: DatabaseUserList_kind_def split: cell.splits)

interpretation DatabaseUserSpec_blocks: block_kind DatabaseUserSpec_kind
  by unfold_locales (auto simp: DatabaseUserSpec_kind_def split: cell.splits)

interpretation DatabaseUserStatus_blocks: block_kind DatabaseUserStatus_kind
  by unfold_locales (auto simp: DatabaseUserStatus_kind_def split: cell.splits)

interpretation Identification_blocks: block_kind Identification_kind
  by unfold_locales (auto simp: Identification_kind_def split: cell.splits)

interpretation SecretKeySource_blocks: block_kind SecretKeySource_kind
  by unfold_locales (auto simp: SecretKeySource_kind_def split: cell.splits)

interpretation TlsOptions_blocks: block_kind TlsOptions_kind
  by unfold_locales (auto simp: TlsOptions_kind_def split: cell.splits)

section \<open>Views\<close>

type_synonym ('v, 'l, 'a, 'x) viewer = "('v, 'l) memory \<Rightarrow> 'a \<Rightarrow> 'x option"
type_synonym ('v, 'l, 'a) reacher = "('v, 'l) memory \<Rightarrow> 'a \<Rightarrow> nat set"

abbreviation string_slice_view :: "('v, 'l, memslice, string slice) viewer" where
  "string_slice_view \<equiv> slice_view string_kind plain_view"

abbreviation string_slice_reach :: "('v, 'l, memslice) reacher" where
  "string_slice_reach \<equiv> slice_reach string_kind plain_reach"

definition Charset_view :: "('v, 'l, charset_m, Collation slice charset) viewer" where
  "Charset_view h c =
     map_option (\<lambda>xs. \<lparr>chs_Name = chs_Name c, chs_Collations = xs\<rparr>)
       (slice_view Collation_kind plain_view h (chs_Collations c))"

definition Charset_reach :: "('v, 'l, charset_m) reacher" where
  "Charset_reach h c = slice_reach Collation_kind plain_reach h (chs_Collations c)"

definition DatabasePermission_view :: "('v, 'l, permission_m, string slice permission) viewer" where
  "DatabasePermission_view h p =
     map_option (\<lambda>xs. \<lparr>perm_Name = perm_Name p, perm_Grants = xs\<rparr>) (string_slice_view h (perm_Grants p))"

definition DatabasePermission_reach :: "('v, 'l, permission_m) reacher" where
  "DatabasePermission_reach h p = string_slice_reach h (perm_Grants p)"

definition SecretKeySource_view ::
  "('v, 'l, 'v, 'x) viewer \<Rightarrow> ('v, 'l, 'v key_source, 'x key_source) viewer" where
  "SecretKeySource_view lv h k = map_option (\<lambda>x. \<lparr>ks_SecretKeyRef = x\<rparr>) (lv h (ks_SecretKeyRef k))"

definition SecretKeySource_reach :: "('v, 'l, 'v) reacher \<Rightarrow> ('v, 'l, 'v key_source) reacher" where
  "SecretKeySource_reach lr h k = lr h (ks_SecretKeyRef k)"

abbreviation source_view ::
  "('v, 'l, 'v, 'x) viewer \<Rightarrow> ('v, 'l, pointer, 'x key_source option) viewer" where
  "source_view lv \<equiv> pointer_view SecretKeySource_kind (SecretKeySource_view lv)"

abbreviation source_reach :: "('v, 'l, 'v) reacher \<Rightarrow> ('v, 'l, pointer) reacher" where
  "source_reach lr \<equiv> pointer_reach SecretKeySource_kind (SecretKeySource_reach lr)"

definition Identification_view ::
  "('v, 'l, 'v, 'x) viewer \<Rightarrow> ('v, 'l, identification_m, 'x key_source option identification) viewer" where
  "Identification_view lv h i =
     map_option (\<lambda>s. \<lparr>idn_AuthPlugin = idn_AuthPlugin i, idn_AuthString = s, idn_ClearText = idn_ClearText i\<rparr>)
       (source_view lv h (idn_AuthString i))"

definition Identification_reach :: "('v, 'l, 'v) reacher \<Rightarrow> ('v, 'l, identification_m) reacher" where
  "Identification_reach lr h i = source_reach lr h (idn_AuthString i)"

definition AdminConnectionSpec_view ::
  "('v, 'l, 'v, 'x) viewer \<Rightarrow> ('v, 'l, admin_spec_m, ('x key_source option, string slice) admin_spec) viewer" where
  "AdminConnectionSpec_view lv h s =
     map_option (\<lambda>(u, p, n).
         \<lparr>as_Host = as_Host s, as_Port = as_Port s, as_AdminUser = u, as_AdminPassword = p, as_AllowedNamespaces = n\<rparr>)
       (both_view (source_view lv) (both_view (source_view lv) string_slice_view) h
          (as_AdminUser s, as_AdminPassword s, as_AllowedNamespaces s))"

definition AdminConnectionSpec_reach :: "('v, 'l, 'v) reacher \<Rightarrow> ('v, 'l, admin_spec_m) reacher" where
  "AdminConnectionSpec_reach lr h s =
     both_reach (source_reach lr) (both_reach (source_reach lr) string_slice_reach) h
       (as_AdminUser s, as_AdminPassword s, as_AllowedNamespaces s)"

definition AdminConnectionStatus_view ::
  "('v, 'l, 'v, 'x) viewer \<Rightarrow> ('v, 'l, 'v admin_status_m, ('x, Collation slice charset slice) admin_status) viewer" where
  "AdminConnectionStatus_view lv h s =
     map_option (\<lambda>(t, cs).
         \<lparr>ast_SyncTime = t, ast_Message = ast_Message s, ast_ControlDatabase = ast_ControlDatabase s,
          ast_CharacterSet = ast_CharacterSet s, ast_Collation = ast_Collation s, ast_AvailableCharsets = cs\<rparr>)
       (both_view lv (slice_view Charset_kind Charset_view) h (ast_SyncTime s, ast_AvailableCharsets s))"

definition AdminConnectionStatus_reach :: "('v, 'l, 'v) reacher \<Rightarrow> ('v, 'l, 'v admin_status_m) reacher" where
  "AdminConnectionStatus_reach lr h s =
     both_reach lr (slice_reach Charset_kind Charset_reach) h (ast_SyncTime s, ast_AvailableCharsets s)"

definition DatabaseStatus_view ::
  "('v, 'l, 'v, 'x) viewer \<Rightarrow> ('v, 'l, 'v database_status, 'x database_status) viewer" where
  "DatabaseStatus_view lv h s =
     map_option (\<lambda>(c, t).
         \<lparr>dbst_CreationTime = c, dbst_SyncTime = t, dbst_CharacterSet = dbst_CharacterSet s,
          dbst_Collate = dbst_Collate s, dbst_Message = dbst_Message s, dbst_Name = dbst_Name s,
          dbst_Host = dbst_Host s, dbst_Port = dbst_Port s\<rparr>)
       (both_view lv lv h (dbst_CreationTime s, dbst_SyncTime s))"

definition DatabaseStatus_reach :: "('v, 'l, 'v) reacher \<Rightarrow> ('v, 'l, 'v database_status) reacher" where
  "DatabaseStatus_reach lr h s = both_reach lr lr h (dbst_CreationTime s, dbst_SyncTime s)"

abbreviation ident_view ::
  "('v, 'l, 'v, 'x) viewer \<Rightarrow> ('v, 'l, pointer, 'x key_source option identification option) viewer" where
  "ident_view lv \<equiv> pointer_view Identification_kind (Identification_view lv)"

abbreviation ident_reach :: "('v, 'l, 'v) reacher \<Rightarrow> ('v, 'l, pointer) reacher" where
  "ident_reach lr \<equiv> pointer_reach Identification_kind (Identification_reach lr)"

abbreviation permissions_view :: "('v, 'l, memslice, string slice permission slice) viewer" where
  "permissions_view \<equiv> slice_view DatabasePermission_kind DatabasePermission_view"

abbreviation permissions_reach :: "('v, 'l, memslice) reacher" where
  "permissions_reach \<equiv> slice_reach DatabasePermission_kind DatabasePermission_reach"

type_synonym 'x user_spec_t = "('x key_source option identification option, string slice permission slice) user_spec"
type_synonym 'x user_status_t =
  "('x, 'x key_source option identification option, string slice permission slice, string slice) user_status"

definition DatabaseUserSpec_view :: "('v, 'l, 'v, 'x) viewer \<Rightarrow> ('v, 'l, user_spec_m, 'x user_spec_t) viewer" where
  "DatabaseUserSpec_view lv h s =
     map_option (\<lambda>(i, ps).
         \<lparr>usp_AdminConnection = usp_AdminConnection s, usp_Username = usp_Username s, usp_Identification = i,
          usp_DatabaseList = ps, usp_TlsOptions = usp_TlsOptions s\<rparr>)
       (both_view (ident_view lv) permissions_view h (usp_Identification s, usp_DatabaseList s))"

definition DatabaseUserSpec_reach :: "('v, 'l, 'v) reacher \<Rightarrow> ('v, 'l, user_spec_m) reacher" where
  "DatabaseUserSpec_reach lr h s =
     both_reach (ident_reach lr) permissions_reach h (usp_Identification s, usp_DatabaseList s)"

definition DatabaseUserStatus_view ::
  "('v, 'l, 'v, 'x) viewer \<Rightarrow> ('v, 'l, 'v user_status_m, 'x user_status_t) viewer" where
  "DatabaseUserStatus_view lv h s =
     map_option (\<lambda>(c, t, ps, gs, i).
         \<lparr>usts_CreationTime = c, usts_SyncTime = t, usts_Message = usts_Message s, usts_Username = usts_Username s,
          usts_DatabaseList = ps, usts_Grants = gs, usts_Identification = i,
          usts_IdentificationResourceVersion = usts_IdentificationResourceVersion s,
          usts_TlsOptions = usts_TlsOptions s\<rparr>)
       (both_view lv (both_view lv (both_view permissions_view (both_view string_slice_view (ident_view lv)))) h
          (usts_CreationTime s, usts_SyncTime s, usts_DatabaseList s, usts_Grants s, usts_Identification s))"

definition DatabaseUserStatus_reach :: "('v, 'l, 'v) reacher \<Rightarrow> ('v, 'l, 'v user_status_m) reacher" where
  "DatabaseUserStatus_reach lr h s =
     both_reach lr (both_reach lr (both_reach permissions_reach (both_reach string_slice_reach (ident_reach lr)))) h
       (usts_CreationTime s, usts_SyncTime s, usts_DatabaseList s, usts_Grants s, usts_Identification s)"

text \<open>The three resources are alike, and so are their lists.\<close>

definition resource_view ::
  "('v, 'l, 'v, 'x) viewer \<Rightarrow> ('v, 'l, 'a, 'b) viewer \<Rightarrow> ('v, 'l, 'c, 'd) viewer \<Rightarrow>
     ('v, 'l, ('v, 'a, 'c) resource, ('x, 'b, 'd) resource) viewer" where
  "resource_view lv vspec vstatus h r =
     map_option (\<lambda>(m, sp, st).
         \<lparr>res_TypeMeta = res_TypeMeta r, res_ObjectMeta = m, res_Spec = sp, res_Status = st\<rparr>)
       (both_view lv (both_view vspec vstatus) h (res_ObjectMeta r, res_Spec r, res_Status r))"

definition resource_reach ::
  "('v, 'l, 'v) reacher \<Rightarrow> ('v, 'l, 'a) reacher \<Rightarrow> ('v, 'l, 'c) reacher \<Rightarrow> ('v, 'l, ('v, 'a, 'c) resource) reacher" where
  "resource_reach lr rspec rstatus h r =
     both_reach lr (both_reach rspec rstatus) h (res_ObjectMeta r, res_Spec r, res_Status r)"

definition list_view ::
  "('v, 'l, 'v, 'x) viewer \<Rightarrow> ('a, ('v, 'l) cell) kind \<Rightarrow> ('v, 'l, 'a, 'b) viewer \<Rightarrow>
     ('v, 'l, 'v object_list_m, ('x, 'b slice) resource_list) viewer" where
  "list_view lv K view h r =
     map_option (\<lambda>(m, xs). \<lparr>rl_TypeMeta = rl_TypeMeta r, rl_ListMeta = m, rl_Items = xs\<rparr>)
       (both_view lv (slice_view K view) h (rl_ListMeta r, rl_Items r))"

definition list_reach ::
  "('v, 'l, 'v) reacher \<Rightarrow> ('a, ('v, 'l) cell) kind \<Rightarrow> ('v, 'l, 'a) reacher \<Rightarrow> ('v, 'l, 'v object_list_m) reacher" where
  "list_reach lr K reach h r = both_reach lr (slice_reach K reach) h (rl_ListMeta r, rl_Items r)"

abbreviation AdminConnection_view where
  "AdminConnection_view lv \<equiv> resource_view lv (AdminConnectionSpec_view lv) (AdminConnectionStatus_view lv)"

abbreviation AdminConnection_reach where
  "AdminConnection_reach lr \<equiv> resource_reach lr (AdminConnectionSpec_reach lr) (AdminConnectionStatus_reach lr)"

abbreviation Database_view where
  "Database_view lv \<equiv> resource_view lv (plain_view :: (_, _, DatabaseSpec, _) viewer) (DatabaseStatus_view lv)"

abbreviation Database_reach where
  "Database_reach lr \<equiv> resource_reach lr (plain_reach :: (_, _, DatabaseSpec) reacher) (DatabaseStatus_reach lr)"

abbreviation DatabaseUser_view where
  "DatabaseUser_view lv \<equiv> resource_view lv (DatabaseUserSpec_view lv) (DatabaseUserStatus_view lv)"

abbreviation DatabaseUser_reach where
  "DatabaseUser_reach lr \<equiv> resource_reach lr (DatabaseUserSpec_reach lr) (DatabaseUserStatus_reach lr)"

text \<open>
  The tree behind a \<open>runtime.Object\<close> whose pointer is not nil. Two objects are equal in the sense of
  \<open>reflect.DeepEqual\<close> when they are of the same type and have the same tree; a nil slice is not an empty one.
\<close>

type_synonym 'x admin_t =
  "('x, ('x key_source option, string slice) admin_spec, ('x, Collation slice charset slice) admin_status) resource"
type_synonym 'x database_t = "('x, DatabaseSpec, 'x database_status) resource"
type_synonym 'x user_t = "('x, 'x user_spec_t, 'x user_status_t) resource"

datatype 'x object_tree =
    T_AdminConnection "'x admin_t"
  | T_AdminConnectionList "('x, 'x admin_t slice) resource_list"
  | T_Database "'x database_t"
  | T_DatabaseList "('x, 'x database_t slice) resource_list"
  | T_DatabaseUser "'x user_t"
  | T_DatabaseUserList "('x, 'x user_t slice) resource_list"

definition behind :: "('b \<Rightarrow> 't) \<Rightarrow> 'b option option \<Rightarrow> 't option" where
  "behind T r = Option.bind r (map_option T)"

primrec Object_view :: "('v, 'l, 'v, 'x) viewer \<Rightarrow> ('v, 'l) memory \<Rightarrow> runtime_Object \<Rightarrow> 'x object_tree option" where
  "Object_view lv h (RO_AdminConnection p) =
     behind T_AdminConnection (pointer_view AdminConnection_kind (AdminConnection_view lv) h p)"
| "Object_view lv h (RO_AdminConnectionList p) =
     behind T_AdminConnectionList (pointer_view AdminConnectionList_kind (list_view lv AdminConnection_kind (AdminConnection_view lv)) h p)"
| "Object_view lv h (RO_Database p) =
     behind T_Database (pointer_view Database_kind (Database_view lv) h p)"
| "Object_view lv h (RO_DatabaseList p) =
     behind T_DatabaseList (pointer_view DatabaseList_kind (list_view lv Database_kind (Database_view lv)) h p)"
| "Object_view lv h (RO_DatabaseUser p) =
     behind T_DatabaseUser (pointer_view DatabaseUser_kind (DatabaseUser_view lv) h p)"
| "Object_view lv h (RO_DatabaseUserList p) =
     behind T_DatabaseUserList (pointer_view DatabaseUserList_kind (list_view lv DatabaseUser_kind (DatabaseUser_view lv)) h p)"

primrec Object_reach :: "('v, 'l, 'v) reacher \<Rightarrow> ('v, 'l) memory \<Rightarrow> runtime_Object \<Rightarrow> nat set" where
  "Object_reach lr h (RO_AdminConnection p) =
     pointer_reach AdminConnection_kind (AdminConnection_reach lr) h p"
| "Object_reach lr h (RO_AdminConnectionList p) =
     pointer_reach AdminConnectionList_kind (list_reach lr AdminConnection_kind (AdminConnection_reach lr)) h p"
| "Object_reach lr h (RO_Database p) =
     pointer_reach Database_kind (Database_reach lr) h p"
| "Object_reach lr h (RO_DatabaseList p) =
     pointer_reach DatabaseList_kind (list_reach lr Database_kind (Database_reach lr)) h p"
| "Object_reach lr h (RO_DatabaseUser p) =
     pointer_reach DatabaseUser_kind (DatabaseUser_reach lr) h p"
| "Object_reach lr h (RO_DatabaseUserList p) =
     pointer_reach DatabaseUserList_kind (list_reach lr DatabaseUser_kind (DatabaseUser_reach lr)) h p"

section \<open>Every DeepCopyInto is a deep copy\<close>

definition library_copies ::
  "('v, 'l, 'v, 'x) viewer \<Rightarrow> ('v, 'l, 'v) reacher \<Rightarrow> ('v, 'l) library \<Rightarrow> bool" where
  "library_copies lv lr L \<longleftrightarrow>
     deep_copying lv lr (ObjectMeta_DeepCopyInto L) \<and> deep_copying lv lr (ListMeta_DeepCopyInto L) \<and>
     deep_copying lv lr (Time_DeepCopyInto L) \<and> deep_copying lv lr (SecretKeySelector_DeepCopyInto L)"

lemma library_copiesD:
  assumes "library_copies lv lr L"
  shows "deep_copying lv lr (ObjectMeta_DeepCopyInto L)" and "deep_copying lv lr (ListMeta_DeepCopyInto L)"
    and "deep_copying lv lr (Time_DeepCopyInto L)" and "deep_copying lv lr (SecretKeySelector_DeepCopyInto L)"
  using assms by (simp_all add: library_copies_def)

named_theorems copying \<open>contracts of the copy functions\<close>

declare plain_copying [copying]

lemma string_slice_copying [copying]:
  "deep_copying string_slice_view string_slice_reach (clone_slice string_kind zero)"
  by (rule string_blocks.clone_copying)

interpretation Charset: deep_copying Charset_view Charset_reach Charset_DeepCopyInto
  by (rule copying_via [OF Collation_blocks.clone_copying, where sel = chs_Collations
        and upd = "\<lambda>xs c. c\<lparr>chs_Collations := xs\<rparr>" and mk = "\<lambda>c xs. \<lparr>chs_Name = chs_Name c, chs_Collations = xs\<rparr>"])
    (simp_all add: Charset_view_def Charset_reach_def Charset_DeepCopyInto_def)

interpretation DatabasePermission:
  deep_copying DatabasePermission_view DatabasePermission_reach DatabasePermission_DeepCopyInto
  by (rule copying_via [OF string_blocks.clone_copying, where sel = perm_Grants
        and upd = "\<lambda>xs c. c\<lparr>perm_Grants := xs\<rparr>" and mk = "\<lambda>c xs. \<lparr>perm_Name = perm_Name c, perm_Grants = xs\<rparr>"])
    (simp_all add: DatabasePermission_view_def DatabasePermission_reach_def DatabasePermission_DeepCopyInto_def)

end
