(* ===== verification/Deep_Copy_Correct.thy ===== *)
theory Deep_Copy_Correct
  imports Deep_Copy_Views
begin

text \<open>
  Every generated \<open>DeepCopyInto\<close> fulfils the contract of a deep copy when the library's copy functions do; hence
  so do \<open>DeepCopy\<close> and \<open>DeepCopyObject\<close>: they return (no nil or dangling pointer is read, no index is out of range),
  the copy has the same view as the original, and writing to either leaves the other alone.
\<close>

section \<open>The contracts\<close>

lemma SecretKeySource_copying [copying]:
  assumes "library_copies lv lr L"
  shows "deep_copying (SecretKeySource_view lv) (SecretKeySource_reach lr) (SecretKeySource_DeepCopyInto L)"
  by (rule copying_via [OF library_copiesD(4) [OF assms], where sel = ks_SecretKeyRef
        and upd = "\<lambda>x k. k\<lparr>ks_SecretKeyRef := x\<rparr>" and mk = "\<lambda>k x. \<lparr>ks_SecretKeyRef = x\<rparr>"])
    (simp_all add: SecretKeySource_view_def SecretKeySource_reach_def SecretKeySource_DeepCopyInto_def)

lemma source_copying [copying]:
  assumes "library_copies lv lr L"
  shows "deep_copying (source_view lv) (source_reach lr)
    (copy_pointer SecretKeySource_kind zero (SecretKeySource_DeepCopyInto L))"
  by (rule SecretKeySource_blocks.pointer_copying [OF SecretKeySource_copying [OF assms]])

lemma Identification_copying [copying]:
  assumes "library_copies lv lr L"
  shows "deep_copying (Identification_view lv) (Identification_reach lr) (Identification_DeepCopyInto L)"
  by (rule copying_via [OF source_copying [OF assms], where sel = idn_AuthString
        and upd = "\<lambda>x k. k\<lparr>idn_AuthString := x\<rparr>"
        and mk = "\<lambda>i s. \<lparr>idn_AuthPlugin = idn_AuthPlugin i, idn_AuthString = s, idn_ClearText = idn_ClearText i\<rparr>"])
    (simp_all add: Identification_view_def Identification_reach_def Identification_DeepCopyInto_def)

lemma ident_copying [copying]:
  assumes "library_copies lv lr L"
  shows "deep_copying (ident_view lv) (ident_reach lr)
    (copy_pointer Identification_kind zero (Identification_DeepCopyInto L))"
  by (rule Identification_blocks.pointer_copying [OF Identification_copying [OF assms]])

lemma permissions_copying [copying]:
  "deep_copying permissions_view permissions_reach
    (copy_slice DatabasePermission_kind zero DatabasePermission_DeepCopyInto)"
  by (rule DatabasePermission_blocks.slice_copying) unfold_locales

lemma charsets_copying [copying]:
  "deep_copying (slice_view Charset_kind Charset_view) (slice_reach Charset_kind Charset_reach)
    (copy_slice Charset_kind zero Charset_DeepCopyInto)"
  by (rule Charset_blocks.slice_copying) unfold_locales

lemma AdminConnectionSpec_copying [copying]:
  assumes "library_copies lv lr L"
  shows "deep_copying (AdminConnectionSpec_view lv) (AdminConnectionSpec_reach lr) (AdminConnectionSpec_DeepCopyInto L)"
  by (rule copying_via [OF both_copying [OF source_copying [OF assms] both_copying
            [OF source_copying [OF assms] string_slice_copying]],
        where sel = "\<lambda>s. (as_AdminUser s, as_AdminPassword s, as_AllowedNamespaces s)"
        and upd = "\<lambda>(u, p, n) s. s\<lparr>as_AdminUser := u, as_AdminPassword := p, as_AllowedNamespaces := n\<rparr>"
        and mk = "\<lambda>s (u, p, n). \<lparr>as_Host = as_Host s, as_Port = as_Port s, as_AdminUser = u,
          as_AdminPassword = p, as_AllowedNamespaces = n\<rparr>"])
    (auto simp: AdminConnectionSpec_view_def AdminConnectionSpec_reach_def AdminConnectionSpec_DeepCopyInto_def
       both_copy_def go_bind_assoc)

lemma AdminConnectionStatus_copying [copying]:
  assumes "library_copies lv lr L"
  shows "deep_copying (AdminConnectionStatus_view lv) (AdminConnectionStatus_reach lr)
    (AdminConnectionStatus_DeepCopyInto L)"
  by (rule copying_via [OF both_copying [OF library_copiesD(3) [OF assms] charsets_copying],
        where sel = "\<lambda>s. (ast_SyncTime s, ast_AvailableCharsets s)"
        and upd = "\<lambda>(t, cs) s. s\<lparr>ast_SyncTime := t, ast_AvailableCharsets := cs\<rparr>"
        and mk = "\<lambda>s (t, cs). \<lparr>ast_SyncTime = t, ast_Message = ast_Message s,
          ast_ControlDatabase = ast_ControlDatabase s, ast_CharacterSet = ast_CharacterSet s,
          ast_Collation = ast_Collation s, ast_AvailableCharsets = cs\<rparr>"])
    (auto simp: AdminConnectionStatus_view_def AdminConnectionStatus_reach_def AdminConnectionStatus_DeepCopyInto_def
       both_copy_def go_bind_assoc)

lemma DatabaseStatus_copying [copying]:
  assumes "library_copies lv lr L"
  shows "deep_copying (DatabaseStatus_view lv) (DatabaseStatus_reach lr) (DatabaseStatus_DeepCopyInto L)"
  by (rule copying_via [OF both_copying [OF library_copiesD(3) [OF assms] library_copiesD(3) [OF assms]],
        where sel = "\<lambda>s. (dbst_CreationTime s, dbst_SyncTime s)"
        and upd = "\<lambda>(c, t) s. s\<lparr>dbst_CreationTime := c, dbst_SyncTime := t\<rparr>"
        and mk = "\<lambda>s (c, t). \<lparr>dbst_CreationTime = c, dbst_SyncTime = t, dbst_CharacterSet = dbst_CharacterSet s,
          dbst_Collate = dbst_Collate s, dbst_Message = dbst_Message s, dbst_Name = dbst_Name s,
          dbst_Host = dbst_Host s, dbst_Port = dbst_Port s\<rparr>"])
    (auto simp: DatabaseStatus_view_def DatabaseStatus_reach_def DatabaseStatus_DeepCopyInto_def
       both_copy_def go_bind_assoc)

lemma DatabaseUserSpec_copying [copying]:
  assumes "library_copies lv lr L"
  shows "deep_copying (DatabaseUserSpec_view lv) (DatabaseUserSpec_reach lr) (DatabaseUserSpec_DeepCopyInto L)"
  by (rule copying_via [OF both_copying [OF ident_copying [OF assms] permissions_copying],
        where sel = "\<lambda>s. (usp_Identification s, usp_DatabaseList s)"
        and upd = "\<lambda>(i, ps) s. s\<lparr>usp_Identification := i, usp_DatabaseList := ps\<rparr>"
        and mk = "\<lambda>s (i, ps). \<lparr>usp_AdminConnection = usp_AdminConnection s, usp_Username = usp_Username s,
          usp_Identification = i, usp_DatabaseList = ps, usp_TlsOptions = usp_TlsOptions s\<rparr>"])
    (auto simp: DatabaseUserSpec_view_def DatabaseUserSpec_reach_def DatabaseUserSpec_DeepCopyInto_def
       both_copy_def go_bind_assoc)

lemma DatabaseUserStatus_copying [copying]:
  assumes "library_copies lv lr L"
  shows "deep_copying (DatabaseUserStatus_view lv) (DatabaseUserStatus_reach lr) (DatabaseUserStatus_DeepCopyInto L)"
  by (rule copying_via [OF both_copying [OF library_copiesD(3) [OF assms] both_copying
            [OF library_copiesD(3) [OF assms] both_copying [OF permissions_copying both_copying
            [OF string_slice_copying ident_copying [OF assms]]]]],
        where sel = "\<lambda>s. (usts_CreationTime s, usts_SyncTime s, usts_DatabaseList s, usts_Grants s, usts_Identification s)"
        and upd = "\<lambda>(c, t, ps, gs, i) s. s\<lparr>usts_CreationTime := c, usts_SyncTime := t, usts_DatabaseList := ps,
          usts_Grants := gs, usts_Identification := i\<rparr>"
        and mk = "\<lambda>s (c, t, ps, gs, i). \<lparr>usts_CreationTime = c, usts_SyncTime = t, usts_Message = usts_Message s,
          usts_Username = usts_Username s, usts_DatabaseList = ps, usts_Grants = gs, usts_Identification = i,
          usts_IdentificationResourceVersion = usts_IdentificationResourceVersion s,
          usts_TlsOptions = usts_TlsOptions s\<rparr>"])
    (auto simp: DatabaseUserStatus_view_def DatabaseUserStatus_reach_def DatabaseUserStatus_DeepCopyInto_def
       both_copy_def go_bind_assoc)

text \<open>The resources and their lists.\<close>

lemma resource_copying:
  assumes "library_copies lv lr L" and "deep_copying vspec rspec fspec" and "deep_copying vstatus rstatus fstatus"
    and "\<And>v. f v = go_bind (ObjectMeta_DeepCopyInto L (res_ObjectMeta v)) (\<lambda>meta. go_bind (fspec (res_Spec v)) (\<lambda>spec.
      go_bind (fstatus (res_Status v)) (\<lambda>status.
      ret (v\<lparr>res_ObjectMeta := meta, res_Spec := spec, res_Status := status\<rparr>))))"
  shows "deep_copying (resource_view lv vspec vstatus) (resource_reach lr rspec rstatus) f"
  by (rule copying_via [OF both_copying [OF library_copiesD(1) [OF assms(1)] both_copying [OF assms(2,3)]],
        where sel = "\<lambda>r. (res_ObjectMeta r, res_Spec r, res_Status r)"
        and upd = "\<lambda>(m, sp, st) r. r\<lparr>res_ObjectMeta := m, res_Spec := sp, res_Status := st\<rparr>"
        and mk = "\<lambda>r (m, sp, st). \<lparr>res_TypeMeta = res_TypeMeta r, res_ObjectMeta = m, res_Spec = sp, res_Status = st\<rparr>"])
    (auto simp: resource_view_def resource_reach_def assms(4) both_copy_def go_bind_assoc)

lemma AdminConnection_copying [copying]:
  "library_copies lv lr L \<Longrightarrow> deep_copying (AdminConnection_view lv) (AdminConnection_reach lr) (AdminConnection_DeepCopyInto L)"
  by (rule resource_copying [OF _ AdminConnectionSpec_copying AdminConnectionStatus_copying])
    (simp_all add: AdminConnection_DeepCopyInto_def)

lemma Database_copying [copying]:
  "library_copies lv lr L \<Longrightarrow> deep_copying (Database_view lv) (Database_reach lr) (Database_DeepCopyInto L)"
  by (rule resource_copying [OF _ plain_copying DatabaseStatus_copying]) (simp_all add: Database_DeepCopyInto_def)

lemma DatabaseUser_copying [copying]:
  "library_copies lv lr L \<Longrightarrow> deep_copying (DatabaseUser_view lv) (DatabaseUser_reach lr) (DatabaseUser_DeepCopyInto L)"
  by (rule resource_copying [OF _ DatabaseUserSpec_copying DatabaseUserStatus_copying])
    (simp_all add: DatabaseUser_DeepCopyInto_def)

lemma list_copying:
  assumes "library_copies lv lr L"
    and "deep_copying (slice_view K view) (slice_reach K reach) (copy_slice K zero g)"
    and "\<And>v. f v = go_bind (ListMeta_DeepCopyInto L (rl_ListMeta v)) (\<lambda>meta. go_bind (copy_slice K zero g (rl_Items v)) (\<lambda>items.
      ret (v\<lparr>rl_ListMeta := meta, rl_Items := items\<rparr>)))"
  shows "deep_copying (list_view lv K view) (list_reach lr K reach) f"
  by (rule copying_via [OF both_copying [OF library_copiesD(2) [OF assms(1)] assms(2)],
        where sel = "\<lambda>r. (rl_ListMeta r, rl_Items r)"
        and upd = "\<lambda>(m, xs) r. r\<lparr>rl_ListMeta := m, rl_Items := xs\<rparr>"
        and mk = "\<lambda>r (m, xs). \<lparr>rl_TypeMeta = rl_TypeMeta r, rl_ListMeta = m, rl_Items = xs\<rparr>"])
    (auto simp: list_view_def list_reach_def assms(3) both_copy_def go_bind_assoc)

lemma AdminConnectionList_copying [copying]:
  "library_copies lv lr L \<Longrightarrow> deep_copying (list_view lv AdminConnection_kind (AdminConnection_view lv))
    (list_reach lr AdminConnection_kind (AdminConnection_reach lr)) (AdminConnectionList_DeepCopyInto L)"
  by (rule list_copying [OF _ AdminConnection_blocks.slice_copying [OF AdminConnection_copying]])
    (simp_all add: AdminConnectionList_DeepCopyInto_def)

lemma DatabaseList_copying [copying]:
  "library_copies lv lr L \<Longrightarrow> deep_copying (list_view lv Database_kind (Database_view lv))
    (list_reach lr Database_kind (Database_reach lr)) (DatabaseList_DeepCopyInto L)"
  by (rule list_copying [OF _ Database_blocks.slice_copying [OF Database_copying]])
    (simp_all add: DatabaseList_DeepCopyInto_def)

lemma DatabaseUserList_copying [copying]:
  "library_copies lv lr L \<Longrightarrow> deep_copying (list_view lv DatabaseUser_kind (DatabaseUser_view lv))
    (list_reach lr DatabaseUser_kind (DatabaseUser_reach lr)) (DatabaseUserList_DeepCopyInto L)"
  by (rule list_copying [OF _ DatabaseUser_blocks.slice_copying [OF DatabaseUser_copying]])
    (simp_all add: DatabaseUserList_DeepCopyInto_def)

section \<open>Objects\<close>

lemma behind_Some_iff: "behind T r = Some t \<longleftrightarrow> (\<exists>x. r = Some (Some x) \<and> t = T x)"
  by (auto simp: behind_def bind_eq_Some_conv)

lemma pointer_view_Some: "pointer_view K v h p = Some (Some x) \<Longrightarrow> p \<noteq> None"
  by (cases p) (auto simp: pointer_view_def)

text \<open>What holds for the pointer holds for the object that wraps it.\<close>

lemma wrapped_reach:
  assumes "deep_copying (pointer_view K v) (pointer_reach K r) c" and "behind T (pointer_view K v h p) = Some t"
  shows "pointer_reach K r h p \<subseteq> dom (cells h)"
proof -
  obtain x where x: "pointer_view K v h p = Some (Some x)" using assms(2) by (auto simp: behind_Some_iff)
  show ?thesis by (rule deep_value.reach_allocated [OF deep_copying_value [OF assms(1)] x])
qed

lemma wrapped_frame:
  assumes "deep_copying (pointer_view K v) (pointer_reach K r) c" and "behind T (pointer_view K v h p) = Some t"
    and "\<And>b. b \<in> pointer_reach K r h p \<Longrightarrow> cells h' b = cells h b"
  shows "behind T (pointer_view K v h' p) = Some t \<and> pointer_reach K r h' p = pointer_reach K r h p"
proof -
  obtain x where x: "pointer_view K v h p = Some (Some x)" "t = T x" using assms(2) by (auto simp: behind_Some_iff)
  from deep_value.frame [OF deep_copying_value [OF assms(1)] x(1), of h'] assms(3) x(2)
  show ?thesis by (auto simp: behind_Some_iff)
qed

lemma wrapped_copy:
  assumes "deep_copying (pointer_view K v) (pointer_reach K r) c" and "fenced h"
    and "behind T (pointer_view K v h p) = Some t"
  shows "\<exists>p' h'. go_bind (go_bind (c p) (\<lambda>q. if q \<noteq> None then ret (Some (C q)) else ret None)) deref h = Ret (C p') h' \<and>
    fenced h' \<and> grows h h' \<and> behind T (pointer_view K v h' p') = Some t \<and>
    pointer_reach K r h' p' \<subseteq> {limit h..<limit h'}"
proof -
  obtain x where x: "pointer_view K v h p = Some (Some x)" "t = T x" using assms(3) by (auto simp: behind_Some_iff)
  from deep_copying.copyE [OF assms(1,2) x(1)] obtain p' h' where c: "c p h = Ret p' h'" "fenced h'" "grows h h'"
    "pointer_view K v h' p' = Some (Some x)" "pointer_reach K r h' p' \<subseteq> {limit h..<limit h'}" .
  then have "go_bind (go_bind (c p) (\<lambda>q. if q \<noteq> None then ret (Some (C q)) else ret None)) deref h = Ret (C p') h'"
    using pointer_view_Some [OF c(4)] by (auto simp: go_bind_def)
  with c x(2) show ?thesis by (auto simp: behind_Some_iff)
qed

lemmas DeepCopyObject_unfold = DeepCopyObject.simps
  AdminConnection_DeepCopyObject_def AdminConnection_DeepCopy_def
  AdminConnectionList_DeepCopyObject_def AdminConnectionList_DeepCopy_def
  Database_DeepCopyObject_def Database_DeepCopy_def
  DatabaseList_DeepCopyObject_def DatabaseList_DeepCopy_def
  DatabaseUser_DeepCopyObject_def DatabaseUser_DeepCopy_def
  DatabaseUserList_DeepCopyObject_def DatabaseUserList_DeepCopy_def

lemma Object_copying:
  assumes "library_copies lv lr L"
  shows "deep_copying (Object_view lv) (Object_reach lr) (\<lambda>ob. go_bind (DeepCopyObject L ob) deref)"
proof (rule deep_copyingI)
  note pointers =AdminConnection_blocks.pointer_copying [OF AdminConnection_copying [OF assms]]
    AdminConnectionList_blocks.pointer_copying [OF AdminConnectionList_copying [OF assms]]
    Database_blocks.pointer_copying [OF Database_copying [OF assms]]
    DatabaseList_blocks.pointer_copying [OF DatabaseList_copying [OF assms]]
    DatabaseUser_blocks.pointer_copying [OF DatabaseUser_copying [OF assms]]
    DatabaseUserList_blocks.pointer_copying [OF DatabaseUserList_copying [OF assms]]
  show "deep_value (Object_view lv) (Object_reach lr)"
  proof (unfold_locales, goal_cases)
    case (1 h ob t)
    then show ?case by (cases ob) (auto dest: wrapped_reach [OF pointers(1)] wrapped_reach [OF pointers(2)]
      wrapped_reach [OF pointers(3)] wrapped_reach [OF pointers(4)] wrapped_reach [OF pointers(5)]
      wrapped_reach [OF pointers(6)])
  next
    case (2 h ob t h')
    show ?case
    proof (cases ob)
      case (RO_AdminConnection p)
      with 2 wrapped_frame [OF pointers(1), of T_AdminConnection h p t h'] show ?thesis by simp
    next
      case (RO_AdminConnectionList p)
      with 2 wrapped_frame [OF pointers(2), of T_AdminConnectionList h p t h'] show ?thesis by simp
    next
      case (RO_Database p)
      with 2 wrapped_frame [OF pointers(3), of T_Database h p t h'] show ?thesis by simp
    next
      case (RO_DatabaseList p)
      with 2 wrapped_frame [OF pointers(4), of T_DatabaseList h p t h'] show ?thesis by simp
    next
      case (RO_DatabaseUser p)
      with 2 wrapped_frame [OF pointers(5), of T_DatabaseUser h p t h'] show ?thesis by simp
    next
      case (RO_DatabaseUserList p)
      with 2 wrapped_frame [OF pointers(6), of T_DatabaseUserList h p t h'] show ?thesis by simp
    qed
  qed
  fix h :: "('a, 'b) memory" and ob t
  assume h: "fenced h" and v: "Object_view lv h ob = Some t"
  show "\<exists>ob' h'. go_bind (DeepCopyObject L ob) deref h = Ret ob' h' \<and> fenced h' \<and> grows h h' \<and>
      Object_view lv h' ob' = Some t \<and> Object_reach lr h' ob' \<subseteq> {limit h..<limit h'}"
  proof (cases ob)
    case (RO_AdminConnection p)
    with v wrapped_copy [OF pointers(1) h, of T_AdminConnection p t _ RO_AdminConnection] show ?thesis
      unfolding RO_AdminConnection DeepCopyObject_unfold by fastforce
  next
    case (RO_AdminConnectionList p)
    with v wrapped_copy [OF pointers(2) h, of T_AdminConnectionList p t _ RO_AdminConnectionList] show ?thesis
      unfolding RO_AdminConnectionList DeepCopyObject_unfold by fastforce
  next
    case (RO_Database p)
    with v wrapped_copy [OF pointers(3) h, of T_Database p t _ RO_Database] show ?thesis
      unfolding RO_Database DeepCopyObject_unfold by fastforce
  next
    case (RO_DatabaseList p)
    with v wrapped_copy [OF pointers(4) h, of T_DatabaseList p t _ RO_DatabaseList] show ?thesis
      unfolding RO_DatabaseList DeepCopyObject_unfold by fastforce
  next
    case (RO_DatabaseUser p)
    with v wrapped_copy [OF pointers(5) h, of T_DatabaseUser p t _ RO_DatabaseUser] show ?thesis
      unfolding RO_DatabaseUser DeepCopyObject_unfold by fastforce
  next
    case (RO_DatabaseUserList p)
    with v wrapped_copy [OF pointers(6) h, of T_DatabaseUserList p t _ RO_DatabaseUserList] show ?thesis
      unfolding RO_DatabaseUserList DeepCopyObject_unfold by fastforce
  qed
qed

end
