(* ===== verification/Cached_User.thy ===== *)
theory Cached_User
  imports Deep_Copy_Correct Database_User_Controller
begin

text \<open>
  The assignments through pointers that \<open>databaseuser_controller.go\<close> makes to its instance, in memory: \<open>userExists\<close> writes
  the plugin it found behind \<open>Status.Identification\<close>, and \<open>userDetailString\<close> lets that pointer point to what
  \<open>Spec.Identification\<close> points to. The instance is a deep copy of the object in the client's cache. On a fresh copy the write
  of \<open>userExists\<close> does to the value what the model of \<open>Database_User_Controller\<close> says and leaves the
  cached object alone; once the two pointers share their target it would change the specification, too, so it
  matters that \<open>userExists\<close> comes first.
\<close>

section \<open>The instance in memory\<close>

definition set_identification :: "'a \<Rightarrow> ('m, 'b, ('t, 'a, 'c, 'd) user_status) resource \<Rightarrow> ('m, 'b, ('t, 'a, 'c, 'd) user_status) resource" where
  "set_identification i u = u\<lparr>res_Status := (res_Status u)\<lparr>usts_Identification := i\<rparr>\<rparr>"

text \<open>
  \<open>if Status.Identification == nil { Status.Identification = &Identification{AuthPlugin: plugin} } else {
  Status.Identification.AuthPlugin = plugin }\<close>
\<close>

definition record_plugin :: "pointer \<Rightarrow> string \<Rightarrow> (('v, 'l) memory, unit) go" where
  "record_plugin inst plugin =
     go_bind (read_at DatabaseUser_kind inst) (\<lambda>u.
     case usts_Identification (res_Status u) of
       None \<Rightarrow>
         go_bind (new_block Identification_kind (zero_Identification\<lparr>idn_AuthPlugin := plugin\<rparr>)) (\<lambda>l.
         write_at DatabaseUser_kind inst (set_identification (Some l) u))
     | Some l \<Rightarrow>
         go_bind (read_at Identification_kind (Some l)) (\<lambda>i.
         write_at Identification_kind (Some l) (i\<lparr>idn_AuthPlugin := plugin\<rparr>)))"

text \<open>
  \<open>Status.IdentificationResourceVersion = secret.ResourceVersion; Status.Identification = Spec.Identification;
  Status.TlsOptions = Spec.TlsOptions\<close>
\<close>

definition share_identification :: "pointer \<Rightarrow> string \<Rightarrow> (('v, 'l) memory, unit) go" where
  "share_identification inst version =
     go_bind (read_at DatabaseUser_kind inst) (\<lambda>u.
     write_at DatabaseUser_kind inst
       (u\<lparr>res_Status := (res_Status u)
          \<lparr>usts_IdentificationResourceVersion := version,
           usts_Identification := usp_Identification (res_Spec u),
           usts_TlsOptions := usp_TlsOptions (res_Spec u)\<rparr>\<rparr>))"

section \<open>The value behind it\<close>

text \<open>How the library's structs read: metadata, times and selectors.\<close>

record 'x readings =
  rd_meta :: "'x \<Rightarrow> ObjectMeta"
  rd_time :: "'x \<Rightarrow> time option"
  rd_selector :: "'x \<Rightarrow> SecretKeySelector"

definition identification_value :: "'x readings \<Rightarrow> 'x key_source option identification \<Rightarrow> Identification" where
  "identification_value R i =
     \<lparr>id_AuthPlugin = idn_AuthPlugin i,
      id_AuthString = map_option (\<lambda>k. \<lparr>sks_SecretKeyRef = rd_selector R (ks_SecretKeyRef k)\<rparr>) (idn_AuthString i),
      id_ClearText = idn_ClearText i\<rparr>"

definition permissions_value :: "string slice permission slice \<Rightarrow> DatabasePermission slice" where
  "permissions_value = map_option (map (\<lambda>p. \<lparr>dp_Name = perm_Name p, dp_Grants = perm_Grants p\<rparr>))"

definition user_value :: "'x readings \<Rightarrow> 'x user_t \<Rightarrow> DatabaseUser" where
  "user_value R t =
     \<lparr>du_Meta = rd_meta R (res_ObjectMeta t),
      du_Spec =
        \<lparr>us_AdminConnection = usp_AdminConnection (res_Spec t), us_Username = usp_Username (res_Spec t),
         us_Identification = map_option (identification_value R) (usp_Identification (res_Spec t)),
         us_DatabaseList = permissions_value (usp_DatabaseList (res_Spec t)),
         us_TlsOptions = usp_TlsOptions (res_Spec t)\<rparr>,
      du_Status =
        \<lparr>ust_CreationTime = rd_time R (usts_CreationTime (res_Status t)),
         ust_SyncTime = rd_time R (usts_SyncTime (res_Status t)), ust_Message = usts_Message (res_Status t),
         ust_Username = usts_Username (res_Status t),
         ust_DatabaseList = permissions_value (usts_DatabaseList (res_Status t)),
         ust_Grants = usts_Grants (res_Status t),
         ust_Identification = map_option (identification_value R) (usts_Identification (res_Status t)),
         ust_IdentificationResourceVersion = usts_IdentificationResourceVersion (res_Status t),
         ust_TlsOptions = usts_TlsOptions (res_Status t)\<rparr>\<rparr>"

definition plugin_recorded :: "string \<Rightarrow> 'x user_t \<Rightarrow> 'x user_t" where
  "plugin_recorded plugin t =
     set_identification
       (Some (case usts_Identification (res_Status t) of
                None \<Rightarrow> \<lparr>idn_AuthPlugin = plugin, idn_AuthString = None, idn_ClearText = False\<rparr>
              | Some i \<Rightarrow> i\<lparr>idn_AuthPlugin := plugin\<rparr>)) t"

lemma userExists_value:
  "userExists E db (user_value R t) w =
     (case UserExists E db (usts_Username (res_Status t)) w of
        Panic p w' \<Rightarrow> Panic p w'
      | Ret None w' \<Rightarrow> Ret (user_value R t, False, None) w'
      | Ret (Some row) w' \<Rightarrow> Ret (user_value R (plugin_recorded (mysql_Plugin row) t), True, None) w')"
  by (auto simp: userExists_def go_bind_def status_username_def user_value_def plugin_recorded_def
      set_identification_def set_user_status_def identification_value_def split: run.splits option.splits)

section \<open>The field and the rest\<close>

type_synonym 'v user_rest = "'v \<times> user_spec_m \<times> 'v \<times> 'v \<times> memslice \<times> memslice"

definition user_rest :: "'v user_m \<Rightarrow> 'v user_rest" where
  "user_rest u =
     (res_ObjectMeta u, res_Spec u, usts_CreationTime (res_Status u), usts_SyncTime (res_Status u),
      usts_DatabaseList (res_Status u), usts_Grants (res_Status u))"

abbreviation rest_view where
  "rest_view lv \<equiv> both_view lv (both_view (DatabaseUserSpec_view lv) (both_view lv (both_view lv
     (both_view permissions_view string_slice_view))))"

abbreviation rest_reach where
  "rest_reach lr \<equiv> both_reach lr (both_reach (DatabaseUserSpec_reach lr) (both_reach lr (both_reach lr
     (both_reach permissions_reach string_slice_reach))))"

abbreviation user_ident :: "'v user_m \<Rightarrow> pointer" where
  "user_ident u \<equiv> usts_Identification (res_Status u)"

definition user_tree where
  "user_tree u r i =
     (case r of (m, sp, c, t, ps, gs) \<Rightarrow>
        \<lparr>res_TypeMeta = res_TypeMeta u, res_ObjectMeta = m, res_Spec = sp, res_Status =
          \<lparr>usts_CreationTime = c, usts_SyncTime = t, usts_Message = usts_Message (res_Status u),
           usts_Username = usts_Username (res_Status u), usts_DatabaseList = ps, usts_Grants = gs,
           usts_Identification = i,
           usts_IdentificationResourceVersion = usts_IdentificationResourceVersion (res_Status u),
           usts_TlsOptions = usts_TlsOptions (res_Status u)\<rparr>\<rparr>)"

lemma user_view_split:
  "DatabaseUser_view lv h u = Some t \<longleftrightarrow>
     (\<exists>r i. rest_view lv h (user_rest u) = Some r \<and> ident_view lv h (user_ident u) = Some i \<and> t = user_tree u r i)"
  by (auto simp: resource_view_def DatabaseUserStatus_view_def both_view_def bind_eq_Some_conv user_rest_def
      user_tree_def)

lemma user_reach_split:
  "DatabaseUser_reach lr h u = rest_reach lr h (user_rest u) \<union> ident_reach lr h (user_ident u)"
  by (auto simp: resource_reach_def DatabaseUserStatus_reach_def both_reach_def user_rest_def)

abbreviation rest_copy :: "('v, 'l) library \<Rightarrow> 'v user_rest \<Rightarrow> (('v, 'l) memory, 'v user_rest) go" where
  "rest_copy L \<equiv> both_copy (ObjectMeta_DeepCopyInto L) (both_copy (DatabaseUserSpec_DeepCopyInto L)
     (both_copy (Time_DeepCopyInto L) (both_copy (Time_DeepCopyInto L)
     (both_copy (copy_slice DatabasePermission_kind zero_DatabasePermission DatabasePermission_DeepCopyInto)
       (clone_slice string_kind [])))))"

abbreviation ident_copy :: "('v, 'l) library \<Rightarrow> pointer \<Rightarrow> (('v, 'l) memory, pointer) go" where
  "ident_copy L \<equiv> copy_pointer Identification_kind zero_Identification (Identification_DeepCopyInto L)"

definition put_user :: "'v user_rest \<Rightarrow> pointer \<Rightarrow> 'v user_m \<Rightarrow> 'v user_m" where
  "put_user r i u =
     (case r of (m, sp, c, t, ps, gs) \<Rightarrow>
        u\<lparr>res_ObjectMeta := m, res_Spec := sp,
          res_Status := (res_Status u)\<lparr>usts_CreationTime := c, usts_SyncTime := t, usts_DatabaseList := ps,
            usts_Grants := gs, usts_Identification := i\<rparr>\<rparr>)"

lemma put_user_parts [simp]: "user_rest (put_user r i u) = r" "user_ident (put_user r i u) = i"
  by (auto simp: put_user_def user_rest_def split: prod.splits)

lemma user_copy_split:
  "DatabaseUser_DeepCopyInto L u =
     go_bind (both_copy (rest_copy L) (ident_copy L) (user_rest u, user_ident u)) (\<lambda>(r, i). ret (put_user r i u))"
  by (simp add: DatabaseUser_DeepCopyInto_def DatabaseUserStatus_DeepCopyInto_def both_copy_def go_bind_assoc
      user_rest_def put_user_def)

lemma rest_copying:
  assumes "library_copies lv lr L"
  shows "deep_copying (rest_view lv) (rest_reach lr) (rest_copy L)"
  by (intro both_copying library_copiesD [OF assms] DatabaseUserSpec_copying [OF assms] permissions_copying
      string_slice_copying)

section \<open>A fresh copy owns what its status points to\<close>

text \<open>
  \<open>owned_user\<close>: the instance is alone in its block, and nothing but \<open>Status.Identification\<close> points to the target of
  \<open>Status.Identification\<close>.
\<close>

definition ident_alone :: "('v, 'l, 'v) reacher \<Rightarrow> ('v, 'l) memory \<Rightarrow> 'v user_m \<Rightarrow> bool" where
  "ident_alone lr h u \<longleftrightarrow>
     (\<forall>l. user_ident u = Some l \<longrightarrow> fst l \<notin> rest_reach lr h (user_rest u) \<and>
        (\<forall>i. peek Identification_kind h l = Some i \<longrightarrow> fst l \<notin> Identification_reach lr h i))"

definition owned_user :: "('v, 'l, 'v) reacher \<Rightarrow> ('v, 'l) memory \<Rightarrow> nat \<Rightarrow> 'v user_m \<Rightarrow> bool" where
  "owned_user lr h b u \<longleftrightarrow>
     block DatabaseUser_kind h b = Some [u] \<and> b \<notin> DatabaseUser_reach lr h u \<and> ident_alone lr h u"

lemma copied_ident_alone:
  assumes L: "library_copies lv lr L" and h: "fenced h" and v: "DatabaseUser_view lv h u = Some t"
    and c: "DatabaseUser_DeepCopyInto L u h = Ret u' h'"
  shows "ident_alone lr h' u'"
proof -
  note cr = rest_copying [OF L] and ci = ident_copying [OF L, of zero_Identification]
  note id = Identification_copying [OF L]
  obtain r i where "rest_view lv h (user_rest u) = Some r" and i: "ident_view lv h (user_ident u) = Some i"
    using v unfolding user_view_split by blast
  then have "both_view (rest_view lv) (ident_view lv) h (user_rest u, user_ident u) = Some (r, i)"
    by (simp add: both_view_def)
  from both_run [OF cr ci h this] obtain p1 p2 h1 h2
    where run: "both_copy (rest_copy L) (ident_copy L) (user_rest u, user_ident u) h = Ret (p1, p2) h2"
      and h1: "fenced h1" and p1: "rest_reach lr h2 p1 \<subseteq> {..<limit h1}"
      and i1: "ident_view lv h1 (user_ident u) = ident_view lv h (user_ident u)"
      and run2: "ident_copy L (user_ident u) h1 = Ret p2 h2"
    by (metis snd_conv)
  have u': "u' = put_user p1 p2 u" "h' = h2"
    using c run by (auto simp: user_copy_split go_bind_def)
  show ?thesis
  proof (cases "user_ident u")
    case None
    then have "p2 = None" using run2 by (simp add: copy_pointer_def)
    then show ?thesis by (simp add: ident_alone_def u')
  next
    case (Some l)
    with i i1 obtain y z where y: "peek Identification_kind h1 l = Some y" "Identification_view lv h1 y = Some z"
      by (auto simp: pointer_view_def bind_eq_Some_conv)
    from Identification_blocks.pointer_copy_run [OF id h1 y, of zero_Identification] obtain y' h3
      where run3: "ident_copy L (Some l) h1 = Ret (Some (limit h1, 0)) (put_block Identification_kind (limit h1) [y'] h3)"
        and y': "Identification_view lv h3 y' = Some z" "Identification_reach lr h3 y' \<subseteq> {limit h1 + 1..<limit h3}" .
    have h2: "h2 = put_block Identification_kind (limit h1) [y'] h3" and p2: "p2 = Some (limit h1, 0)"
      using run2 run3 Some by simp_all
    have "limit h1 \<notin> Identification_reach lr h3 y'" using y'(2) by auto
    then have "Identification_reach lr h2 y' = Identification_reach lr h3 y'"
      using Identification_blocks.put_keeps [OF deep_copying_value [OF id] y'(1)] by (simp add: h2)
    moreover have "peek Identification_kind h2 (limit h1, 0) = Some y'" by (simp add: peek_def h2)
    ultimately show ?thesis using p1 y'(2) by (auto simp: ident_alone_def u' p2)
  qed
qed

lemma user_parts:
  assumes "DatabaseUser_view lv h u = Some t"
  obtains r where "rest_view lv h (user_rest u) = Some r" and "user_ident u = None" and "t = user_tree u r None"
  | l y r i where "rest_view lv h (user_rest u) = Some r" and "user_ident u = Some l"
    and "peek Identification_kind h l = Some y" and "Identification_view lv h y = Some i"
    and "t = user_tree u r (Some i)"
  using assms unfolding user_view_split
  by (cases "user_ident u") (auto simp: pointer_view_def bind_eq_Some_conv)

lemma user_reach_ident:
  assumes "user_ident u = Some l" and "peek Identification_kind h l = Some y"
  shows "DatabaseUser_reach lr h u = rest_reach lr h (user_rest u) \<union> insert (fst l) (Identification_reach lr h y)"
  using assms by (simp add: user_reach_split pointer_reach_def)

lemma ident_alone_frame:
  assumes L: "library_copies lv lr L" and "DatabaseUser_view lv h u = Some t" and a: "ident_alone lr h u"
    and same: "\<And>x. x \<in> DatabaseUser_reach lr h u \<Longrightarrow> cells h' x = cells h x"
  shows "ident_alone lr h' u"
  using assms(2)
proof (cases rule: user_parts)
  case 1
  then show ?thesis by (simp add: ident_alone_def)
next
  case (2 l y r i)
  note same = same [unfolded user_reach_ident [OF 2(2,3)]]
  have "rest_view lv h' (user_rest u) = Some r \<and> rest_reach lr h' (user_rest u) = rest_reach lr h (user_rest u)"
    by (rule deep_value.frame [OF deep_copying_value [OF rest_copying [OF L]], OF 2(1)]) (rule same, erule UnI1)
  moreover have "Identification_view lv h' y = Some i \<and> Identification_reach lr h' y = Identification_reach lr h y"
    by (rule deep_value.frame [OF deep_copying_value [OF Identification_copying [OF L]], OF 2(4)])
      (rule same, rule UnI2, erule insertI2)
  moreover have "cells h' (fst l) = cells h (fst l)" by (rule same) simp
  then have "peek Identification_kind h' l = Some y"
    using 2(3) by (simp add: peek_def block_def)
  ultimately show ?thesis using a 2(2,3) by (simp add: ident_alone_def)
qed

lemma copied_user_owned:
  assumes L: "library_copies lv lr L" and h: "fenced h"
    and v: "Object_view lv h (RO_DatabaseUser p) = Some (T_DatabaseUser t)"
    and c: "DeepCopyObject L (RO_DatabaseUser p) h = Ret (Some ob) h'"
  obtains b u where "ob = RO_DatabaseUser (Some (b, 0))" and "owned_user lr h' b u"
proof -
  note du = DatabaseUser_copying [OF L]
  note dv = deep_copying_value [OF du]
  obtain l u where p: "p = Some l" and u: "peek DatabaseUser_kind h l = Some u" "DatabaseUser_view lv h u = Some t"
    using v by (cases p) (auto simp: behind_Some_iff pointer_view_def bind_eq_Some_conv)
  define h1 where "h1 = put_block DatabaseUser_kind (limit h) [zero_DatabaseUser L] (h\<lparr>limit := limit h + 1\<rparr>)"
  have h1: "fenced h1" "grows h h1" unfolding h1_def by (rule DatabaseUser_blocks.fresh_block [OF h])+
  from DatabaseUser_blocks.pointer_copy_run [OF du h u] obtain u' h2
    where run: "copy_pointer DatabaseUser_kind (zero_DatabaseUser L) (DatabaseUser_DeepCopyInto L) (Some l) h =
        Ret (Some (limit h, 0)) (put_block DatabaseUser_kind (limit h) [u'] h2)"
      and v2: "DatabaseUser_view lv h2 u' = Some t" and fresh: "DatabaseUser_reach lr h2 u' \<subseteq> {limit h + 1..<limit h2}"
      and into: "DatabaseUser_DeepCopyInto L u h1 = Ret u' h2"
    unfolding h1_def by metis
  have ob: "ob = RO_DatabaseUser (Some (limit h, 0))" and h': "h' = put_block DatabaseUser_kind (limit h) [u'] h2"
    using c run by (auto simp: p DatabaseUser_DeepCopyObject_def DatabaseUser_DeepCopy_def go_bind_def)
  have "DatabaseUser_view lv h1 u = Some t" using deep_value.kept_grows [OF dv h h1(2) u(2)] by simp
  from copied_ident_alone [OF L h1(1) this into] have alone: "ident_alone lr h2 u'" .
  have "limit h \<notin> DatabaseUser_reach lr h2 u'" using fresh by auto
  note same = DatabaseUser_blocks.put_keeps [OF dv v2 this]
  have "ident_alone lr h' u'"
  proof (rule ident_alone_frame [OF L v2 alone])
    show "cells h' x = cells h2 x" if "x \<in> DatabaseUser_reach lr h2 u'" for x
      using that fresh by (auto simp: h' DatabaseUser_blocks.put_block_simps)
  qed
  moreover have "limit h \<notin> DatabaseUser_reach lr h' u'" using same fresh by (auto simp: h')
  ultimately have "owned_user lr h' (limit h) u'" by (simp add: owned_user_def h')
  with ob show thesis by (rule that)
qed

lemma user_tree_plugin:
  "plugin_recorded plugin (user_tree u r i) =
     user_tree u r (Some (case i of None \<Rightarrow> \<lparr>idn_AuthPlugin = plugin, idn_AuthString = None, idn_ClearText = False\<rparr>
                                  | Some j \<Rightarrow> j\<lparr>idn_AuthPlugin := plugin\<rparr>))"
  by (auto simp: plugin_recorded_def user_tree_def set_identification_def split: prod.splits option.splits)

lemma set_identification_parts [simp]:
  "user_rest (set_identification i u) = user_rest u" "user_ident (set_identification i u) = i"
  "user_tree (set_identification i u) = user_tree u"
  by (auto simp: set_identification_def user_rest_def user_tree_def fun_eq_iff split: prod.splits)

lemma user_object_view:
  assumes "block DatabaseUser_kind h b = Some [u]" and "rest_view lv h (user_rest u) = Some r"
    and "ident_view lv h (user_ident u) = Some i"
  shows "Object_view lv h (RO_DatabaseUser (Some (b, 0))) = Some (T_DatabaseUser (user_tree u r i))"
proof -
  have "DatabaseUser_view lv h u = Some (user_tree u r i)" using assms(2,3) unfolding user_view_split by blast
  then show ?thesis by (simp add: behind_def pointer_view_def peek_def assms(1))
qed

lemma Identification_plugin:
  "Identification_view lv h (i\<lparr>idn_AuthPlugin := plugin\<rparr>) =
     map_option (\<lambda>x. x\<lparr>idn_AuthPlugin := plugin\<rparr>) (Identification_view lv h i)"
  by (simp add: Identification_view_def option.map_comp o_def)

text \<open>The write of \<open>userExists\<close>, first without and then with a recorded identification.\<close>

lemma record_plugin_new:
  assumes L: "library_copies lv lr L" and h: "fenced h" and u: "block DatabaseUser_kind h b = Some [u]"
    and b: "b \<notin> DatabaseUser_reach lr h u" and r: "rest_view lv h (user_rest u) = Some r" and n: "user_ident u = None"
  shows "\<exists>h'. record_plugin (Some (b, 0)) plugin h = Ret () h' \<and>
    Object_view lv h' (RO_DatabaseUser (Some (b, 0))) = Some (T_DatabaseUser (plugin_recorded plugin (user_tree u r None))) \<and>
    (\<forall>x<limit h. x \<noteq> b \<longrightarrow> cells h' x = cells h x)"
proof -
  note dr = deep_copying_value [OF rest_copying [OF L]]
  define i where "i = zero_Identification\<lparr>idn_AuthPlugin := plugin\<rparr>"
  define u' where "u' = set_identification (Some (limit h, 0 :: nat)) u"
  define h1 where "h1 = put_block Identification_kind (limit h) [i] (h\<lparr>limit := limit h + 1\<rparr>)"
  define h2 where "h2 = put_block DatabaseUser_kind b [u'] h1"
  have h1: "fenced h1" "grows h h1" unfolding h1_def by (rule Identification_blocks.fresh_block [OF h])+
  have bl: "b < limit h" using u h by (auto simp: fenced_def DatabaseUser_blocks.block_iff)
  have u1: "block DatabaseUser_kind h1 b = Some [u]" using DatabaseUser_blocks.block_kept [OF bl h1(2)] u by simp
  have run: "record_plugin (Some (b, 0)) plugin h = Ret () h2"
    using u u1 n by (simp add: record_plugin_def go_bind_def read_at_def new_block_def write_at_def h2_def h1_def i_def u'_def)
  have "rest_view lv h1 (user_rest u) = Some r \<and> rest_reach lr h1 (user_rest u) = rest_reach lr h (user_rest u)"
    by (rule deep_value.kept_grows [OF dr, OF h h1(2) r])
  note r1 = this [THEN conjunct1] this [THEN conjunct2]
  have "b \<notin> rest_reach lr h1 (user_rest u)" unfolding r1(2) using b by (simp only: user_reach_split Un_iff) simp
  then have "rest_view lv h2 (user_rest u) = Some r"
    unfolding h2_def by (rule DatabaseUser_blocks.put_keeps [OF dr, OF r1(1), THEN conjunct1])
  moreover have "peek Identification_kind h2 (limit h, 0) = Some i"
    using bl by (simp add: peek_def block_def h2_def h1_def put_block_def Identification_kind_def)
  then have "ident_view lv h2 (Some (limit h, 0)) =
      Some (Some \<lparr>idn_AuthPlugin = plugin, idn_AuthString = None, idn_ClearText = False\<rparr>)"
    by (simp add: pointer_view_def Identification_view_def i_def zero_Identification_def)
  ultimately have "Object_view lv h2 (RO_DatabaseUser (Some (b, 0))) =
      Some (T_DatabaseUser (plugin_recorded plugin (user_tree u r None)))"
    using user_object_view [of h2 b u' lv r] by (simp add: h2_def [symmetric] u'_def user_tree_plugin) (simp add: h2_def u'_def)
  moreover have "cells h2 x = cells h x" if "x < limit h" "x \<noteq> b" for x
    using that h1(2) by (simp add: h2_def DatabaseUser_blocks.put_block_simps grows_def)
  ultimately show ?thesis using run by blast
qed

lemma record_plugin_set:
  assumes L: "library_copies lv lr L" and u: "block DatabaseUser_kind h b = Some [u]"
    and b: "b \<notin> DatabaseUser_reach lr h u" and a: "ident_alone lr h u"
    and r: "rest_view lv h (user_rest u) = Some r" and l: "user_ident u = Some l"
    and i: "peek Identification_kind h l = Some i" "Identification_view lv h i = Some j"
  shows "\<exists>h'. record_plugin (Some (b, 0)) plugin h = Ret () h' \<and>
    Object_view lv h' (RO_DatabaseUser (Some (b, 0))) =
      Some (T_DatabaseUser (plugin_recorded plugin (user_tree u r (Some j)))) \<and>
    (\<forall>x. x \<noteq> fst l \<longrightarrow> cells h' x = cells h x)"
proof -
  note dr = deep_copying_value [OF rest_copying [OF L]] and di = deep_copying_value [OF Identification_copying [OF L]]
  obtain xs where xs: "block Identification_kind h (fst l) = Some xs" "snd l < length xs" "xs ! snd l = i"
    using i(1) by (auto simp: peek_def split: option.splits if_splits)
  define h2 where "h2 = put_block Identification_kind (fst l) (xs[snd l := i\<lparr>idn_AuthPlugin := plugin\<rparr>]) h"
  have run: "record_plugin (Some (b, 0)) plugin h = Ret () h2"
    using u l xs by (cases l) (simp add: record_plugin_def go_bind_def read_at_def write_at_def h2_def)
  have ne: "fst l \<noteq> b" using b by (auto simp: user_reach_ident [OF l i(1)])
  have alone: "fst l \<notin> rest_reach lr h (user_rest u)" "fst l \<notin> Identification_reach lr h i"
    using a l i(1) unfolding ident_alone_def by blast+
  have "rest_view lv h2 (user_rest u) = Some r"
    unfolding h2_def by (rule Identification_blocks.put_keeps [OF dr, OF r alone(1), THEN conjunct1])
  moreover have "Identification_view lv h2 i = Some j"
    unfolding h2_def by (rule Identification_blocks.put_keeps [OF di, OF i(2) alone(2), THEN conjunct1])
  then have "ident_view lv h2 (Some l) = Some (Some (j\<lparr>idn_AuthPlugin := plugin\<rparr>))"
    using xs by (simp add: pointer_view_def peek_def h2_def [symmetric] Identification_plugin) (simp add: h2_def Identification_plugin)
  moreover have "block DatabaseUser_kind h2 b = Some [u]"
    using u ne by (simp add: block_def h2_def Identification_blocks.put_block_simps)
  ultimately have "Object_view lv h2 (RO_DatabaseUser (Some (b, 0))) =
      Some (T_DatabaseUser (plugin_recorded plugin (user_tree u r (Some j))))"
    using user_object_view [of h2 b u lv r] by (simp add: l user_tree_plugin)
  moreover have "cells h2 x = cells h x" if "x \<noteq> fst l" for x
    using that by (simp add: h2_def Identification_blocks.put_block_simps)
  ultimately show ?thesis using run by blast
qed

lemma record_plugin_run:
  assumes L: "library_copies lv lr L" and h: "fenced h" and o: "owned_user lr h b u"
    and v: "DatabaseUser_view lv h u = Some t"
  shows "\<exists>h'. record_plugin (Some (b, 0)) plugin h = Ret () h' \<and>
    Object_view lv h' (RO_DatabaseUser (Some (b, 0))) = Some (T_DatabaseUser (plugin_recorded plugin t)) \<and>
    (\<forall>x<limit h. x \<notin> insert b (DatabaseUser_reach lr h u) \<longrightarrow> cells h' x = cells h x)"
  using v
proof (cases rule: user_parts)
  case (1 r)
  then show ?thesis using record_plugin_new [OF L h, of b u r plugin] o by (auto simp: owned_user_def)
next
  case (2 l y r i)
  then show ?thesis
    using record_plugin_set [OF L _ _ _ 2(1-4), of b plugin] o by (auto simp: owned_user_def user_reach_ident [OF 2(2,3)])
qed

end
