(* ===== verification/Copied_Objects.thy ===== *)
theory Copied_Objects
  imports Cached_User Sample_Cluster
begin

text \<open>
  What the generated deep copies guarantee for the objects of the operator, whatever their type, and what that means
  for an instance that a reconciler writes to. \<open>sample_memory\<close> holds a \<open>DatabaseUser\<close> whose specification and
  status share one \<open>Identification\<close>, with a finalizer in a block of the library's own.
\<close>

section \<open>A sample memory\<close>

text \<open>The library's structs, here a text and a slice of strings.\<close>

record 'strings lib_struct =
  ls_Text :: string
  ls_Strings :: 'strings

type_synonym sample_memory = "(memslice lib_struct, string list) memory"

definition lib_kind :: "(string, (memslice lib_struct, string list) cell) kind" where
  "lib_kind = \<lparr>wrap = LibraryBlock, unwrap = (\<lambda>c. case c of LibraryBlock xs \<Rightarrow> Some xs | _ \<Rightarrow> None)\<rparr>"

interpretation lib_blocks: block_kind lib_kind
  by unfold_locales (auto simp: lib_kind_def split: cell.splits)

definition lib_copy :: "memslice lib_struct \<Rightarrow> (sample_memory, memslice lib_struct) go" where
  "lib_copy s = go_bind (clone_slice lib_kind [] (ls_Strings s)) (\<lambda>xs. ret (s\<lparr>ls_Strings := xs\<rparr>))"

definition lib_view :: "sample_memory \<Rightarrow> memslice lib_struct \<Rightarrow> string slice lib_struct option" where
  "lib_view h s =
     map_option (\<lambda>xs. \<lparr>ls_Text = ls_Text s, ls_Strings = xs\<rparr>) (slice_view lib_kind plain_view h (ls_Strings s))"

definition lib_reach :: "sample_memory \<Rightarrow> memslice lib_struct \<Rightarrow> nat set" where
  "lib_reach h s = slice_reach lib_kind plain_reach h (ls_Strings s)"

definition lib_text :: "string \<Rightarrow> memslice lib_struct" where
  "lib_text s = \<lparr>ls_Text = s, ls_Strings = None\<rparr>"

definition sample_library :: "(memslice lib_struct, string list) library" where
  "sample_library =
     \<lparr>ObjectMeta_DeepCopyInto = lib_copy, ListMeta_DeepCopyInto = lib_copy, Time_DeepCopyInto = lib_copy,
      SecretKeySelector_DeepCopyInto = lib_copy, zero_ObjectMeta = lib_text [], zero_ListMeta = lib_text [],
      zero_Time = lib_text [], zero_SecretKeySelector = lib_text []\<rparr>"

lemma lib_copying: "deep_copying lib_view lib_reach lib_copy"
  by (rule copying_via [OF lib_blocks.clone_copying, where sel = ls_Strings
        and upd = "\<lambda>xs c. c\<lparr>ls_Strings := xs\<rparr>" and mk = "\<lambda>c xs. \<lparr>ls_Text = ls_Text c, ls_Strings = xs\<rparr>"])
    (simp_all add: lib_view_def lib_reach_def lib_copy_def)

lemma sample_library_copies: "library_copies lib_view lib_reach sample_library"
  by (simp add: library_copies_def sample_library_def lib_copying)

text \<open>The object in the cache, at block 4.\<close>

definition cached_user :: "memslice lib_struct user_m" where
  "cached_user =
     \<lparr>res_TypeMeta = \<lparr>tm_Kind = ''DatabaseUser'', tm_APIVersion = ''mysql.apps.cuppett.dev/v1alpha1''\<rparr>,
      res_ObjectMeta = \<lparr>ls_Text = ''alice'', ls_Strings = Some \<lparr>sl_Block = 0, sl_First = 0, sl_Len = 1\<rparr>\<rparr>,
      res_Spec =
        \<lparr>usp_AdminConnection = \<lparr>acr_Namespace = [], acr_Name = ''admin''\<rparr>, usp_Username = ''alice'',
         usp_Identification = Some (2, 0),
         usp_DatabaseList = Some \<lparr>sl_Block = 3, sl_First = 0, sl_Len = 1\<rparr>, usp_TlsOptions = zero_TlsOptions\<rparr>,
      res_Status =
        \<lparr>usts_CreationTime = lib_text ''yesterday'', usts_SyncTime = lib_text [], usts_Message = ''Created user'',
         usts_Username = ''alice'', usts_DatabaseList = None, usts_Grants = None, usts_Identification = Some (2, 0),
         usts_IdentificationResourceVersion = ''1'', usts_TlsOptions = zero_TlsOptions\<rparr>\<rparr>"

definition sample_memory :: sample_memory where
  "sample_memory =
     \<lparr>limit = 5,
      cells =
        [0 \<mapsto> LibraryBlock [''finalizer''],
         1 \<mapsto> SecretKeySources [\<lparr>ks_SecretKeyRef = lib_text ''secret''\<rparr>],
         2 \<mapsto> Identifications [\<lparr>idn_AuthPlugin = ''plugin'', idn_AuthString = Some (1, 0), idn_ClearText = True\<rparr>],
         3 \<mapsto> DatabasePermissions [\<lparr>perm_Name = ''shop'', perm_Grants = None\<rparr>],
         4 \<mapsto> DatabaseUsers [cached_user]]\<rparr>"

abbreviation cached :: runtime_Object where
  "cached \<equiv> RO_DatabaseUser (Some (4, 0))"

lemma sample_fenced: "fenced sample_memory"
  by (auto simp: fenced_def sample_memory_def split: if_splits)

lemma sample_viewed:
  obtains t where "Object_view lib_view sample_memory cached = Some (T_DatabaseUser t)"
    and "usts_Username (res_Status t) = ''alice''" and "usp_Username (res_Spec t) = ''alice''"
  by (simp add: behind_def resource_view_def both_view_def pointer_view_def peek_def
      block_def sample_memory_def DatabaseUser_kind_def cached_user_def DatabaseUserSpec_view_def DatabaseUserStatus_view_def
      Identification_kind_def Identification_view_def SecretKeySource_kind_def SecretKeySource_view_def lib_view_def
      lib_text_def slice_view_def slice_elems_def DatabasePermission_kind_def DatabasePermission_view_def lib_kind_def
      plain_view_def)

section \<open>Deep copies\<close>

lemma copy_of_object:
  assumes "library_copies lv lr L" and "fenced h" and "Object_view lv h ob = Some t"
  obtains ob' h' where "DeepCopyObject L ob h = Ret (Some ob') h'" and "fenced h'" and "grows h h'"
    and "Object_view lv h' ob' = Some t" and "go_bind (DeepCopyObject L ob) deref h = Ret ob' h'"
proof -
  from deep_copying.copyE [OF Object_copying [OF assms(1)], OF assms(2,3)] obtain ob' h'
    where c: "go_bind (DeepCopyObject L ob) deref h = Ret ob' h'" "fenced h'" "grows h h'" "Object_view lv h' ob' = Some t" .
  from c(1) have "DeepCopyObject L ob h = Ret (Some ob') h'"
    by (auto simp: go_bind_Ret_iff deref_def split: option.splits)
  with c show thesis using that by blast
qed

text \<open>A nil pointer of any of the types is copied to the nil interface.\<close>

primrec object_pointer :: "runtime_Object \<Rightarrow> pointer" where
  "object_pointer (RO_AdminConnection p) = p"
| "object_pointer (RO_AdminConnectionList p) = p"
| "object_pointer (RO_Database p) = p"
| "object_pointer (RO_DatabaseList p) = p"
| "object_pointer (RO_DatabaseUser p) = p"
| "object_pointer (RO_DatabaseUserList p) = p"

lemma DeepCopyObject_nil: "object_pointer ob = None \<Longrightarrow> DeepCopyObject L ob h = Ret None h"
  by (cases ob) (simp_all add: DeepCopyObject_unfold copy_pointer_def)

text \<open>
  C17: type safety of \<open>DeepCopyObject\<close>: for an object all of whose pointers and slices lead to memory of their types, the copy does
  not panic and is again such an object, and every object that was well typed stays so, with the same value.
\<close>

theorem DeepCopyObject_type_safe:
  assumes "library_copies lv lr L" and "fenced h" and "Object_view lv h ob \<noteq> None"
  shows "\<exists>ob' h'. DeepCopyObject L ob h = Ret (Some ob') h' \<and> fenced h' \<and> Object_view lv h' ob' \<noteq> None \<and>
    (\<forall>other t. Object_view lv h other = Some t \<longrightarrow> Object_view lv h' other = Some t)"
proof -
  obtain t where "Object_view lv h ob = Some t" using assms(3) by blast
  from copy_of_object [OF assms(1,2) this] obtain ob' h' where c: "DeepCopyObject L ob h = Ret (Some ob') h'"
    "fenced h'" "grows h h'" "Object_view lv h' ob' = Some t" .
  note kept = deep_value.kept_grows [OF deep_copying_value [OF Object_copying [OF assms(1)]], OF assms(2) c(3)]
  show ?thesis using c kept by blast
qed

lemma DeepCopyObject_type_safe_witness:
  "\<exists>ob' h'. DeepCopyObject sample_library cached sample_memory = Ret (Some ob') h' \<and> fenced h' \<and>
    Object_view lib_view h' ob' \<noteq> None"
proof -
  have "Object_view lib_view sample_memory cached \<noteq> None" using sample_viewed by (metis option.distinct(1))
  from DeepCopyObject_type_safe [OF sample_library_copies sample_fenced this] show ?thesis by blast
qed

text \<open>
  C18: the copy is equal to the original in the sense of \<open>reflect.DeepEqual\<close>: it is of the same type and the same tree of
  values is behind it, nil pointers and nil slices where the original has them and empty slices where it has those. The original still has the value that it had.
\<close>

theorem DeepCopyObject_equal:
  assumes "library_copies lv lr L" and "fenced h" and "Object_view lv h ob = Some t"
  shows "\<exists>ob' h'. DeepCopyObject L ob h = Ret (Some ob') h' \<and>
    Object_view lv h' ob' = Some t \<and> Object_view lv h' ob = Some t"
proof -
  from copy_of_object [OF assms] obtain ob' h' where c: "DeepCopyObject L ob h = Ret (Some ob') h'"
    "fenced h'" "grows h h'" "Object_view lv h' ob' = Some t" .
  then show ?thesis
    using deep_value.kept_grows [OF deep_copying_value [OF Object_copying [OF assms(1)]], OF assms(2) c(3) assms(3)] by blast
qed

lemma DeepCopyObject_equal_witness:
  "\<exists>ob' h'. DeepCopyObject sample_library cached sample_memory = Ret (Some ob') h' \<and>
    Object_view lib_view h' ob' = Object_view lib_view sample_memory cached"
proof -
  obtain t where "Object_view lib_view sample_memory cached = Some (T_DatabaseUser t)" by (rule sample_viewed)
  from DeepCopyObject_equal [OF sample_library_copies sample_fenced this] this show ?thesis by metis
qed

text \<open>
  C16: a copy and its original share no memory: whatever is written later to the blocks of the copy, and whatever is allocated, the original keeps its
  value, and the other way round.
\<close>

theorem DeepCopyObject_isolated:
  assumes "library_copies lv lr L" and "fenced h" and "Object_view lv h ob = Some t"
    and "DeepCopyObject L ob h = Ret (Some ob') h'"
  shows "Object_reach lr h' ob' \<inter> Object_reach lr h' ob = {} \<and>
    (\<forall>h''. (\<forall>b<limit h'. b \<notin> Object_reach lr h' ob' \<longrightarrow> cells h'' b = cells h' b) \<longrightarrow>
       Object_view lv h'' ob = Some t) \<and>
    (\<forall>h''. (\<forall>b<limit h'. b \<notin> Object_reach lr h' ob \<longrightarrow> cells h'' b = cells h' b) \<longrightarrow>
       Object_view lv h'' ob' = Some t)"
proof -
  note oc = Object_copying [OF assms(1)]
  have c: "go_bind (DeepCopyObject L ob) deref h = Ret ob' h'" using assms(4) by (simp add: go_bind_def)
  have "Object_reach lr h' ob' \<inter> Object_reach lr h' ob = {}"
    by (rule deep_copying.separate [OF oc, OF assms(2,3) c])
  moreover have "Object_view lv h'' ob = Some t"
    if "\<forall>b<limit h'. b \<notin> Object_reach lr h' ob' \<longrightarrow> cells h'' b = cells h' b" for h''
    by (rule deep_copying.isolated(1) [OF oc, OF assms(2,3) c]) (use that in blast)
  moreover have "Object_view lv h'' ob' = Some t"
    if "\<forall>b<limit h'. b \<notin> Object_reach lr h' ob \<longrightarrow> cells h'' b = cells h' b" for h''
    by (rule deep_copying.isolated(2) [OF oc, OF assms(2,3) c]) (use that in blast)
  ultimately show ?thesis by blast
qed

text \<open>Emptying every block of the copy.\<close>

lemma DeepCopyObject_isolated_witness:
  "\<exists>ob' h'. DeepCopyObject sample_library cached sample_memory = Ret (Some ob') h' \<and>
    Object_view lib_view (h'\<lparr>cells := (\<lambda>b. if b \<in> Object_reach lib_reach h' ob' then None else cells h' b)\<rparr>) cached =
      Object_view lib_view sample_memory cached"
proof -
  obtain t where t: "Object_view lib_view sample_memory cached = Some (T_DatabaseUser t)" by (rule sample_viewed)
  from copy_of_object [OF sample_library_copies sample_fenced t] obtain ob' h'
    where c: "DeepCopyObject sample_library cached sample_memory = Ret (Some ob') h'" .
  let ?h = "h'\<lparr>cells := (\<lambda>b. if b \<in> Object_reach lib_reach h' ob' then None else cells h' b)\<rparr>"
  have "\<forall>b<limit h'. b \<notin> Object_reach lib_reach h' ob' \<longrightarrow> cells ?h b = cells h' b" by simp
  with DeepCopyObject_isolated [OF sample_library_copies sample_fenced t c]
  have "Object_view lib_view ?h cached = Some (T_DatabaseUser t)" by blast
  with c t show ?thesis by auto
qed

section \<open>The instance of a pass\<close>

text \<open>
  C15: what \<open>userExists\<close> writes through the pointers of the instance that the client has copied from its cache changes that instance exactly as the
  model of the reconciler, which knows no pointers, says, and leaves the object in the cache as it is; also when the
  cached object's specification and status share their \<open>Identification\<close>.
\<close>

theorem userExists_spares_cache:
  assumes "library_copies lv lr L" and "fenced h" and "Object_view lv h (RO_DatabaseUser p) = Some (T_DatabaseUser t)"
    and "UserExists E db (usts_Username (res_Status t)) w = Ret (Some row) w'"
  shows "\<exists>q h1 h2 t'. DeepCopyObject L (RO_DatabaseUser p) h = Ret (Some (RO_DatabaseUser q)) h1 \<and>
    record_plugin q (mysql_Plugin row) h1 = Ret () h2 \<and>
    Object_view lv h2 (RO_DatabaseUser p) = Some (T_DatabaseUser t) \<and>
    Object_view lv h2 (RO_DatabaseUser q) = Some (T_DatabaseUser t') \<and>
    userExists E db (user_value R t) w = Ret (user_value R t', True, None) w'"
proof -
  from copy_of_object [OF assms(1-3)] obtain ob' h1 where c: "DeepCopyObject L (RO_DatabaseUser p) h = Ret (Some ob') h1"
    "fenced h1" "Object_view lv h1 ob' = Some (T_DatabaseUser t)" .
  from copied_user_owned [OF assms(1-3) c(1)] obtain b u
    where ob': "ob' = RO_DatabaseUser (Some (b, 0))" and o: "owned_user lr h1 b u" .
  then have v: "DatabaseUser_view lv h1 u = Some t"
    using c(3) by (simp add: behind_Some_iff pointer_view_def peek_def owned_user_def)
  from record_plugin_run [OF assms(1) c(2) o v] obtain h2 where w: "record_plugin (Some (b, 0)) (mysql_Plugin row) h1 = Ret () h2"
    "Object_view lv h2 (RO_DatabaseUser (Some (b, 0))) = Some (T_DatabaseUser (plugin_recorded (mysql_Plugin row) t))"
    "\<forall>x<limit h1. x \<notin> insert b (DatabaseUser_reach lr h1 u) \<longrightarrow> cells h2 x = cells h1 x" by blast
  have reach: "Object_reach lr h1 (RO_DatabaseUser (Some (b, 0))) = insert b (DatabaseUser_reach lr h1 u)"
    using o by (simp add: pointer_reach_def peek_def owned_user_def)
  have c': "go_bind (DeepCopyObject L (RO_DatabaseUser p)) deref h = Ret (RO_DatabaseUser (Some (b, 0))) h1"
    using c(1) by (simp add: go_bind_def ob')
  have "Object_view lv h2 (RO_DatabaseUser p) = Some (T_DatabaseUser t)"
    by (rule deep_copying.isolated(1) [OF Object_copying [OF assms(1)], OF assms(2,3) c']) (use w(3) reach in blast)
  with c(1) w(1,2) show ?thesis by (auto simp: ob' userExists_value assms(4))
qed

lemma userExists_spares_cache_witness:
  "\<exists>q h1 h2. DeepCopyObject sample_library cached sample_memory = Ret (Some (RO_DatabaseUser q)) h1 \<and>
    record_plugin q ''sha256_password'' h1 = Ret () h2 \<and>
    Object_view lib_view h2 cached = Object_view lib_view sample_memory cached"
proof -
  obtain t where t: "Object_view lib_view sample_memory cached = Some (T_DatabaseUser t)"
    "usts_Username (res_Status t) = ''alice''" by (rule sample_viewed)
  let ?row = "\<lparr>mysql_Host = ''%'', mysql_User = ''alice'', mysql_Plugin = ''sha256_password''\<rparr>"
  let ?w = "world_of (empty_cluster\<lparr>c_accounts := [?row]\<rparr>)"
  have "UserExists sample_env 0 ''alice'' ?w = Ret (Some ?row) ?w"
    by (simp add: UserExists_def go_bind_def ask_def sample_env_def account_named_def world_of_def empty_cluster_def)
  with t(2) have "UserExists sample_env 0 (usts_Username (res_Status t)) ?w = Ret (Some ?row) ?w" by simp
  from userExists_spares_cache [OF sample_library_copies sample_fenced t(1) this] t(1) show ?thesis by auto metis
qed

text \<open>
  Were the write of \<open>userExists\<close> to come after \<open>userDetailString\<close> has made the two pointers equal, it would change the
  specification.
\<close>

lemma shared_identification_write:
  "\<exists>h2 i. go_bind (share_identification (Some (4, 0)) ''2'') (\<lambda>_. record_plugin (Some (4, 0)) ''other'') sample_memory = Ret () h2 \<and>
    peek Identification_kind h2 (2, 0) = Some i \<and> idn_AuthPlugin i = ''other'' \<and>
    usp_Identification (res_Spec cached_user) = Some (2, 0)"
  by (simp add: share_identification_def record_plugin_def go_bind_def read_at_def write_at_def block_def put_block_def
      sample_memory_def DatabaseUser_kind_def Identification_kind_def cached_user_def peek_def)

end
