(* ===== verification/Registration.thy ===== *)
theory Registration
  imports Deep_Copy_Correct
begin

text \<open>
  \<open>groupversion_info.go\<close> and the \<open>init\<close> functions of the three files that declare the resources: each registers an
  empty object of its type and one of its list with the scheme builder. The builder is
  controller-runtime's; what \<open>Register\<close> does to it is the parameter \<open>register\<close>.
\<close>

record group_version =
  gv_Group :: string
  gv_Version :: string

definition GroupVersion :: group_version where
  "GroupVersion = \<lparr>gv_Group = ''mysql.apps.cuppett.dev'', gv_Version = ''v1alpha1''\<rparr>"

definition init_adminconnection ::
  "('v, 'l) library \<Rightarrow> ('b \<Rightarrow> runtime_Object list \<Rightarrow> 'b) \<Rightarrow> 'b \<Rightarrow> (('v, 'l) memory, 'b) go" where
  "init_adminconnection L register builder =
     go_bind (new_block AdminConnection_kind (zero_AdminConnection L)) (\<lambda>a.
     go_bind (new_block AdminConnectionList_kind (zero_list L)) (\<lambda>l.
     ret (register builder [RO_AdminConnection (Some a), RO_AdminConnectionList (Some l)])))"

definition init_database ::
  "('v, 'l) library \<Rightarrow> ('b \<Rightarrow> runtime_Object list \<Rightarrow> 'b) \<Rightarrow> 'b \<Rightarrow> (('v, 'l) memory, 'b) go" where
  "init_database L register builder =
     go_bind (new_block Database_kind (zero_Database L)) (\<lambda>a.
     go_bind (new_block DatabaseList_kind (zero_list L)) (\<lambda>l.
     ret (register builder [RO_Database (Some a), RO_DatabaseList (Some l)])))"

definition init_databaseuser ::
  "('v, 'l) library \<Rightarrow> ('b \<Rightarrow> runtime_Object list \<Rightarrow> 'b) \<Rightarrow> 'b \<Rightarrow> (('v, 'l) memory, 'b) go" where
  "init_databaseuser L register builder =
     go_bind (new_block DatabaseUser_kind (zero_DatabaseUser L)) (\<lambda>a.
     go_bind (new_block DatabaseUserList_kind (zero_list L)) (\<lambda>l.
     ret (register builder [RO_DatabaseUser (Some a), RO_DatabaseUserList (Some l)])))"

text \<open>Go runs the \<open>init\<close> functions of a package file by file, in the order of the file names.\<close>

definition SchemeBuilder ::
  "('v, 'l) library \<Rightarrow> (group_version \<Rightarrow> 'b) \<Rightarrow> ('b \<Rightarrow> runtime_Object list \<Rightarrow> 'b) \<Rightarrow> (('v, 'l) memory, 'b) go" where
  "SchemeBuilder L builder register =
     go_bind (init_adminconnection L register (builder GroupVersion)) (\<lambda>b.
     go_bind (init_database L register b) (\<lambda>b. init_databaseuser L register b))"

text \<open>
  When \<open>Register\<close> appends, what is registered is one object of each type that has a \<open>DeepCopyObject\<close>, all of them with
  memory of their own.
\<close>

lemma SchemeBuilder_registers:
  "\<exists>h'. SchemeBuilder L (\<lambda>gv. []) (@) h = Ret
     [RO_AdminConnection (Some (limit h, 0)), RO_AdminConnectionList (Some (limit h + 1, 0)),
      RO_Database (Some (limit h + 2, 0)), RO_DatabaseList (Some (limit h + 3, 0)),
      RO_DatabaseUser (Some (limit h + 4, 0)), RO_DatabaseUserList (Some (limit h + 5, 0))] h'"
  by (simp add: SchemeBuilder_def init_adminconnection_def init_database_def init_databaseuser_def go_bind_def
      new_block_def put_block_def)

end
