(* ===== verification/Races.thy ===== *)
theory Races
  imports Foreign_Schemata Database_Correct Sample_Server
begin

text \<open>
  Between the look at the server and the statement: what can go wrong when somebody acts in between (\<open>Interference\<close>).
\<close>

text \<open>
  C35: the ownership check also says yes when the schema does not exist, and the \<open>DROP DATABASE IF EXISTS\<close> that follows is sent all the
  same. When somebody makes a schema of that name in between, which no managed row names, it is a foreign schema at the moment at
  which the statement is sent, and it is the first thing that the pass does: a server that carries out the statement drops it.
\<close>

theorem deletion_drops_new_schema:
  assumes "schemata_server E schemas rows" and "database_has_finalizer E inst"
    and "n = ds_Name (db_Spec inst)" and "schemas (turn (ext w)) n = None"
    and "foreign schemas rows n r (turn (turn (ext w)))"
    and "\<And>s. schemas (snd (gorm_exec E h (drop_database_stmt n) s)) n = None"
  shows "\<exists>es. effects (final_world (database_deletion (interrupted turn E) (Some a) (Some h) inst w)) =
      effects w @ Exec h (drop_database_stmt n) # es \<and>
    schemas (after E (Exec h (drop_database_stmt n)) (turn (turn (ext w)))) n = None"
proof -
  let ?E = "interrupted turn E"
  have "DatabaseMine ?E h inst w = Ret True (w\<lparr>ext := turn (ext w)\<rparr>)"
    using server_tables [OF assms(1), of h] assms(3,4)
    by (simp add: DatabaseMine_def DatabaseExists_def go_bind_assoc bind_ask interrupted_def seen_through_def
        schema_tables_ok_def zero_DatabaseSchema_def)
  moreover have "database_has_finalizer ?E inst"
    using assms(2) by (simp add: database_has_finalizer_def interrupted_def seen_through_def)
  from database_end.flow_cases [OF this, of a h w] calculation
  have "\<exists>es. effects (final_world (database_deletion ?E (Some a) (Some h) inst w)) =
      effects w @ Exec h (drop_database_stmt n) # es"
    by (auto simp: database_drops_def assms(3))
  with assms(6) show ?thesis by simp
qed

text \<open>The schema \<open>shop\<close> is gone when the pass looks; its next owner makes it before the statement.\<close>

definition gone_cluster :: cluster where
  "gone_cluster = mine_cluster\<lparr>c_schemas := [], c_managed_databases := []\<rparr>"

definition newcomer :: "cluster \<Rightarrow> cluster" where
  "newcomer s =
     (if account_named s ''bob'' = None then snd (create_account ''bob'' s) else snd (create_schema ''shop'' s))"

lemma deletion_drops_new_schema_witness:
  "schema_named (newcomer (newcomer gone_cluster)) ''shop'' \<noteq> None \<and>
   (\<exists>es. effects (final_world (database_deletion (interrupted newcomer sample_env) (Some sample_admin) (Some 1) dying_database
      (world_of gone_cluster))) = Exec 1 (drop_database_stmt ''shop'') # es)"
proof -
  have "schema_named (snd (gorm_exec sample_env 1 (drop_database_stmt ''shop'') s)) ''shop'' = None" for s
    using exec_drop [of "''shop''" 1 s] by (simp add: sample_env_simps ok_def drop_schema_result plain_name_def)
  moreover have "schema_named (newcomer gone_cluster) ''shop'' = None"
    by (simp add: newcomer_def gone_cluster_def account_named_def mine_cluster_def sample_cluster_def empty_cluster_def
        create_account_def ok_def schema_named_def)
  moreover have f: "foreign schema_named database_row ''shop'' \<lparr>sch_SchemaName = ''shop'', sch_DefaultCharacterSet = ''utf8mb4'',
      sch_DefaultCollation = ''utf8mb4_general_ci''\<rparr> (newcomer (newcomer gone_cluster))"
    by (simp add: newcomer_def gone_cluster_def account_named_def mine_cluster_def sample_cluster_def empty_cluster_def
        create_account_def create_schema_def ok_def schema_named_def foreign_def database_row_def)
  moreover have "''shop'' = ds_Name (db_Spec dying_database)" by (simp add: dying_database_def sample_database_def)
  ultimately have "\<exists>es. effects (final_world (database_deletion (interrupted newcomer sample_env) (Some sample_admin) (Some 1)
      dying_database (world_of gone_cluster))) = effects (world_of gone_cluster) @ Exec 1 (drop_database_stmt ''shop'') # es"
    using deletion_drops_new_schema [OF sample_server dying_facts(1), of "''shop''" newcomer "world_of gone_cluster" _ 1 sample_admin]
    by (auto simp: world_of_def)
  with f show ?thesis by (auto simp: world_of_def foreign_def)
qed

end
