(* ===== verification/Reaching_Server.thy ===== *)
theory Reaching_Server
  imports Foreign_Schemata
begin

text \<open>
  When a pass gets its connection. \<open>delivers\<close> is total correctness of a computation: it returns, its result is as
  said, and so is the outside state it leaves. With it, an admin connection that is there, permitted and readable, and a
  server that answers, give \<open>resolve_admin\<close> a handle, whatever the connection cache holds.
\<close>

section \<open>Total correctness\<close>

definition delivers :: "('s \<Rightarrow> bool) \<Rightarrow> ('a \<Rightarrow> bool) \<Rightarrow> ('s \<Rightarrow> bool) \<Rightarrow> ('s world, 'a) go \<Rightarrow> bool" where
  "delivers J Q K m \<longleftrightarrow> (\<forall>w. J (ext w) \<longrightarrow> (\<exists>x w'. m w = Ret x w' \<and> Q x \<and> K (ext w')))"

named_theorems delivers_intros
  \<open>composition rules for total correctness\<close>

lemma deliversE:
  assumes "delivers J Q K m" and "J (ext w)"
  obtains x w' where "m w = Ret x w'" and "Q x" and "K (ext w')"
  using assms by (auto simp: delivers_def)

lemma delivers_ret [delivers_intros]: "Q x \<Longrightarrow> delivers J Q J (ret x)"
  by (simp add: delivers_def)

lemma delivers_cache [delivers_intros]:
  "delivers J (\<lambda>_. True) J (cache_lookup u)" "delivers J (\<lambda>_. True) J (cache_delete u)"
  "delivers J (\<lambda>_. True) J (cache_store u c)"
  by (simp_all add: delivers_def cache_lookup_def cache_delete_def cache_store_def)

lemma delivers_bind:
  assumes "delivers J P K m" and "\<And>x. P x \<Longrightarrow> delivers K Q L (f x)"
  shows "delivers J Q L (go_bind m f)"
  unfolding delivers_def
proof (intro allI impI)
  fix w :: "'a world"
  assume "J (ext w)"
  with assms(1) obtain x w' where "m w = Ret x w'" "P x" "K (ext w')" by (rule deliversE)
  with assms(2) show "\<exists>y w''. go_bind m f w = Ret y w'' \<and> Q y \<and> L (ext w'')"
    by (simp add: go_bind_Ret delivers_def)
qed

lemma delivers_ask:
  "(\<And>s. J s \<Longrightarrow> Q (fst (f s)) \<and> K (snd (f s))) \<Longrightarrow> delivers J Q K (ask f)"
  by (simp add: delivers_def ask_def split_beta)

lemma delivers_perform:
  "(\<And>s. J s \<Longrightarrow> Q (fst (f s)) \<and> K (snd (f s))) \<Longrightarrow> delivers J Q K (perform e f)"
  by (simp add: delivers_def perform_def split_beta)

lemma delivers_imp:
  "delivers J P K m \<Longrightarrow> (\<And>s. J' s \<Longrightarrow> J s) \<Longrightarrow> (\<And>x. P x \<Longrightarrow> Q x) \<Longrightarrow> (\<And>s. K s \<Longrightarrow> K' s) \<Longrightarrow> delivers J' Q K' m"
  unfolding delivers_def by meson

text \<open>A computation that never panics and keeps an invariant, about whose result nothing is said.\<close>

lemma delivers_kept: "maintains J m \<Longrightarrow> never_panics m \<Longrightarrow> delivers J (\<lambda>_. True) J m"
  unfolding delivers_def maintains_def by (metis final_world.simps(1) never_panics_Ret)

section \<open>A server that answers\<close>

text \<open>
  While \<open>up\<close> holds, pools can be opened and answer, gorm opens its handle on them, and the tables of the control
  database can be migrated.
\<close>

definition answers :: "'s env \<Rightarrow> ('s \<Rightarrow> bool) \<Rightarrow> bool" where
  "answers E up \<longleftrightarrow>
     (\<forall>s. up s \<longrightarrow>
        (\<forall>d. \<exists>db. fst (sql_open E d s) = Inr db) \<and> (\<forall>db. fst (sql_ping E db s) = None) \<and>
        (\<forall>db. \<exists>h. fst (gorm_open E db s) = Inr h) \<and> (\<forall>h. fst (gorm_automigrate E h s) = None))"

definition readable_secret :: "'s env \<Rightarrow> ('s \<Rightarrow> bool) \<Rightarrow> string \<Rightarrow> SecretKeySource option \<Rightarrow> bool" where
  "readable_secret E up ns src \<longleftrightarrow>
     (\<forall>x s. src = Some x \<longrightarrow> up s \<longrightarrow>
        (\<exists>secret v. fst (k_get_Secret E \<lparr>nn_Namespace = ns, nn_Name = sel_Name (sks_SecretKeyRef x)\<rparr> s) = Inr secret \<and>
           map_of (sec_Data secret) (sel_Key (sks_SecretKeyRef x)) = Some v))"

text \<open>
  The admin connection \<open>adm\<close> is what the reference \<open>ref\<close> of an object in the namespace \<open>ns\<close> leads to, and it can be used.
  Only a change of an \<open>AdminConnection\<close> may end this.
\<close>

definition reaches_server ::
  "'s env \<Rightarrow> ('s \<Rightarrow> bool) \<Rightarrow> string \<Rightarrow> AdminConnectionRef \<Rightarrow> AdminConnection \<Rightarrow> bool" where
  "reaches_server E up ns ref adm \<longleftrightarrow>
     (\<forall>s. up s \<longrightarrow> fst (k_get_AdminConnection E
        \<lparr>nn_Namespace = admin_namespace ns ref, nn_Name = acr_Name ref\<rparr> s) = Inr adm) \<and>
     AllowedNamespace adm ns \<and>
     readable_secret E up (om_Namespace (ac_Meta adm)) (acs_AdminUser (ac_Spec adm)) \<and>
     readable_secret E up (om_Namespace (ac_Meta adm)) (acs_AdminPassword (ac_Spec adm)) \<and>
     answers E up \<and> stable E (\<lambda>e. \<forall>a. e \<noteq> StatusAdminConnection a) up"

lemma stable_step:
  "stable E P up \<Longrightarrow> reading E s s' \<Longrightarrow> up s \<Longrightarrow> up s'"
  "stable E P up \<Longrightarrow> P e \<Longrightarrow> up s \<Longrightarrow> up (after E e s)"
  by (simp_all add: stable_def)

lemma secret_delivers:
  assumes "stable E P up" and "readable_secret E up ns (Some src)"
  shows "delivers up (\<lambda>r. \<exists>v. r = Inr v) up (GetSecretRefValue E ns (sks_SecretKeyRef src))"
proof -
  let ?sel = "sks_SecretKeyRef src"
  have get: "delivers up (\<lambda>r. \<exists>x v. r = Inr x \<and> map_of (sec_Data x) (sel_Key ?sel) = Some v) up (GetSecret E ns ?sel)"
    unfolding GetSecret_def using assms
    by (intro delivers_ask conjI stable_step(1) [OF assms(1) reading.get_Secret]) (auto simp: readable_secret_def)
  show ?thesis
    unfolding GetSecretRefValue_def by (rule delivers_bind [OF get]) (auto intro!: delivers_ret)
qed

lemma reach_facts:
  assumes "reaches_server E up ns ref adm"
  shows "answers E up" and "stable E (\<lambda>e. \<forall>a. e \<noteq> StatusAdminConnection a) up"
    and "src \<in> {acs_AdminUser (ac_Spec adm), acs_AdminPassword (ac_Spec adm)} \<Longrightarrow>
      readable_secret E up (om_Namespace (ac_Meta adm)) src"
    and "AllowedNamespace adm ns"
    and "up s \<Longrightarrow> fst (k_get_AdminConnection E
        \<lparr>nn_Namespace = admin_namespace ns ref, nn_Name = acr_Name ref\<rparr> s) = Inr adm"
  using assms by (auto simp: reaches_server_def)

section \<open>The way to the handle\<close>

lemma lookup_delivers:
  assumes "reaches_server E up ns ref adm"
  shows "delivers up (\<lambda>r. r = (Some adm, None)) up (GetAdminConnection E ns ref)"
  unfolding GetAdminConnection_def
  by (rule delivers_bind [OF delivers_ask [where Q = "\<lambda>r. r = Inr adm" and K = up]])
     (auto simp: reach_facts(4,5) [OF assms] intro!: delivers_ret stable_step(1) [OF reach_facts(2) [OF assms] reading.get_AdminConnection])

lemma config_delivers_secrets:
  assumes st: "stable E P up"
    and user: "readable_secret E up (om_Namespace (ac_Meta adm)) (acs_AdminUser (ac_Spec adm))"
    and password: "readable_secret E up (om_Namespace (ac_Meta adm)) (acs_AdminPassword (ac_Spec adm))"
  shows "delivers up (\<lambda>r. \<exists>cfg. r = Inr cfg) up (getDbConfig E adm)"
proof -
  have field: "delivers up (\<lambda>r. \<exists>v. r = Inr v) up
      (case src of None \<Rightarrow> ret (Inr d) | Some x \<Rightarrow> GetSecretRefValue E (om_Namespace (ac_Meta adm)) (sks_SecretKeyRef x))"
    if "src \<in> {acs_AdminUser (ac_Spec adm), acs_AdminPassword (ac_Spec adm)}" for src d
    using that user password
    by (cases src) (auto intro!: delivers_ret secret_delivers [OF st])
  show ?thesis
    unfolding getDbConfig_def Let_def
    by (rule delivers_bind [OF field], simp, erule exE, simp, rule delivers_bind [OF field], simp)
       (auto intro!: delivers_ret)
qed

lemma config_delivers:
  assumes "reaches_server E up ns ref adm"
  shows "delivers up (\<lambda>r. \<exists>cfg. r = Inr cfg) up (getDbConfig E adm)"
  by (rule config_delivers_secrets [OF reach_facts(2) [OF assms]]) (use assms in \<open>simp_all add: reaches_server_def\<close>)

lemma fresh_delivers:
  assumes ans: "answers E up" and st: "stable E (\<lambda>e. \<forall>a. e \<noteq> StatusAdminConnection a) up"
  shows "delivers up (\<lambda>r. \<exists>h. r = Inr h) up (createFreshConnection E cfg)"
proof -
  have exec: "delivers up (\<lambda>_. True) up (perform (Exec h q) (gorm_exec E h q))" for h q
    using stable_step(2) [OF st, of "Exec h q"] by (intro delivers_perform) simp
  have switch: "delivers up (\<lambda>_. True) up (switchDatabase E h)" for h
    unfolding switchDatabase_def Let_def by (intro delivers_bind [OF exec] delivers_ret) simp
  have migrate: "delivers up (\<lambda>r. r = None) up (perform (AutoMigrate h) (gorm_automigrate E h))" for h
    using ans stable_step(2) [OF st, of "AutoMigrate h"] by (intro delivers_perform) (simp add: answers_def)
  have opened: "delivers up (\<lambda>r. \<exists>h. r = Inr h) up (ask (gorm_open E db))" for db
    using ans stable_step(1) [OF st reading.open_handle] by (intro delivers_ask) (simp add: answers_def)
  have ping: "delivers up (\<lambda>r. r = None) up (ask (sql_ping E db))" for db
    using ans stable_step(1) [OF st reading.ping] by (intro delivers_ask) (simp add: answers_def)
  have pool: "delivers up (\<lambda>r. \<exists>db. r = Inr db) up (perform (OpenConnection d) (sql_open E d))" for d
    using ans stable_step(2) [OF st, of "OpenConnection d"] by (intro delivers_perform) (simp add: answers_def)
  show ?thesis
    unfolding createFreshConnection_def
    by (rule delivers_bind [OF pool], erule exE, simp, rule delivers_bind [OF ping], simp,
        rule delivers_bind [OF opened], erule exE, simp, rule delivers_bind [OF switch],
        rule delivers_bind [OF migrate])
       (auto intro!: delivers_ret)
qed

lemma renewal_delivers:
  assumes st: "stable E (\<lambda>e. \<forall>a. e \<noteq> StatusAdminConnection a) up"
  shows "delivers up (\<lambda>new. c = None \<longrightarrow> new) up (needs_new_connection E c cfg)"
proof (cases c)
  case None
  then show ?thesis by (simp add: needs_new_connection_def delivers_ret)
next
  case (Some x)
  have "maintains up (needs_new_connection E c cfg)"
    by (rule conducts_maintains [OF connection_conducts(4) needs_new_connection_emits])
       (rule stable_weaken [OF st], auto simp: connection_effect_def)
  then have "delivers up (\<lambda>_. True) up (needs_new_connection E c cfg)"
    by (rule delivers_kept) simp
  with Some show ?thesis by simp
qed

lemma connection_delivers:
  assumes reach: "reaches_server E up ns ref adm"
  shows "delivers up (\<lambda>r. \<exists>h. r = Inr h) up (GetDatabaseConnection E adm)"
proof -
  note st = reach_facts(2) [OF reach]
  have stored: "delivers up (\<lambda>r. \<exists>h. r = Inr h) up
      (go_bind (cache_store u d) (\<lambda>_. ret (Inr h)))" for u d and h :: nat
    by (rule delivers_bind [OF delivers_cache(3)]) (auto intro: delivers_ret)
  have new: "delivers up (\<lambda>r. \<exists>h. r = Inr h) up
      (go_bind (cache_delete u) (\<lambda>_. go_bind (createFreshConnection E cfg) (\<lambda>r.
        case r of Inl err \<Rightarrow> ret (Inl err)
        | Inr gormDB \<Rightarrow> go_bind (cache_store u \<lparr>cd_Config = cfg, cd_DB = gormDB\<rparr>) (\<lambda>_. ret (Inr gormDB)))))" for u cfg
    by (rule delivers_bind [OF delivers_cache(2)], rule delivers_bind [OF fresh_delivers [OF reach_facts(1) [OF reach] st]])
       (auto intro!: stored)
  have old: "delivers up (\<lambda>r. \<exists>h. r = Inr h) up (go_bind (deref c) (\<lambda>c. ret (Inr (cd_DB c))))"
    if "c \<noteq> None" for c
    using that by (auto intro!: delivers_ret)
  show ?thesis
    unfolding GetDatabaseConnection_def
    by (rule delivers_bind [OF config_delivers [OF reach]], erule exE, simp,
        rule delivers_bind [OF delivers_cache(1)], rule delivers_bind [OF renewal_delivers [OF st]])
       (auto intro!: new old)
qed

text \<open>The beginning of a pass, as a whole.\<close>

lemma resolve_delivers:
  assumes reach: "reaches_server E up ns ref adm"
  shows "delivers up (\<lambda>r. \<exists>h. r = (Some adm, Some h, None)) up (resolve_admin E ns ref)"
  unfolding resolve_admin_def
  by (rule delivers_bind [OF lookup_delivers [OF reach]], simp,
      rule delivers_bind [OF connection_delivers [OF reach]])
     (auto intro!: delivers_ret)

section \<open>The statements of the object\<close>

text \<open>The statements of a run other than those for the connection and the control database.\<close>

definition own_statements :: "effect list \<Rightarrow> string list" where
  "own_statements es =
     filter (\<lambda>q. q \<notin> {''CREATE DATABASE IF NOT EXISTS '' @ DatabaseName, ''USE '' @ DatabaseName}) (exec_statements es)"

lemma own_statements_append [simp]: "own_statements (xs @ ys) = own_statements xs @ own_statements ys"
  by (simp add: own_statements_def)

lemma own_statements_connection: "list_all connection_effect es \<Longrightarrow> own_statements es = []"
proof (induction es)
  case (Cons e es)
  then show ?case by (cases e) (auto simp: own_statements_def connection_effect_def)
qed (simp add: own_statements_def)

lemma own_statements_simps [simp]:
  "own_statements [] = []" "own_statements [UpdateDatabase x] = []" "own_statements [StatusDatabase x] = []"
  "own_statements [UpdateDatabaseUser y] = []" "own_statements [StatusDatabaseUser y] = []" "own_statements [UpdateSecret z] = []"
  by (simp_all add: own_statements_def)

end
