(* ===== verification/Object_Store.thy ===== *)
theory Object_Store
  imports Database_Spec Reaching_Server
begin

text \<open>
  What a pass over a \<open>Database\<close> takes for granted of the API server: a store of objects by namespace and name, read by
  \<open>Get\<close>, changed only by updates of the object and of its status. The sample cluster is such a store.
\<close>

section \<open>The API server\<close>

definition object_key :: "ObjectMeta \<Rightarrow> NamespacedName" where
  "object_key m = \<lparr>nn_Namespace = om_Namespace m, nn_Name = om_Name m\<rparr>"

type_synonym 's databases = "'s \<Rightarrow> NamespacedName \<Rightarrow> Database option"

text \<open>Only the two writes of \<open>Database\<close> objects change what \<open>Get\<close> finds.\<close>

definition databases_frame :: "'s env \<Rightarrow> 's databases \<Rightarrow> bool" where
  "databases_frame E databases \<longleftrightarrow>
     (\<forall>k s d. databases s k = Some d \<longrightarrow> fst (k_get_Database E k s) = Inr d) \<and>
     (\<forall>s s'. reading E s s' \<longrightarrow> databases s' = databases s) \<and>
     (\<forall>e s. (\<forall>x. e \<noteq> UpdateDatabase x \<and> e \<noteq> StatusDatabase x) \<longrightarrow> databases (after E e s) = databases s)"

text \<open>
  An update of the current version of an object, here one of its finalizers, is taken (the webhook admits it), with a
  new resource version; it does not touch the status, and with the last finalizer an object that is marked for deletion
  goes away. A status update takes the status only.
\<close>

definition takes_update :: "'s env \<Rightarrow> 's databases \<Rightarrow> bool" where
  "takes_update E databases \<longleftrightarrow>
     (\<forall>d fs s r s'. databases s (object_key (db_Meta d)) = Some d \<longrightarrow>
        k_update_Database E (set_db_finalizers (\<lambda>_. fs) d) s = (r, s') \<longrightarrow>
        r = None \<and>
        (if database_deleted d \<and> fs = [] then databases s' (object_key (db_Meta d)) = None
         else \<exists>v. databases s' (object_key (db_Meta d)) =
                Some (d\<lparr>db_Meta := (db_Meta d)\<lparr>om_Finalizers := fs, om_ResourceVersion := v\<rparr>\<rparr>)))"

definition takes_status :: "'s env \<Rightarrow> 's databases \<Rightarrow> bool" where
  "takes_status E databases \<longleftrightarrow>
     (\<forall>d x s r s'. databases s (object_key (db_Meta d)) = Some d \<longrightarrow> same_database d x \<longrightarrow>
        k_status_Database E x s = (r, s') \<longrightarrow>
        r = None \<and> (\<exists>v. databases s' (object_key (db_Meta d)) =
          Some (d\<lparr>db_Meta := (db_Meta d)\<lparr>om_ResourceVersion := v\<rparr>, db_Status := db_Status x\<rparr>)))"

definition database_store :: "'s env \<Rightarrow> 's databases \<Rightarrow> bool" where
  "database_store E databases \<longleftrightarrow>
     databases_frame E databases \<and> takes_update E databases \<and> takes_status E databases"

lemma store_laws:
  assumes "database_store E databases"
  shows "databases s k = Some d \<Longrightarrow> fst (k_get_Database E k s) = Inr d"
    and "reading E s s' \<Longrightarrow> databases s' = databases s"
    and "(\<And>x. e \<noteq> UpdateDatabase x \<and> e \<noteq> StatusDatabase x) \<Longrightarrow> databases (after E e s) = databases s"
    and "takes_update E databases" and "takes_status E databases"
  using assms by (auto simp: database_store_def databases_frame_def)

text \<open>The same object, whatever its finalizers, its version and its status.\<close>

definition same_object :: "Database \<Rightarrow> Database \<Rightarrow> bool" where
  "same_object inst d \<longleftrightarrow>
     om_UID (db_Meta d) = om_UID (db_Meta inst) \<and> object_key (db_Meta d) = object_key (db_Meta inst) \<and>
     db_Spec d = db_Spec inst"

lemma same_object_refl [simp]: "same_object inst inst"
  by (simp add: same_object_def)

lemma same_object_views:
  assumes "same_object inst d"
  shows "managed_database d = managed_database inst" "unmade schemas rows d = unmade schemas rows inst"
    "settled schemas rows d = settled schemas rows inst" "accepts E schemas rows d = accepts E schemas rows inst"
    "db_Spec d = db_Spec inst" "om_UID (db_Meta d) = om_UID (db_Meta inst)"
    "object_key (db_Meta d) = object_key (db_Meta inst)" "om_Namespace (db_Meta d) = om_Namespace (db_Meta inst)"
  using assms
  by (auto simp: same_object_def managed_database_def unmade_def settled_def accepts_def object_key_def fun_eq_iff)

text \<open>What the API server has under the key of the object: its finalizers, and whether it is marked for deletion.\<close>

definition stored :: "'s databases \<Rightarrow> Database \<Rightarrow> string set \<Rightarrow> bool \<Rightarrow> 's \<Rightarrow> bool" where
  "stored databases inst F dying s \<longleftrightarrow>
     (\<exists>d. databases s (object_key (db_Meta inst)) = Some d \<and> same_object inst d \<and>
        set (om_Finalizers (db_Meta d)) = F \<and> database_deleted d = dying)"

section \<open>On the sample cluster\<close>

definition database_object :: "cluster databases" where
  "database_object s k = find (\<lambda>d. keyed k (db_Meta d)) (c_databases s)"

definition sample_up :: "cluster \<Rightarrow> bool" where
  "sample_up s \<longleftrightarrow> c_up s \<and> find (\<lambda>x. keyed \<lparr>nn_Namespace = ''ops'', nn_Name = ''db1''\<rparr> (ac_Meta x)) (c_admins s) = Some sample_admin"

lemma keyed_key: "keyed k m \<longleftrightarrow> object_key m = k" "same_key m n \<longleftrightarrow> object_key m = object_key n"
  by (auto simp: keyed_def same_key_def object_key_def)

lemma find_put:
  "(\<And>y. object_key (mt (f y)) = object_key m) \<Longrightarrow>
     find (\<lambda>d. object_key (mt d) = object_key m) (put mt f m xs) = map_option f (find (\<lambda>d. object_key (mt d) = object_key m) xs)"
  by (induction xs) (auto simp: put_def keyed_key)

lemma find_put_status:
  "(\<And>y. mt (f y) = mt y) \<Longrightarrow>
     find (\<lambda>d. object_key (mt d) = object_key m) (put mt f m xs) = map_option f (find (\<lambda>d. object_key (mt d) = object_key m) xs)"
  by (induction xs) (auto simp: put_def keyed_key)

lemma find_store:
  assumes "\<And>y. mt (f y) = m"
  shows "find (\<lambda>d. object_key (mt d) = object_key m) (store mt f m xs) =
     (if released m then None else map_option f (find (\<lambda>d. object_key (mt d) = object_key m) xs))"
proof -
  have "filter (\<lambda>y. \<not> (same_key m (mt y) \<and> released (mt y))) (put mt f m xs) =
      (if released m then filter (\<lambda>y. object_key (mt y) \<noteq> object_key m) xs
       else put mt f m (filter (\<lambda>y. object_key (mt y) = object_key m \<or> \<not> same_key m (mt y)) xs))"
    by (induction xs) (auto simp: put_def keyed_key assms)
  moreover have "filter (\<lambda>y. object_key (mt y) = object_key m \<or> \<not> same_key m (mt y)) xs = xs"
    by (auto simp: keyed_key intro: filter_True)
  ultimately show ?thesis
    using find_put [of mt f m xs] assms by (auto simp: store_def find_None_iff)
qed

lemma sample_untouched:
  "(\<And>x. e \<noteq> UpdateDatabase x \<and> e \<noteq> StatusDatabase x) \<Longrightarrow> c_databases (after sample_env e s) = c_databases s"
  "(\<And>a. e \<noteq> StatusAdminConnection a) \<Longrightarrow> c_up (after sample_env e s) = c_up s \<and> c_admins (after sample_env e s) = c_admins s"
proof -
  have exec: "c_databases (snd (sample_exec h q s)) = c_databases s \<and> c_up (snd (sample_exec h q s)) = c_up s \<and>
      c_admins (snd (sample_exec h q s)) = c_admins s" for h q
    by (simp add: sample_exec_def ok_def refused_def create_account_def create_schema_def rename_account_def
        split: option.splits prod.splits)
  show "(\<And>x. e \<noteq> UpdateDatabase x \<and> e \<noteq> StatusDatabase x) \<Longrightarrow> c_databases (after sample_env e s) = c_databases s"
    using exec by (cases e) (auto simp: sample_env_def ok_def refused_def)
  show "(\<And>a. e \<noteq> StatusAdminConnection a) \<Longrightarrow> c_up (after sample_env e s) = c_up s \<and> c_admins (after sample_env e s) = c_admins s"
    using exec by (cases e) (auto simp: sample_env_def ok_def refused_def)
qed

lemma sample_store: "database_store sample_env database_object"
proof -
  have "takes_update sample_env database_object"
    unfolding takes_update_def
  proof (intro allI impI)
    fix d fs s r s'
    let ?x = "set_db_finalizers (\<lambda>_. fs) d"
    assume d: "database_object s (object_key (db_Meta d)) = Some d" and u: "k_update_Database sample_env ?x s = (r, s')"
    have key: "object_key (db_Meta ?x) = object_key (db_Meta d)" "released (db_Meta ?x) \<longleftrightarrow> database_deleted d \<and> fs = []"
      by (simp_all add: set_db_finalizers_def object_key_def released_def database_deleted_def)
    have "database_object s' (object_key (db_Meta d)) = (if database_deleted d \<and> fs = [] then None else Some (?x\<lparr>db_Status := db_Status d\<rparr>))"
      using find_store [of db_Meta "\<lambda>y. ?x\<lparr>db_Status := db_Status y\<rparr>" "db_Meta ?x" "c_databases s"] d u key
      by (auto simp: database_object_def keyed_key sample_env_def)
    moreover have "?x\<lparr>db_Status := db_Status d\<rparr> =
        d\<lparr>db_Meta := (db_Meta d)\<lparr>om_Finalizers := fs, om_ResourceVersion := om_ResourceVersion (db_Meta d)\<rparr>\<rparr>"
      by (cases d, cases "db_Meta d") (simp add: set_db_finalizers_def)
    ultimately have res: "database_object s' (object_key (db_Meta d)) = (if database_deleted d \<and> fs = [] then None
        else Some (d\<lparr>db_Meta := (db_Meta d)\<lparr>om_Finalizers := fs, om_ResourceVersion := om_ResourceVersion (db_Meta d)\<rparr>\<rparr>))"
      by simp
    have "r = None" using u by (simp add: sample_env_def)
    then show "r = None \<and> (if database_deleted d \<and> fs = [] then database_object s' (object_key (db_Meta d)) = None
        else \<exists>v. database_object s' (object_key (db_Meta d)) =
          Some (d\<lparr>db_Meta := (db_Meta d)\<lparr>om_Finalizers := fs, om_ResourceVersion := v\<rparr>\<rparr>))"
      unfolding res by (cases "database_deleted d \<and> fs = []") (simp_all only: if_True if_False simp_thms, blast)
  qed
  moreover have "takes_status sample_env database_object"
    unfolding takes_status_def
  proof (intro allI impI)
    fix d x s r s'
    assume d: "database_object s (object_key (db_Meta d)) = Some d" and x: "same_database d x"
      and u: "k_status_Database sample_env x s = (r, s')"
    have s': "r = None" "s' = s\<lparr>c_databases := put db_Meta (\<lambda>y. y\<lparr>db_Status := db_Status x\<rparr>) (db_Meta d) (c_databases s)\<rparr>"
      using u x by (simp_all add: sample_env_def same_database_def)
    have "find (\<lambda>y. object_key (db_Meta y) = object_key (db_Meta d)) (c_databases s) = Some d"
      using d by (simp add: database_object_def keyed_key)
    then have "database_object s' (object_key (db_Meta d)) = Some (d\<lparr>db_Status := db_Status x\<rparr>)"
      using find_put_status [of db_Meta "\<lambda>y. y\<lparr>db_Status := db_Status x\<rparr>" "db_Meta d" "c_databases s"]
      by (simp add: database_object_def keyed_key s'(2))
    moreover have "Some (d\<lparr>db_Status := db_Status x\<rparr>) =
        Some (d\<lparr>db_Meta := (db_Meta d)\<lparr>om_ResourceVersion := om_ResourceVersion (db_Meta d)\<rparr>, db_Status := db_Status x\<rparr>)"
      by (cases d, cases "db_Meta d") simp
    ultimately have res: "database_object s' (object_key (db_Meta d)) =
        Some (d\<lparr>db_Meta := (db_Meta d)\<lparr>om_ResourceVersion := om_ResourceVersion (db_Meta d)\<rparr>, db_Status := db_Status x\<rparr>)"
      by (rule trans)
    with s'(1) show "r = None \<and> (\<exists>v. database_object s' (object_key (db_Meta d)) =
        Some (d\<lparr>db_Meta := (db_Meta d)\<lparr>om_ResourceVersion := v\<rparr>, db_Status := db_Status x\<rparr>))"
      unfolding res by blast
  qed
  moreover have "databases_frame sample_env database_object"
    using sample_untouched(1) sample_reading
    by (fastforce simp: databases_frame_def database_object_def fun_eq_iff found_def)
  ultimately show ?thesis by (simp add: database_store_def)
qed

lemma sample_reaches: "reaches_server sample_env sample_up ''tenant1'' admin_ref sample_admin"
proof -
  have "answers sample_env sample_up"
    by (simp add: answers_def sample_env_def sample_up_def)
  moreover have "stable sample_env (\<lambda>e. \<forall>a. e \<noteq> StatusAdminConnection a) sample_up"
    using sample_untouched(2) sample_reading by (fastforce simp: stable_def sample_up_def)
  ultimately show ?thesis
    by (simp add: reaches_server_def readable_secret_def admin_namespace_def admin_ref_def sample_up_def)
       (simp add: sample_env_def found_def sample_admin_def AllowedNamespace_def meta_def)
qed

end
