(* ===== verification/Database_Lifecycle.thy ===== *)
theory Database_Lifecycle
  imports Object_Store
begin

text \<open>
  Whole passes over one \<open>Database\<close> object, from the request to the last write, against an API server that stores
  the object between the passes: a new object is settled after two passes and stays so, and when it is deleted
  everything that was made for it goes away again.
\<close>

section \<open>The beginning of a pass\<close>

text \<open>All that has to work for an object: the API server, the MySQL server, and the way to it.\<close>

definition operational ::
  "'s env \<Rightarrow> ('s \<Rightarrow> bool) \<Rightarrow> 's databases \<Rightarrow> 's schemata \<Rightarrow> 's database_rows \<Rightarrow> AdminConnection \<Rightarrow> Database \<Rightarrow> bool" where
  "operational E up databases schemas rows adm inst \<longleftrightarrow>
     database_store E databases \<and> schemata_server E schemas rows \<and> accepts E schemas rows inst \<and>
     reaches_server E up (om_Namespace (db_Meta inst)) (ds_AdminConnection (db_Spec inst)) adm \<and>
     finalizers_ok E \<and> plain_spec (db_Spec inst) \<and> ds_Name (db_Spec inst) \<noteq> DatabaseName"

lemma operationalD:
  assumes "operational E up databases schemas rows adm inst"
  shows "database_store E databases" and "schemata_server E schemas rows" and "accepts E schemas rows inst"
    and "reaches_server E up (om_Namespace (db_Meta inst)) (ds_AdminConnection (db_Spec inst)) adm"
    and "finalizers_ok E" and "plain_spec (db_Spec inst)" and "ds_Name (db_Spec inst) \<noteq> DatabaseName"
    and "ds_Name (db_Spec inst) \<noteq> []"
  using assms by (simp_all add: operational_def plain_spec_def plain_name_def)

text \<open>Connecting changes nothing that the passes go by, apart from the control database.\<close>

definition alike ::
  "'s databases \<Rightarrow> 's schemata \<Rightarrow> 's database_rows \<Rightarrow> 's \<Rightarrow> 's \<Rightarrow> bool" where
  "alike databases schemas rows s0 s \<longleftrightarrow>
     databases s = databases s0 \<and> rows s = rows s0 \<and> (\<forall>n. n \<noteq> DatabaseName \<longrightarrow> schemas s n = schemas s0 n)"

lemma connecting_alike:
  assumes store: "database_store E databases" and srv: "schemata_server E schemas rows"
  shows "stable E connection_effect (alike databases schemas rows s0)"
proof -
  have "alike databases schemas rows s0 (after E e s)"
    if "connection_effect e" "alike databases schemas rows s0 s" for e s
  proof (cases "\<exists>h. e = Exec h (''CREATE DATABASE IF NOT EXISTS '' @ DatabaseName)")
    case True
    then obtain h where e: "e = Exec h (''CREATE DATABASE IF NOT EXISTS '' @ DatabaseName)" ..
    have "databases (after E e s) = databases s"
      by (rule store_laws(3) [OF store]) (simp add: e)
    with server_control [OF srv refl, of h s] that(2) e show ?thesis by (simp add: alike_def)
  next
    case False
    with that(1) have "\<not> changes_schemata e"
      by (cases e) (auto simp: connection_effect_def changes_schemata_def DatabaseName_def)
    moreover have "databases (after E e s) = databases s"
      by (rule store_laws(3) [OF store]) (use that(1) in \<open>auto simp: connection_effect_def\<close>)
    ultimately show ?thesis
      using server_frame [OF srv, of e s] that(2) by (simp add: alike_def)
  qed
  then show ?thesis
    unfolding stable_def using store_laws(2) [OF store] server_reading [OF srv] by (simp add: alike_def)
qed

definition database_request :: "Database \<Rightarrow> NamespacedName" where
  "database_request inst = object_key (db_Meta inst)"

lemma pass_begins:
  assumes op: "operational E up databases schemas rows adm inst" and up: "up (ext w)"
    and d: "databases (ext w) (object_key (db_Meta inst)) = Some d" and same: "same_object inst d"
  obtains h w1 es
  where "database_Reconcile E (database_request inst) w = database_pass E d (Some adm) (Some h) None w1"
    and "effects w1 = effects w @ es" and "list_all connection_effect es" and "up (ext w1)"
    and "alike databases schemas rows (ext w) (ext w1)"
proof -
  note store = operationalD(1) [OF op] and reach = operationalD(4) [OF op]
  let ?resolve = "resolve_admin E (om_Namespace (db_Meta inst)) (ds_AdminConnection (db_Spec inst))"
  let ?get = "k_get_Database E (database_request inst) (ext w)"
  let ?w = "w\<lparr>ext := snd ?get\<rparr>"
  have get: "fst ?get = Inr d"
    using store_laws(1) [OF store d] by (simp add: database_request_def)
  have start: "alike databases schemas rows (ext w) (ext ?w)"
    using store_laws(2) [OF store reading.get_Database] server_reading [OF operationalD(2) [OF op] reading.get_Database]
    by (simp add: alike_def)
  have "up (ext ?w)"
    using stable_step(1) [OF reach_facts(2) [OF reach] reading.get_Database up] by simp
  then obtain r w1 where "?resolve ?w = Ret r w1" and "\<exists>h. r = (Some adm, Some h, None)" and up1: "up (ext w1)"
    by (rule deliversE [OF resolve_delivers [OF reach]])
  then obtain h where run: "?resolve ?w = Ret (Some adm, Some h, None) w1" by auto
  have alike: "alike databases schemas rows (ext w) (ext w1)"
    using maintainsD [OF resolve_admin_maintains [OF connecting_alike [OF store operationalD(2) [OF op]]] start] run
    by (metis final_world.simps(1))
  obtain es where es: "effects w1 = effects w @ es" "list_all connection_effect es"
    using emitsD [OF resolve_admin_emits, of E "om_Namespace (db_Meta inst)" "ds_AdminConnection (db_Spec inst)" ?w] run
    by auto
  have "database_Reconcile E (database_request inst) w = database_pass E d (Some adm) (Some h) None w1"
    using get run same by (simp add: database_Reconcile_def bind_ask same_object_views go_bind_Ret)
  from that [OF this es up1 alike] show thesis .
qed

section \<open>The passes\<close>

text \<open>One turn of the object, as the state it leaves.\<close>

definition database_turn :: "'s env \<Rightarrow> Database \<Rightarrow> 's world \<Rightarrow> 's world" where
  "database_turn E inst w = final_world (database_Reconcile E (database_request inst) w)"

text \<open>An object of the store is ready, or not, by its finalizers.\<close>

lemma stored_finalizer:
  "finalizers_ok E \<Longrightarrow> database_has_finalizer E d \<longleftrightarrow> dbFinalizer \<in> set (om_Finalizers (db_Meta d))"
  by (simp add: finalizers_ok_def database_has_finalizer_def)

lemma first_turn:
  assumes op: "operational E up databases schemas rows adm inst" and up: "up (ext w)"
    and st: "stored databases inst {} False (ext w)" and un: "unmade schemas rows inst (ext w)"
    and w': "w' = database_turn E inst w"
  shows "up (ext w') \<and> stored databases inst {dbFinalizer} False (ext w') \<and> unmade schemas rows inst (ext w') \<and>
     (\<exists>es. effects w' = effects w @ es \<and> own_statements es = [])"
proof -
  obtain d where d: "databases (ext w) (object_key (db_Meta inst)) = Some d" "same_object inst d"
    "om_Finalizers (db_Meta d) = []" "\<not> database_deleted d"
    using st by (auto simp: stored_def)
  from pass_begins [OF op up d(1,2)] obtain h w1 es where
    run: "database_Reconcile E (database_request inst) w = database_pass E d (Some adm) (Some h) None w1"
    and es: "effects w1 = effects w @ es" "list_all connection_effect es" and up1: "up (ext w1)"
    and alike: "alike databases schemas rows (ext w) (ext w1)" .
  let ?fs = "add_finalizer E [] dbFinalizer"
  let ?x = "set_db_finalizers (\<lambda>_. ?fs) d"
  obtain r s' where upd: "k_update_Database E ?x (ext w1) = (r, s')" by fastforce
  have x: "set_db_finalizers (\<lambda>fs. add_finalizer E fs dbFinalizer) d = ?x"
    using d(3) by (simp add: set_db_finalizers_def)
  have no: "\<not> database_has_finalizer E d"
    using d(3) by (simp add: stored_finalizer [OF operationalD(5) [OF op]])
  have w'_eq: "w' = w1\<lparr>ext := s', effects := effects w1 @ [UpdateDatabase ?x]\<rparr>"
    using w' run upd no d(4)
    by (simp add: database_turn_def database_pass_def database_deleted_def database_add_finalizer_def x Let_def perform_def)
  have "databases (ext w1) (object_key (db_Meta d)) = Some d"
    using alike d(1,2) by (simp add: alike_def same_object_views)
  then obtain v where "databases s' (object_key (db_Meta d)) =
      Some (d\<lparr>db_Meta := (db_Meta d)\<lparr>om_Finalizers := ?fs, om_ResourceVersion := v\<rparr>\<rparr>)"
    using store_laws(4) [OF operationalD(1) [OF op]] upd d(4) unfolding takes_update_def by meson
  moreover have "set ?fs = {dbFinalizer}"
    using operationalD(5) [OF op] by (simp add: finalizers_ok_def)
  ultimately have "stored databases inst {dbFinalizer} False s'"
    using d(2,4) unfolding stored_def by (auto simp: same_object_def object_key_def database_deleted_def)
  moreover have "up s'"
    using stable_step(2) [OF reach_facts(2) [OF operationalD(4) [OF op]], of "UpdateDatabase ?x" "ext w1"] up1 upd by simp
  moreover have "unmade schemas rows inst s'"
    using server_frame [OF operationalD(2) [OF op], of "UpdateDatabase ?x" "ext w1"] upd un alike operationalD(7) [OF op]
    by (simp add: unmade_def alike_def)
  ultimately show ?thesis
    using es own_statements_connection [OF es(2)] by (simp add: w'_eq)
qed

lemma align_spares_objects:
  "emits (\<lambda>e. \<forall>x. e \<noteq> UpdateDatabase x \<and> e \<noteq> StatusDatabase x) (database_align E h i ex)"
  unfolding database_align_def databaseCreate_def databaseUpdate_def Let_def
  by (intro emits_intros) auto

lemma align_conducts: "conducts E (database_align E h i ex)"
  unfolding database_align_def by (intro conducts_intros)

lemma align_keeps_objects:
  assumes "database_store E databases"
  shows "maintains (\<lambda>s. databases s = D) (database_align E h i ex)"
  by (rule conducts_maintains [OF align_conducts align_spares_objects])
     (auto simp: stable_def store_laws(2,3) [OF assms])

lemma own_planned: "filter (\<lambda>q. q \<notin> {''CREATE DATABASE IF NOT EXISTS '' @ DatabaseName, ''USE '' @ DatabaseName})
    (planned schema row inst) = planned schema row inst"
  by (auto simp: planned_def create_database_stmt_def split: decision.splits option.splits)

lemma same_object_plan:
  assumes "same_object inst d"
  shows "planned schema row d = planned schema row inst" "decide schema row d = decide schema row inst"
proof -
  have "database_row_matches m d = database_row_matches m inst" for m
    using assms by (auto simp: same_object_def object_key_def database_row_matches_def)
  then show dec: "decide schema row d = decide schema row inst"
    using assms by (auto simp: same_object_def decide_def split: option.split)
  have spec: "db_Spec d = db_Spec inst" using assms by (simp add: same_object_def)
  show "planned schema row d = planned schema row inst"
    unfolding planned_def dec spec ..
qed

lemma server_clock: "schemata_server E schemas rows \<Longrightarrow> clock_ok E schemas rows"
  by (simp add: clock_ok_def server_reading [OF _ reading.clock])

text \<open>A pass over an object with its finalizer: the working branch, then the status in the store.\<close>

lemma working_turn:
  assumes op: "operational E up databases schemas rows adm inst" and up: "up (ext w)"
    and st: "stored databases inst {dbFinalizer} False (ext w)" and w': "w' = database_turn E inst w"
    and schema: "schema = schemas (ext w) (ds_Name (db_Spec inst))" and row: "row = rows (ext w) (om_UID (db_Meta inst))"
  obtains d h w1 old es
  where "same_object inst d" and "w' = final_world (database_sync E adm h d w1)"
    and "alike databases schemas rows (ext w) (ext w1)"
    and "up (ext w')" and "stored databases inst {dbFinalizer} False (ext w')"
    and "\<And>d. databases (ext w') (object_key (db_Meta inst)) = Some d \<Longrightarrow>
      dst_Message (db_Status d) \<in> reported (decide schema row inst) old"
    and "effects w' = effects w @ es" and "own_statements es = planned schema row inst"
    and "planned schema row inst = [] \<Longrightarrow> \<exists>j. effects w' = effects w1 @ [StatusDatabase j]"
proof -
  note store = operationalD(1) [OF op] and srv = operationalD(2) [OF op]
  obtain d where d: "databases (ext w) (object_key (db_Meta inst)) = Some d" "same_object inst d"
    "set (om_Finalizers (db_Meta d)) = {dbFinalizer}" "\<not> database_deleted d"
    using st by (auto simp: stored_def)
  from pass_begins [OF op up d(1,2)] obtain h w1 es where
    run: "database_Reconcile E (database_request inst) w = database_pass E d (Some adm) (Some h) None w1"
    and es: "effects w1 = effects w @ es" "list_all connection_effect es" and up1: "up (ext w1)"
    and alike: "alike databases schemas rows (ext w) (ext w1)" .
  have fin: "database_has_finalizer E d"
    using d(3) by (simp add: stored_finalizer [OF operationalD(5) [OF op]])
  have sync: "w' = final_world (database_sync E adm h d w1)"
    using w' run fin d(4) by (simp add: database_turn_def database_pass_def database_deleted_def)
  have "maintains up (database_sync E adm h d)"
    by (rule conducts_maintains [OF database_sync_conducts database_sync_emits])
       (use fin d(4) in \<open>auto simp: database_ready_def database_effect_def
          intro!: stable_weaken [OF reach_facts(2) [OF operationalD(4) [OF op]]]\<close>)
  then have up': "up (ext w')"
    using maintainsD up1 sync by blast
  have views: "schema = schemas (ext w1) (ds_Name (db_Spec d))" "row = rows (ext w1) (om_UID (db_Meta d))"
    using schema row alike d(2) operationalD(7) [OF op] by (simp_all add: alike_def same_object_views)
  have name: "ds_Name (db_Spec d) \<noteq> []"
    using operationalD(8) [OF op] d(2) by (simp add: same_object_views)
  from database_sync_run [OF server_tables [OF srv] server_clock [OF srv] name views, of h adm] obtain i j mid w2 where
    al: "database_align E h i (schema \<noteq> None) (w1\<lparr>ext := snd (now E (ext w1))\<rparr>) = Ret j w2"
    and last: "database_sync E adm h d w1 = Ret None (w2\<lparr>ext := snd (k_status_Database E j (ext w2)),
      effects := effects w2 @ [StatusDatabase j]\<rparr>)"
    and mid: "effects w2 = effects w1 @ mid" "exec_statements mid = planned schema row d"
      "planned schema row d = [] \<longrightarrow> mid = []"
    and j: "same_database d j" "dst_Message (db_Status j) \<in> reported (decide schema row d) (dst_Message (db_Status d))"
    by metis
  let ?w = "w1\<lparr>ext := snd (now E (ext w1))\<rparr>"
  have "databases (ext (final_world (database_align E h i (schema \<noteq> None) ?w))) = databases (ext w1)"
    by (rule maintainsD [OF align_keeps_objects [OF store]]) (simp add: store_laws(2) [OF store reading.clock])
  then have "databases (ext w2) = databases (ext w1)"
    by (simp only: al final_world.simps)
  then have now: "databases (ext w2) (object_key (db_Meta d)) = Some d"
    using alike d(1,2) by (simp add: alike_def same_object_views)
  obtain r s' where status: "k_status_Database E j (ext w2) = (r, s')" by fastforce
  then have ext: "ext w' = s'" using sync last by simp
  obtain v where written: "databases (ext w') (object_key (db_Meta d)) =
      Some (d\<lparr>db_Meta := (db_Meta d)\<lparr>om_ResourceVersion := v\<rparr>, db_Status := db_Status j\<rparr>)"
    using store_laws(5) [OF store] now j(1) status unfolding takes_status_def ext by meson
  have stored: "stored databases inst {dbFinalizer} False (ext w')"
    using written d(2-4) by (auto simp: stored_def same_object_def object_key_def database_deleted_def)
  have effs: "effects w' = effects w @ (es @ mid @ [StatusDatabase j])"
    using sync last mid(1) es(1) by simp
  have own: "own_statements (es @ mid @ [StatusDatabase j]) = planned schema row inst"
    using mid(2) own_statements_connection [OF es(2)] own_planned [of schema row d] same_object_plan(1) [OF d(2)]
    by (simp add: own_statements_def)
  show thesis
    by (rule that [OF d(2) sync alike up' stored _ effs own])
       (use written j(2) d(2) mid sync last in \<open>simp_all add: same_object_views same_object_plan\<close>)
qed

lemma second_turn:
  assumes op: "operational E up databases schemas rows adm inst" and up: "up (ext w)"
    and st: "stored databases inst {dbFinalizer} False (ext w)" and un: "unmade schemas rows inst (ext w)"
    and w': "w' = database_turn E inst w"
  shows "up (ext w') \<and> stored databases inst {dbFinalizer} False (ext w') \<and> settled schemas rows inst (ext w') \<and>
     (\<exists>es. effects w' = effects w @ es \<and> own_statements es = [create_database_stmt (db_Spec inst)])"
proof -
  from working_turn [OF op up st w' refl refl] obtain d h w1 es where d: "same_object inst d"
    and sync: "w' = final_world (database_sync E adm h d w1)" and alike: "alike databases schemas rows (ext w) (ext w1)"
    and kept: "up (ext w')" "stored databases inst {dbFinalizer} False (ext w')" "effects w' = effects w @ es"
    and own: "own_statements es = planned (schemas (ext w) (ds_Name (db_Spec inst))) (rows (ext w) (om_UID (db_Meta inst))) inst"
    by metis
  have "unmade schemas rows d (ext w1)"
    using un alike operationalD(7) [OF op] by (simp add: same_object_views(2) [OF d]) (simp add: unmade_def alike_def)
  moreover have "accepts E schemas rows d" "plain_spec (db_Spec d)"
    using operationalD(3,6) [OF op] d by (simp_all add: same_object_views)
  ultimately have "settled schemas rows d (ext w')"
    using database_sync_settles [OF operationalD(2) [OF op] _ _ _ refl] sync by blast
  moreover have "planned (schemas (ext w) (ds_Name (db_Spec inst))) (rows (ext w) (om_UID (db_Meta inst))) inst =
      [create_database_stmt (db_Spec inst)]"
    using un by (simp add: unmade_def planned_def decide_def)
  ultimately show ?thesis
    using kept own by (simp add: same_object_views(3) [OF d])
qed

lemma status_keeps_settled:
  assumes "schemata_server E schemas rows" and "settled schemas rows d (ext w)" and "conducts E m"
    and "effects (final_world (m w)) = effects w @ [StatusDatabase j]"
  shows "settled schemas rows d (ext (final_world (m w)))"
proof -
  have "calls E [StatusDatabase j] (ext w) (ext (final_world (m w)))"
    using assms(3,4) unfolding conducts_def by (metis same_append_eq)
  moreover have "stable E (\<lambda>e. e = StatusDatabase j) (settled schemas rows d)"
    by (rule settled_stable [OF assms(1)]) simp
  ultimately show ?thesis
    using calls_stable assms(2) by fastforce
qed

text \<open>From then on every pass leaves the server alone and says so.\<close>

lemma later_turn:
  assumes op: "operational E up databases schemas rows adm inst" and up: "up (ext w)"
    and st: "stored databases inst {dbFinalizer} False (ext w)" and set: "settled schemas rows inst (ext w)"
    and w': "w' = database_turn E inst w"
  shows "up (ext w') \<and> stored databases inst {dbFinalizer} False (ext w') \<and> settled schemas rows inst (ext w') \<and>
     (\<forall>d. databases (ext w') (object_key (db_Meta inst)) = Some d \<longrightarrow> dst_Message (db_Status d) = ''Database in sync'') \<and>
     (\<exists>es. effects w' = effects w @ es \<and> own_statements es = [])"
proof -
  note dec = settled_decision [OF set]
  have plan: "planned (schemas (ext w) (ds_Name (db_Spec inst))) (rows (ext w) (om_UID (db_Meta inst))) inst = []"
    by (simp add: planned_def dec)
  from working_turn [OF op up st w' refl refl] obtain d h w1 old es where d: "same_object inst d"
    and sync: "w' = final_world (database_sync E adm h d w1)" and alike: "alike databases schemas rows (ext w) (ext w1)"
    and kept: "up (ext w')" "stored databases inst {dbFinalizer} False (ext w')" "effects w' = effects w @ es"
    and told: "\<And>d. databases (ext w') (object_key (db_Meta inst)) = Some d \<Longrightarrow>
      dst_Message (db_Status d) \<in> reported KeepSchema old"
    and own: "own_statements es = []" and quiet: "\<exists>j. effects w' = effects w1 @ [StatusDatabase j]"
    unfolding dec plan by metis
  have set1: "settled schemas rows d (ext w1)"
    using set alike operationalD(7) [OF op] by (simp add: same_object_views(3) [OF d]) (simp add: settled_def alike_def)
  then have "settled schemas rows d (ext w')"
    using status_keeps_settled [OF operationalD(2) [OF op] _ database_sync_conducts] quiet sync by metis
  then show ?thesis
    using kept own told by (simp add: same_object_views(3) [OF d] reported_def)
qed

section \<open>Convergence\<close>

lemma later_turns:
  assumes op: "operational E up databases schemas rows adm inst" and up: "up (ext w)"
    and st: "stored databases inst {dbFinalizer} False (ext w)" and set: "settled schemas rows inst (ext w)"
  shows "up (ext ((database_turn E inst ^^ k) w)) \<and> stored databases inst {dbFinalizer} False (ext ((database_turn E inst ^^ k) w)) \<and>
     settled schemas rows inst (ext ((database_turn E inst ^^ k) w)) \<and>
     (0 < k \<longrightarrow> (\<forall>d. databases (ext ((database_turn E inst ^^ k) w)) (object_key (db_Meta inst)) = Some d \<longrightarrow>
        dst_Message (db_Status d) = ''Database in sync'')) \<and>
     (\<exists>es. effects ((database_turn E inst ^^ k) w) = effects w @ es \<and> own_statements es = [])"
proof (induction k)
  case 0
  show ?case using up st set by (auto intro: exI [of _ "[]"])
next
  case (Suc k)
  then obtain es where es: "effects ((database_turn E inst ^^ k) w) = effects w @ es" "own_statements es = []" by blast
  from Suc later_turn [OF op _ _ _ refl, of "(database_turn E inst ^^ k) w"] obtain es' where
    "effects ((database_turn E inst ^^ Suc k) w) = effects ((database_turn E inst ^^ k) w) @ es'" "own_statements es' = []"
    by auto
  with es have "\<exists>es. effects ((database_turn E inst ^^ Suc k) w) = effects w @ es \<and> own_statements es = []"
    by (intro exI [of _ "es @ es'"]) simp
  with Suc later_turn [OF op _ _ _ refl, of "(database_turn E inst ^^ k) w"] show ?case by simp
qed

text \<open>The state of a new object: stored without a finalizer, with nothing made for it yet.\<close>

definition fresh_object ::
  "('s \<Rightarrow> bool) \<Rightarrow> 's databases \<Rightarrow> 's schemata \<Rightarrow> 's database_rows \<Rightarrow> Database \<Rightarrow> 's \<Rightarrow> bool" where
  "fresh_object up databases schemas rows inst s \<longleftrightarrow>
     up s \<and> stored databases inst {} False s \<and> unmade schemas rows inst s"

lemma turns_settle:
  assumes op: "operational E up databases schemas rows adm inst" and new: "fresh_object up databases schemas rows inst (ext w)"
    and k: "2 \<le> k" and w': "w' = (database_turn E inst ^^ k) w"
  shows "up (ext w') \<and> stored databases inst {dbFinalizer} False (ext w') \<and> settled schemas rows inst (ext w') \<and>
     (3 \<le> k \<longrightarrow> (\<forall>d. databases (ext w') (object_key (db_Meta inst)) = Some d \<longrightarrow>
        dst_Message (db_Status d) = ''Database in sync'')) \<and>
     (\<exists>es. effects w' = effects w @ es \<and> own_statements es = [create_database_stmt (db_Spec inst)])"
proof -
  obtain j where j: "k = j + 2" using k by (metis add.commute le_Suc_ex)
  let ?w1 = "database_turn E inst w" and ?w2 = "database_turn E inst (database_turn E inst w)"
  have w'2: "w' = (database_turn E inst ^^ j) ?w2"
    by (simp add: w' j funpow_swap1)
  from first_turn [OF op _ _ _ refl, of w] new obtain es1 where
    one: "up (ext ?w1)" "stored databases inst {dbFinalizer} False (ext ?w1)" "unmade schemas rows inst (ext ?w1)"
    and es1: "effects ?w1 = effects w @ es1" "own_statements es1 = []"
    unfolding fresh_object_def by blast
  from second_turn [OF op one refl] obtain es2 where
    two: "up (ext ?w2)" "stored databases inst {dbFinalizer} False (ext ?w2)" "settled schemas rows inst (ext ?w2)"
    and es2: "effects ?w2 = effects ?w1 @ es2" "own_statements es2 = [create_database_stmt (db_Spec inst)]"
    by blast
  from later_turns [OF op two, of j] obtain es3 where
    es3: "effects w' = effects ?w2 @ es3" "own_statements es3 = []"
    unfolding w'2 by blast
  have "\<exists>es. effects w' = effects w @ es \<and> own_statements es = [create_database_stmt (db_Spec inst)]"
    using es1 es2 es3 by (intro exI [of _ "es1 @ es2 @ es3"]) simp
  with later_turns [OF op two, of j] show ?thesis
    unfolding w'2 using j by auto
qed

text \<open>
  C11: convergence of whole passes. For a new object, when all that it depends on works, any number of at least two
  passes, each from its request to its last write, leaves the object settled: the schema exists with the character set and the
  collation asked for, the managed row is the object's, and the object has its finalizer. Over all the passes the only
  statement of the operator beside those for connecting is one \<open>CREATE DATABASE\<close>, and from the third pass on the status
  says that the database is in sync.
\<close>

theorem database_converges:
  assumes "operational E up databases schemas rows adm inst" and "fresh_object up databases schemas rows inst (ext w)"
    and "2 \<le> k" and "w' = (database_turn E inst ^^ k) w"
  shows "settled schemas rows inst (ext w') \<and>
     (\<exists>es. effects w' = effects w @ es \<and> own_statements es = [create_database_stmt (db_Spec inst)]) \<and>
     (\<exists>d. databases (ext w') (object_key (db_Meta inst)) = Some d \<and> same_object inst d \<and> database_has_finalizer E d \<and>
        (3 \<le> k \<longrightarrow> dst_Message (db_Status d) = ''Database in sync''))"
  using turns_settle [OF assms] operationalD(5) [OF assms(1)]
  by (auto simp: stored_def stored_finalizer)

section \<open>The end\<close>

text \<open>All that belongs neither to the object nor to the operator's own control database.\<close>

definition elsewhere_same :: "'s schemata \<Rightarrow> 's database_rows \<Rightarrow> Database \<Rightarrow> 's \<Rightarrow> 's \<Rightarrow> bool" where
  "elsewhere_same schemas rows inst s0 s \<longleftrightarrow>
     (\<forall>n. n \<noteq> ds_Name (db_Spec inst) \<longrightarrow> n \<noteq> DatabaseName \<longrightarrow> schemas s n = schemas s0 n) \<and>
     (\<forall>u. u \<noteq> om_UID (db_Meta inst) \<longrightarrow> rows s u = rows s0 u)"

lemma elsewhere_stable:
  assumes srv: "schemata_server E schemas rows" and plain: "plain_spec (db_Spec inst)" and same: "same_object inst d"
  shows "stable E (database_effect E d) (elsewhere_same schemas rows inst s0)"
proof -
  have d: "db_Spec d = db_Spec inst" "om_UID (db_Meta d) = om_UID (db_Meta inst)"
    using same by (simp_all add: same_object_def)
  have name: "plain_name (ds_Name (db_Spec inst))"
    using plain by (simp add: plain_spec_def)
  have "elsewhere_same schemas rows inst s0 (after E e s)"
    if e: "database_effect E d e" and I: "elsewhere_same schemas rows inst s0 s" and c: "changes_schemata e" for e s
  proof (cases e)
    case (Exec h q)
    then consider "q = create_database_stmt (db_Spec inst)"
      | i where "db_Spec i = db_Spec inst" "q = alter_database_stmt i"
      | "q = drop_database_stmt (ds_Name (db_Spec inst))"
      using e by (auto simp: database_effect_def same_database_def d)
    then show ?thesis
    proof cases
      case 1
      then show ?thesis
        using server_create [OF srv plain prod.collapse [symmetric], of h s] I Exec by (auto simp: elsewhere_same_def)
    next
      case 2
      then show ?thesis
        using server_alter [OF srv _ refl, of i h s] plain I Exec by (auto simp: elsewhere_same_def)
    next
      case 3
      then show ?thesis
        using server_drop [OF srv name refl, of h s] I Exec by (auto simp: elsewhere_same_def)
    qed
  next
    case (CreateManagedDatabase h row)
    then have "md_Uuid row = om_UID (db_Meta inst)"
      using e by (simp add: database_effect_def managed_database_def d)
    then show ?thesis
      using server_rows(1) [OF srv refl, of h row s] I CreateManagedDatabase by (auto simp: elsewhere_same_def)
  next
    case (DeleteManagedDatabase h u)
    then show ?thesis
      using server_rows(2) [OF srv refl, of h u s] I e by (auto simp: elsewhere_same_def database_effect_def d)
  qed (use c in \<open>simp_all add: changes_schemata_def\<close>)
  moreover have "elsewhere_same schemas rows inst s0 (after E e s)"
    if "\<not> changes_schemata e" "elsewhere_same schemas rows inst s0 s" for e s
    using server_frame [OF srv that(1)] that(2) by (simp add: elsewhere_same_def)
  moreover have "elsewhere_same schemas rows inst s0 s'"
    if "reading E s s'" "elsewhere_same schemas rows inst s0 s" for s s'
    using server_reading [OF srv that(1)] that(2) by (simp add: elsewhere_same_def)
  ultimately show ?thesis
    unfolding stable_def by blast
qed

lemma turn_elsewhere:
  assumes op: "operational E up databases schemas rows adm inst" and up: "up (ext w)"
    and st: "stored databases inst F dying (ext w)"
    and same: "elsewhere_same schemas rows inst s0 (ext w)"
  shows "elsewhere_same schemas rows inst s0 (ext (database_turn E inst w))"
proof -
  obtain d where d: "databases (ext w) (object_key (db_Meta inst)) = Some d" "same_object inst d"
    using st by (auto simp: stored_def)
  from pass_begins [OF op up d] obtain h w1 es where
    run: "database_Reconcile E (database_request inst) w = database_pass E d (Some adm) (Some h) None w1"
    and alike: "alike databases schemas rows (ext w) (ext w1)" .
  have "elsewhere_same schemas rows inst s0 (ext w1)"
    using same alike by (simp add: elsewhere_same_def alike_def)
  then show ?thesis
    using maintainsD [OF database_pass_maintains [OF elsewhere_stable [OF operationalD(2,6) [OF op] d(2)]]] run
    by (simp add: database_turn_def)
qed

text \<open>\<open>DROP DATABASE\<close> and the removal of the row are carried out.\<close>

definition honours_drop :: "'s env \<Rightarrow> 's schemata \<Rightarrow> 's database_rows \<Rightarrow> Database \<Rightarrow> bool" where
  "honours_drop E schemas rows inst \<longleftrightarrow>
     (\<forall>h s. schemas (snd (gorm_exec E h (drop_database_stmt (ds_Name (db_Spec inst))) s)) (ds_Name (db_Spec inst)) = None) \<and>
     (\<forall>h s. rows (snd (gorm_delete_ManagedDatabase E h (om_UID (db_Meta inst)) s)) (om_UID (db_Meta inst)) = None)"

lemma last_turn:
  assumes op: "operational E up databases schemas rows adm inst" and drop: "honours_drop E schemas rows inst"
    and up: "up (ext w)" and st: "stored databases inst {dbFinalizer} True (ext w)"
    and set: "settled schemas rows inst (ext w)" and w': "w' = database_turn E inst w"
  shows "databases (ext w') (object_key (db_Meta inst)) = None \<and> unmade schemas rows inst (ext w')"
proof -
  note store = operationalD(1) [OF op] and srv = operationalD(2) [OF op] and fin = operationalD(5) [OF op]
  obtain d where d: "databases (ext w) (object_key (db_Meta inst)) = Some d" "same_object inst d"
    "set (om_Finalizers (db_Meta d)) = {dbFinalizer}" "database_deleted d"
    using st by (auto simp: stored_def)
  from pass_begins [OF op up d(1,2)] obtain h w1 es where
    run: "database_Reconcile E (database_request inst) w = database_pass E d (Some adm) (Some h) None w1"
    and alike: "alike databases schemas rows (ext w) (ext w1)" .
  let ?n = "ds_Name (db_Spec inst)" and ?u = "om_UID (db_Meta inst)"
  let ?s1 = "snd (gorm_exec E h (drop_database_stmt ?n) (ext w1))"
  let ?s2 = "snd (gorm_delete_ManagedDatabase E h ?u ?s1)"
  let ?s3 = "snd (k_update_Database E (set_db_finalizers (\<lambda>_. []) d) ?s2)"
  have none: "remove_finalizer E (om_Finalizers (db_Meta d)) dbFinalizer = []"
    using fin d(3) unfolding finalizers_ok_def by (metis Diff_cancel set_empty)
  then have x: "database_release E d = set_db_finalizers (\<lambda>_. []) d"
    by (simp add: database_release_def set_db_finalizers_def)
  have "rows (ext w1) (om_UID (db_Meta d)) = Some (managed_database d)"
    using set alike d(2) by (simp add: settled_def alike_def same_object_views)
  then have mine: "DatabaseMine E h d w1 = Ret True w1"
    by (simp add: DatabaseMine_run [OF server_tables [OF srv]]) (simp add: database_row_matches_def managed_database_def)
  have "ext w' = ?s3"
    using w' run mine d(4)
    by (simp add: database_turn_def database_pass_def database_deleted_def database_deletion_def go_bind_Ret
        stored_finalizer [OF fin] d(3) finalizeDatabase_def Let_def bind_perform go_bind_assoc update_released_database_def
        x perform_def split_beta same_object_views [OF d(2)])
  moreover have "databases ?s2 = databases (ext w1)"
    using store_laws(3) [OF store, of "Exec h (drop_database_stmt ?n)" "ext w1"]
      store_laws(3) [OF store, of "DeleteManagedDatabase h ?u" ?s1] by simp
  then have "databases ?s2 (object_key (db_Meta d)) = Some d"
    using alike d(1,2) by (simp add: alike_def same_object_views)
  then have "databases ?s3 (object_key (db_Meta d)) = None"
    using store_laws(4) [OF store] d(4) unfolding takes_update_def by (metis prod.collapse)
  moreover have "unmade schemas rows inst ?s3"
    using server_frame [OF srv, of "UpdateDatabase (set_db_finalizers (\<lambda>_. []) d)" ?s2]
      server_rows(2) [OF srv refl, of h ?u ?s1] drop
    by (simp add: unmade_def honours_drop_def)
  ultimately show ?thesis
    using d(2) by (simp add: same_object_views)
qed

text \<open>
  C12: from nothing to nothing. A new object is brought in line by at least two passes; then it is marked for deletion
  and reconciled once more. After that the object is gone, and so are the schema and the row that were made for it; every other
  schema, apart from the control database, and every other row is what it was at the start.
\<close>

theorem database_leaves_no_trace:
  assumes "operational E up databases schemas rows adm inst" and "honours_drop E schemas rows inst"
    and "fresh_object up databases schemas rows inst (ext w)" and "2 \<le> k" and "w1 = (database_turn E inst ^^ k) w"
    and "schemas s = schemas (ext w1)" and "rows s = rows (ext w1)" and "up s"
    and "stored databases inst {dbFinalizer} True s"
    and "w2 = database_turn E inst (w1\<lparr>ext := s\<rparr>)"
  shows "databases (ext w2) (object_key (db_Meta inst)) = None \<and> unmade schemas rows inst (ext w2) \<and>
     elsewhere_same schemas rows inst (ext w) (ext w2)"
proof -
  note op = assms(1)
  have "elsewhere_same schemas rows inst (ext w) (ext ((database_turn E inst ^^ j) w)) \<and>
      up (ext ((database_turn E inst ^^ j) w)) \<and> (\<exists>F. stored databases inst F False (ext ((database_turn E inst ^^ j) w)))" for j
  proof (induction j)
    case 0
    show ?case using assms(3) by (auto simp: elsewhere_same_def fresh_object_def)
  next
    case (Suc j)
    then have "elsewhere_same schemas rows inst (ext w) (ext ((database_turn E inst ^^ Suc j) w))"
      using turn_elsewhere [OF op] by auto
    moreover consider "j = 0" | "2 \<le> Suc j" by linarith
    then have "up (ext ((database_turn E inst ^^ Suc j) w)) \<and> (\<exists>F. stored databases inst F False (ext ((database_turn E inst ^^ Suc j) w)))"
    proof cases
      case 1
      then show ?thesis using first_turn [OF op _ _ _ refl, of w] assms(3) by (auto simp: fresh_object_def)
    next
      case 2
      then show ?thesis using turns_settle [OF op assms(3) _ refl] by blast
    qed
    ultimately show ?case by blast
  qed
  then have "elsewhere_same schemas rows inst (ext w) (ext (w1\<lparr>ext := s\<rparr>))"
    using assms(5-7) by (simp add: elsewhere_same_def)
  moreover have "settled schemas rows inst (ext (w1\<lparr>ext := s\<rparr>))"
    using turns_settle [OF op assms(3-5)] assms(6,7) by (simp add: settled_def)
  ultimately show ?thesis
    using last_turn [OF op assms(2) _ _ _ assms(10)] turn_elsewhere [OF op] assms(8-10) by simp
qed

section \<open>On the sample cluster\<close>

lemma sample_operational:
  "operational sample_env sample_up database_object schema_named database_row sample_admin sample_database"
proof -
  have "plain_spec (db_Spec sample_database)" "ds_Name (db_Spec sample_database) \<noteq> DatabaseName"
    by (simp_all add: plain_spec_def plain_name_def plain_word_def sample_database_def DatabaseName_def)
  moreover have "om_Namespace (db_Meta sample_database) = ''tenant1''" "ds_AdminConnection (db_Spec sample_database) = admin_ref"
    by (simp_all add: sample_database_def meta_def)
  ultimately show ?thesis
    unfolding operational_def
    using sample_store sample_server sample_accepts sample_reaches sample_finalizers_ok by simp
qed

lemma sample_fresh:
  "fresh_object sample_up database_object schema_named database_row sample_database (ext (world_of sample_cluster))"
  by (simp add: fresh_object_def sample_up_def stored_def unmade_def world_of_def sample_cluster_def empty_cluster_def
      schema_named_def database_row_def database_object_def keyed_key database_deleted_def)
     (simp add: sample_database_def sample_admin_def meta_def object_key_def)

lemma database_converges_witness:
  "settled schema_named database_row sample_database
     (ext ((database_turn sample_env sample_database ^^ 5) (world_of sample_cluster)))"
  using database_converges [OF sample_operational sample_fresh _ refl, of 5] by simp

text \<open>The object of the sample is marked for deletion between two passes.\<close>

definition mark_dying :: "cluster \<Rightarrow> cluster" where
  "mark_dying s = s\<lparr>c_databases :=
     map (\<lambda>d. d\<lparr>db_Meta := (db_Meta d)\<lparr>om_DeletionTimestamp := Some 5\<rparr>\<rparr>) (c_databases s)\<rparr>"

lemma find_mark: "(\<And>y. P (f y) = P y) \<Longrightarrow> find P (map f xs) = map_option f (find P xs)"
  by (induction xs) auto

lemma mark_dying_stored:
  assumes "stored database_object inst F False s"
  shows "stored database_object inst F True (mark_dying s)"
proof -
  let ?f = "\<lambda>d. d\<lparr>db_Meta := (db_Meta d)\<lparr>om_DeletionTimestamp := Some 5\<rparr>\<rparr>"
  obtain d where d: "database_object s (object_key (db_Meta inst)) = Some d" "same_object inst d"
    "set (om_Finalizers (db_Meta d)) = F"
    using assms by (auto simp: stored_def)
  have "database_object (mark_dying s) (object_key (db_Meta inst)) = Some (?f d)"
    using d(1) by (simp add: database_object_def mark_dying_def keyed_key find_mark object_key_def)
  then show ?thesis
    using d(2,3) by (auto simp: stored_def same_object_def object_key_def database_deleted_def)
qed

lemma database_leaves_no_trace_witness:
  "unmade schema_named database_row sample_database
     (ext (database_turn sample_env sample_database
        ((database_turn sample_env sample_database ^^ 2) (world_of sample_cluster)
           \<lparr>ext := mark_dying (ext ((database_turn sample_env sample_database ^^ 2) (world_of sample_cluster)))\<rparr>)))"
proof -
  let ?w1 = "(database_turn sample_env sample_database ^^ 2) (world_of sample_cluster)"
  have drop: "honours_drop sample_env schema_named database_row sample_database"
  proof -
    have "plain_name (ds_Name (db_Spec sample_database))"
      by (simp add: plain_name_def sample_database_def)
    then show ?thesis
      by (simp add: honours_drop_def exec_drop ok_def drop_schema_result) (simp add: sample_env_def forget_row_result)
  qed
  have "up (mark_dying s) = up s" if "up = sample_up" for s up
    using that by (simp add: mark_dying_def sample_up_def)
  moreover have "schema_named (mark_dying s) = schema_named s" "database_row (mark_dying s) = database_row s" for s
    by (simp_all add: mark_dying_def schema_named_def database_row_def fun_eq_iff)
  ultimately show ?thesis
    using database_leaves_no_trace [OF sample_operational drop sample_fresh order_refl refl _ _ _ _ refl, of "mark_dying (ext ?w1)"]
      turns_settle [OF sample_operational sample_fresh order_refl refl] mark_dying_stored
    by simp
qed

end
