(* ===== verification/User_Lifecycle.thy ===== *)
theory User_Lifecycle
  imports Object_Store User_Progress User_Errors
begin

text \<open>
  Whole passes over one new \<open>DatabaseUser\<close>, from the request to the last write, against an API server that stores the
  object and its secret between the passes: the name is claimed, the secret is owned, the finalizer is in place and the
  account is made, one pass for each.
\<close>

section \<open>The API server\<close>

type_synonym 's users = "'s \<Rightarrow> NamespacedName \<Rightarrow> DatabaseUser option"
type_synonym 's secrets = "'s \<Rightarrow> NamespacedName \<Rightarrow> Secret option"

text \<open>Objects and secrets by namespace and name: \<open>Get\<close> finds them, and only the writes of each kind change them.\<close>

definition users_frame :: "'s env \<Rightarrow> 's users \<Rightarrow> bool" where
  "users_frame E users \<longleftrightarrow>
     (\<forall>k s d. users s k = Some d \<longrightarrow> fst (k_get_DatabaseUser E k s) = Inr d) \<and>
     (\<forall>s s'. reading E s s' \<longrightarrow> users s' = users s) \<and>
     (\<forall>e s. (\<forall>x. e \<noteq> UpdateDatabaseUser x \<and> e \<noteq> StatusDatabaseUser x) \<longrightarrow> users (after E e s) = users s)"

definition secrets_frame :: "'s env \<Rightarrow> 's secrets \<Rightarrow> bool" where
  "secrets_frame E secrets \<longleftrightarrow>
     (\<forall>k s x. secrets s k = Some x \<longrightarrow> fst (k_get_Secret E k s) = Inr x \<and> object_key (sec_Meta x) = k) \<and>
     (\<forall>s s'. reading E s s' \<longrightarrow> secrets s' = secrets s) \<and>
     (\<forall>e s. (\<forall>x. e \<noteq> UpdateSecret x \<and> e \<noteq> CreateSecret x) \<longrightarrow> secrets (after E e s) = secrets s)"

text \<open>A write of the current version is taken, and gives a new version.\<close>

definition takes_user :: "'s env \<Rightarrow> 's users \<Rightarrow> bool" where
  "takes_user E users \<longleftrightarrow>
     (\<forall>d fs s r s'. users s (object_key (du_Meta d)) = Some d \<longrightarrow> \<not> user_deleted d \<longrightarrow>
        k_update_DatabaseUser E (set_user_finalizers (\<lambda>_. fs) d) s = (r, s') \<longrightarrow>
        (\<exists>v. users s' (object_key (du_Meta d)) =
           Some (d\<lparr>du_Meta := (du_Meta d)\<lparr>om_Finalizers := fs, om_ResourceVersion := v\<rparr>\<rparr>))) \<and>
     (\<forall>d f s r s'. users s (object_key (du_Meta d)) = Some d \<longrightarrow>
        k_status_DatabaseUser E (set_user_status f d) s = (r, s') \<longrightarrow>
        (\<exists>v. users s' (object_key (du_Meta d)) =
           Some (d\<lparr>du_Meta := (du_Meta d)\<lparr>om_ResourceVersion := v\<rparr>, du_Status := f (du_Status d)\<rparr>)))"

definition takes_secret :: "'s env \<Rightarrow> 's secrets \<Rightarrow> bool" where
  "takes_secret E secrets \<longleftrightarrow>
     (\<forall>x refs s r s'. secrets s (object_key (sec_Meta x)) = Some x \<longrightarrow>
        k_update_Secret E (x\<lparr>sec_Meta := (sec_Meta x)\<lparr>om_OwnerReferences := refs\<rparr>\<rparr>) s = (r, s') \<longrightarrow>
        (\<exists>v. secrets s' (object_key (sec_Meta x)) =
           Some (x\<lparr>sec_Meta := (sec_Meta x)\<lparr>om_OwnerReferences := refs, om_ResourceVersion := v\<rparr>\<rparr>)))"

text \<open>
  \<open>SetControllerReference\<close>: a secret that nobody controls and that has no reference of the object gets one that says
  that the object is its controller.
\<close>

definition nobodys_secret :: "uid \<Rightarrow> Secret \<Rightarrow> bool" where
  "nobodys_secret u x \<longleftrightarrow>
     (\<forall>owner \<in> set (elems (om_OwnerReferences (sec_Meta x))). or_UID owner \<noteq> u \<and> or_Controller owner \<noteq> Some True)"

definition controlled_secret :: "uid \<Rightarrow> Secret \<Rightarrow> bool" where
  "controlled_secret u x \<longleftrightarrow> (\<exists>owner. deciding_owner u x = Some owner \<and> or_Controller owner = Some True)"

definition sets_controller :: "'s env \<Rightarrow> bool" where
  "sets_controller E \<longleftrightarrow>
     (\<forall>d x. nobodys_secret (om_UID (du_Meta d)) x \<longrightarrow>
        (\<exists>refs. set_controller_reference E d x = (x\<lparr>sec_Meta := (sec_Meta x)\<lparr>om_OwnerReferences := refs\<rparr>\<rparr>, None) \<and>
           controlled_secret (om_UID (du_Meta d)) (x\<lparr>sec_Meta := (sec_Meta x)\<lparr>om_OwnerReferences := refs\<rparr>\<rparr>)))"

definition user_store :: "'s env \<Rightarrow> 's users \<Rightarrow> 's secrets \<Rightarrow> bool" where
  "user_store E users secrets \<longleftrightarrow>
     users_frame E users \<and> secrets_frame E secrets \<and> takes_user E users \<and> takes_secret E secrets \<and> sets_controller E"

lemma user_store_laws:
  assumes "user_store E users secrets"
  shows "users s k = Some d \<Longrightarrow> fst (k_get_DatabaseUser E k s) = Inr d"
    and "reading E s s' \<Longrightarrow> users s' = users s \<and> secrets s' = secrets s"
    and "(\<And>x. e \<noteq> UpdateDatabaseUser x \<and> e \<noteq> StatusDatabaseUser x) \<Longrightarrow> users (after E e s) = users s"
    and "(\<And>x. e \<noteq> UpdateSecret x \<and> e \<noteq> CreateSecret x) \<Longrightarrow> secrets (after E e s) = secrets s"
    and "secrets s k = Some x \<Longrightarrow> fst (k_get_Secret E k s) = Inr x"
    and "secrets s k = Some x \<Longrightarrow> object_key (sec_Meta x) = k"
    and "takes_user E users" and "takes_secret E secrets" and "sets_controller E"
  using assms by (auto simp: user_store_def users_frame_def secrets_frame_def)

section \<open>Where an object stands\<close>

definition same_user_object :: "DatabaseUser \<Rightarrow> DatabaseUser \<Rightarrow> bool" where
  "same_user_object inst d \<longleftrightarrow>
     om_UID (du_Meta d) = om_UID (du_Meta inst) \<and> object_key (du_Meta d) = object_key (du_Meta inst) \<and>
     du_Spec d = du_Spec inst \<and> \<not> user_deleted d"

text \<open>The object in the store, with its recorded name and its finalizers.\<close>

definition user_stored :: "'s users \<Rightarrow> DatabaseUser \<Rightarrow> string \<Rightarrow> string set \<Rightarrow> 's \<Rightarrow> bool" where
  "user_stored users inst n F s \<longleftrightarrow>
     (\<exists>d. users s (object_key (du_Meta inst)) = Some d \<and> same_user_object inst d \<and> status_username d = n \<and>
        set (om_Finalizers (du_Meta d)) = F)"

text \<open>The secret of the object: none is asked for, or it has the key and is controlled by the object or by nobody.\<close>

definition secret_stored :: "'s secrets \<Rightarrow> DatabaseUser \<Rightarrow> bool \<Rightarrow> 's \<Rightarrow> bool" where
  "secret_stored secrets inst owned s \<longleftrightarrow>
     (case us_Identification (du_Spec inst) of
        None \<Rightarrow> owned
      | Some ident \<Rightarrow>
          (\<exists>src x v. id_AuthString ident = Some src \<and>
             secrets s \<lparr>nn_Namespace = om_Namespace (du_Meta inst), nn_Name = sel_Name (sks_SecretKeyRef src)\<rparr> = Some x \<and>
             map_of (sec_Data x) (sel_Key (sks_SecretKeyRef src)) = Some v \<and>
             (if owned then controlled_secret (om_UID (du_Meta inst)) x else nobodys_secret (om_UID (du_Meta inst)) x)))"

lemma secret_stored_cong:
  assumes eq: "secrets s' = secrets s"
  shows "secret_stored secrets inst owned s' = secret_stored secrets inst owned s"
  unfolding secret_stored_def eq ..

definition named :: "DatabaseUser \<Rightarrow> DatabaseUser" where
  "named inst = set_user_status (\<lambda>st. st\<lparr>ust_Username := spec_username inst\<rparr>) inst"

text \<open>The object's world works: the API server, the tables, the connection. It is operational when the server accepts the account.\<close>

definition user_world ::
  "'s env \<Rightarrow> ('s \<Rightarrow> bool) \<Rightarrow> 's users \<Rightarrow> 's secrets \<Rightarrow> 's accounts \<Rightarrow> 's user_rows \<Rightarrow> AdminConnection \<Rightarrow> DatabaseUser \<Rightarrow> bool" where
  "user_world E up users secrets accounts rows adm inst \<longleftrightarrow>
     user_store E users secrets \<and> accounts_server E accounts rows \<and>
     reaches_server E up (om_Namespace (du_Meta inst)) (us_AdminConnection (du_Spec inst)) adm \<and> finalizers_ok E"

lemma user_worldD:
  assumes "user_world E up users secrets accounts rows adm inst"
  shows "user_store E users secrets" and "accounts_server E accounts rows"
    and "reaches_server E up (om_Namespace (du_Meta inst)) (us_AdminConnection (du_Spec inst)) adm" and "finalizers_ok E"
  using assms by (simp_all add: user_world_def)

definition user_operational ::
  "'s env \<Rightarrow> ('s \<Rightarrow> bool) \<Rightarrow> 's users \<Rightarrow> 's secrets \<Rightarrow> 's accounts \<Rightarrow> 's user_rows \<Rightarrow> AdminConnection \<Rightarrow> DatabaseUser \<Rightarrow> bool" where
  "user_operational E up users secrets accounts rows adm inst \<longleftrightarrow>
     user_world E up users secrets accounts rows adm inst \<and> accepts_account E accounts rows (named inst) \<and>
     spec_username inst \<noteq> []"

lemma user_operationalD:
  assumes "user_operational E up users secrets accounts rows adm inst"
  shows "user_world E up users secrets accounts rows adm inst" and "accepts_account E accounts rows (named inst)"
    and "spec_username inst \<noteq> []"
  using assms by (simp_all add: user_operational_def)

text \<open>What a step of a pass may leave alone: the objects, the secrets, the accounts and their rows.\<close>

definition user_alike :: "'s users \<Rightarrow> 's secrets \<Rightarrow> 's accounts \<Rightarrow> 's user_rows \<Rightarrow> 's \<Rightarrow> 's \<Rightarrow> bool" where
  "user_alike users secrets accounts rows s0 s \<longleftrightarrow>
     users s = users s0 \<and> secrets s = secrets s0 \<and> accounts s = accounts s0 \<and> rows s = rows s0"

lemma user_alike_reading:
  assumes "user_store E users secrets" and "accounts_server E accounts rows" and "reading E s s'"
  shows "user_alike users secrets accounts rows s s'"
  using user_store_laws(2) [OF assms(1,3)] accounts_laws(2) [OF assms(2,3)] by (simp add: user_alike_def)

lemma user_alike_trans:
  "user_alike users secrets accounts rows s s' \<Longrightarrow> user_alike users secrets accounts rows s' s'' \<Longrightarrow>
     user_alike users secrets accounts rows s s''"
  by (simp add: user_alike_def)

lemma user_alike_connecting:
  assumes store: "user_store E users secrets" and srv: "accounts_server E accounts rows"
  shows "stable E connection_effect (user_alike users secrets accounts rows s0)"
proof -
  have "user_alike users secrets accounts rows s0 (after E e s)"
    if "connection_effect e" "user_alike users secrets accounts rows s0 s" for e s
  proof -
    have "\<not> changes_accounts e" using that(1) by (rule connection_quiet)
    moreover have "users (after E e s) = users s"
      by (rule user_store_laws(3) [OF store]) (use that(1) in \<open>auto simp: connection_effect_def\<close>)
    moreover have "secrets (after E e s) = secrets s"
      by (rule user_store_laws(4) [OF store]) (use that(1) in \<open>auto simp: connection_effect_def\<close>)
    ultimately show ?thesis
      using accounts_laws(3) [OF srv, of e s] that(2) by (simp add: user_alike_def)
  qed
  moreover have "user_alike users secrets accounts rows s0 s'"
    if "reading E s s'" "user_alike users secrets accounts rows s0 s" for s s'
    by (rule user_alike_trans [OF that(2) user_alike_reading [OF store srv that(1)]])
  ultimately show ?thesis
    unfolding stable_def by blast
qed

section \<open>The beginning of a pass\<close>

lemma same_user_object_views:
  assumes "same_user_object inst d"
  shows "du_Spec d = du_Spec inst" "om_UID (du_Meta d) = om_UID (du_Meta inst)"
    "object_key (du_Meta d) = object_key (du_Meta inst)" "om_Namespace (du_Meta d) = om_Namespace (du_Meta inst)"
    "om_Name (du_Meta d) = om_Name (du_Meta inst)" "\<not> user_deleted d" "spec_username d = spec_username inst"
    "managed_user d = managed_user inst" "secret_stored secrets d = secret_stored secrets inst"
proof -
  show eqs: "du_Spec d = du_Spec inst" "om_UID (du_Meta d) = om_UID (du_Meta inst)"
    "object_key (du_Meta d) = object_key (du_Meta inst)" "om_Namespace (du_Meta d) = om_Namespace (du_Meta inst)"
    "om_Name (du_Meta d) = om_Name (du_Meta inst)" "\<not> user_deleted d"
    using assms by (auto simp: same_user_object_def object_key_def)
  then show "spec_username d = spec_username inst" "managed_user d = managed_user inst"
    by (simp_all add: spec_username_def managed_user_def)
  show "secret_stored secrets d = secret_stored secrets inst"
    unfolding secret_stored_def fun_eq_iff eqs by simp
qed

lemma user_pass_begins:
  assumes op: "user_world E up users secrets accounts rows adm inst" and up: "up (ext w)"
    and d: "users (ext w) (object_key (du_Meta inst)) = Some d" and same: "same_user_object inst d"
  obtains h w1 es
  where "user_Reconcile E (object_key (du_Meta inst)) w = user_pass E d (Some adm) (Some h) None w1"
    and "effects w1 = effects w @ es" and "list_all connection_effect es" and "up (ext w1)"
    and "user_alike users secrets accounts rows (ext w) (ext w1)"
proof -
  note store = user_worldD(1) [OF op] and srv = user_worldD(2) [OF op] and reach = user_worldD(3) [OF op]
  let ?resolve = "resolve_admin E (om_Namespace (du_Meta inst)) (us_AdminConnection (du_Spec inst))"
  let ?get = "k_get_DatabaseUser E (object_key (du_Meta inst)) (ext w)"
  let ?w = "w\<lparr>ext := snd ?get\<rparr>"
  have get: "fst ?get = Inr d"
    by (rule user_store_laws(1) [OF store d])
  have start: "user_alike users secrets accounts rows (ext w) (ext ?w)"
    using user_alike_reading [OF store srv reading.get_DatabaseUser] by simp
  have "up (ext ?w)"
    using stable_step(1) [OF reach_facts(2) [OF reach] reading.get_DatabaseUser up] by simp
  then obtain r w1 where "?resolve ?w = Ret r w1" and "\<exists>h. r = (Some adm, Some h, None)" and up1: "up (ext w1)"
    by (rule deliversE [OF resolve_delivers [OF reach]])
  then obtain h where run: "?resolve ?w = Ret (Some adm, Some h, None) w1" by auto
  have alike: "user_alike users secrets accounts rows (ext w) (ext w1)"
    using maintainsD [OF resolve_admin_maintains [OF user_alike_connecting [OF store srv]] start] run
    by (metis final_world.simps(1))
  obtain es where es: "effects w1 = effects w @ es" "list_all connection_effect es"
    using emitsD [OF resolve_admin_emits, of E "om_Namespace (du_Meta inst)" "us_AdminConnection (du_Spec inst)" ?w] run
    by auto
  have "user_Reconcile E (object_key (du_Meta inst)) w = user_pass E d (Some adm) (Some h) None w1"
    using get run same by (simp add: user_Reconcile_def bind_ask same_user_object_views go_bind_Ret)
  from that [OF this es up1 alike] show thesis .
qed

text \<open>Whether the secret of the loop is the one that is stored, and what the checks make of it.\<close>

definition loop_secret :: "'s secrets \<Rightarrow> DatabaseUser \<Rightarrow> Secret option \<Rightarrow> 's \<Rightarrow> bool" where
  "loop_secret secrets inst secret s \<longleftrightarrow>
     (case us_Identification (du_Spec inst) of
        None \<Rightarrow> secret = None
      | Some ident \<Rightarrow>
          (\<exists>src. id_AuthString ident = Some src \<and> secret \<noteq> None \<and>
             secret = secrets s \<lparr>nn_Namespace = om_Namespace (du_Meta inst), nn_Name = sel_Name (sks_SecretKeyRef src)\<rparr>))"

lemma user_secret_run:
  assumes store: "user_store E users secrets" and srv: "accounts_server E accounts rows"
    and st: "stable E P up" and up: "up (ext w)" and sec: "secret_stored secrets inst owned (ext w)"
  obtains secret w1 where "user_secret E inst w = Ret (secret, None) w1" and "loop_secret secrets inst secret (ext w1)"
    and "up (ext w1)" and "effects w1 = effects w" and "user_alike users secrets accounts rows (ext w) (ext w1)"
proof (cases "us_Identification (du_Spec inst)")
  case None
  show thesis
    by (rule that [of None w]) (use None up in \<open>simp_all add: user_secret_def loop_secret_def user_alike_def\<close>)
next
  case (Some ident)
  let ?k = "\<lambda>src. \<lparr>nn_Namespace = om_Namespace (du_Meta inst), nn_Name = sel_Name (sks_SecretKeyRef src)\<rparr>"
  obtain src x where x: "id_AuthString ident = Some src" "secrets (ext w) (?k src) = Some x"
    using sec Some by (auto simp: secret_stored_def)
  let ?s = "snd (k_get_Secret E (?k src) (ext w))"
  have run: "user_secret E inst w = Ret (Some x, None) (w\<lparr>ext := ?s\<rparr>)"
    using Some x user_store_laws(5) [OF store x(2)]
    by (simp add: user_secret_def GetSecret_def bind_ask)
  have alike: "user_alike users secrets accounts rows (ext w) ?s"
    by (rule user_alike_reading [OF store srv reading.get_Secret])
  show thesis
    by (rule that [OF run])
       (use Some x alike stable_step(1) [OF st reading.get_Secret up] in \<open>simp_all add: loop_secret_def user_alike_def\<close>)
qed

lemma loop_secret_ownership:
  assumes "secret_stored secrets inst owned s" and "loop_secret secrets inst secret s"
  shows "secretOwnershipOk inst secret w = Ret owned w"
    and "\<not> owned \<Longrightarrow> \<exists>x k. secret = Some x \<and> secrets s k = Some x \<and> nobodys_secret (om_UID (du_Meta inst)) x"
proof -
  have "deciding_owner u x = None" if "nobodys_secret u x" for u x
    using that by (auto simp: deciding_owner_def nobodys_secret_def find_None_iff split: option.split)
  then show "secretOwnershipOk inst secret w = Ret owned w"
    using assms by (auto simp: secretOwnershipOk_decides secret_stored_def loop_secret_def controlled_secret_def
        split: option.splits if_splits)
  show "\<exists>x k. secret = Some x \<and> secrets s k = Some x \<and> nobodys_secret (om_UID (du_Meta inst)) x" if "\<not> owned"
    using assms that by (auto simp: secret_stored_def loop_secret_def split: option.splits)
qed

lemma loop_secret_details:
  assumes store: "user_store E users secrets" and sec: "secret_stored secrets inst owned (ext w)"
    and loop: "loop_secret secrets inst secret (ext w)"
  shows "gives_details E inst secret w"
proof (cases "us_Identification (du_Spec inst)")
  case None
  then show ?thesis by (simp add: gives_details_def userDetailString_def)
next
  case (Some ident)
  let ?k = "\<lambda>src. \<lparr>nn_Namespace = om_Namespace (du_Meta inst), nn_Name = sel_Name (sks_SecretKeyRef src)\<rparr>"
  obtain src x v where x: "id_AuthString ident = Some src" "secrets (ext w) (?k src) = Some x"
    "map_of (sec_Data x) (sel_Key (sks_SecretKeyRef src)) = Some v"
    using sec Some by (auto simp: secret_stored_def)
  moreover have "secret = Some x" using loop Some x by (simp add: loop_secret_def)
  moreover obtain s where "k_get_Secret E (?k src) (ext w) = (Inr x, s)"
    using user_store_laws(5) [OF store x(2)] by (metis prod.collapse)
  ultimately show ?thesis
    using Some by (simp add: gives_details_def userDetailString_def go_bind_Ret GetSecretRefValue_run Let_def)
qed

section \<open>The passes\<close>

definition user_turn :: "'s env \<Rightarrow> DatabaseUser \<Rightarrow> 's world \<Rightarrow> 's world" where
  "user_turn E inst w = final_world (user_Reconcile E (object_key (du_Meta inst)) w)"

text \<open>Everything works and the object and its secret stand as said; and the account is not there yet.\<close>

definition placed ::
  "('s \<Rightarrow> bool) \<Rightarrow> 's users \<Rightarrow> 's secrets \<Rightarrow> DatabaseUser \<Rightarrow> string \<Rightarrow> bool \<Rightarrow> string set \<Rightarrow> 's \<Rightarrow> bool" where
  "placed up users secrets inst n owned F s \<longleftrightarrow>
     up s \<and> user_stored users inst n F s \<and> secret_stored secrets inst owned s"

definition standing ::
  "('s \<Rightarrow> bool) \<Rightarrow> 's users \<Rightarrow> 's secrets \<Rightarrow> 's accounts \<Rightarrow> DatabaseUser \<Rightarrow> string \<Rightarrow> bool \<Rightarrow> string set \<Rightarrow> 's \<Rightarrow> bool" where
  "standing up users secrets accounts inst n owned F s \<longleftrightarrow>
     placed up users secrets inst n owned F s \<and> accounts s (spec_username inst) = None"

lemma steps_begin:
  assumes op: "user_world E up users secrets accounts rows adm inst"
    and st: "placed up users secrets inst n owned F (ext w)"
  obtains d h secret w1 es
  where "user_turn E inst w = final_world (user_steps E h d secret w1)" and "same_user_object inst d"
    and "status_username d = n" and "set (om_Finalizers (du_Meta d)) = F"
    and "users (ext w1) (object_key (du_Meta d)) = Some d" and "up (ext w1)"
    and "accounts (ext w1) = accounts (ext w)" and "rows (ext w1) = rows (ext w)" and "secret_stored secrets d owned (ext w1)"
    and "loop_secret secrets d secret (ext w1)" and "effects w1 = effects w @ es" and "own_statements es = []"
proof -
  note store = user_worldD(1) [OF op] and srv = user_worldD(2) [OF op]
  obtain d where d: "users (ext w) (object_key (du_Meta inst)) = Some d" "same_user_object inst d"
    "status_username d = n" "set (om_Finalizers (du_Meta d)) = F"
    using st by (auto simp: placed_def user_stored_def)
  note views = same_user_object_views [OF d(2)]
  have up: "up (ext w)" using st by (simp add: placed_def)
  from user_pass_begins [OF op up d(1,2)] obtain h w1 es where
    run: "user_Reconcile E (object_key (du_Meta inst)) w = user_pass E d (Some adm) (Some h) None w1"
    and es: "effects w1 = effects w @ es" "list_all connection_effect es" and up1: "up (ext w1)"
    and alike1: "user_alike users secrets accounts rows (ext w) (ext w1)" .
  have "secret_stored secrets inst owned (ext w1)"
    using st alike1 by (simp add: placed_def user_alike_def secret_stored_cong [of secrets "ext w1" "ext w"])
  then have sec: "secret_stored secrets d owned (ext w1)"
    by (simp add: views)
  from user_secret_run [OF store srv reach_facts(2) [OF user_worldD(3) [OF op]] up1 sec] obtain secret w2 where
    run2: "user_secret E d w1 = Ret (secret, None) w2" and loop: "loop_secret secrets d secret (ext w2)"
    and up2: "up (ext w2)" and eff: "effects w2 = effects w1"
    and alike2: "user_alike users secrets accounts rows (ext w1) (ext w2)" .
  have "user_turn E inst w = final_world (user_steps E h d secret w2)"
    using run run2 views(6) by (simp add: user_turn_def user_pass_def user_deleted_def go_bind_Ret)
  moreover have "users (ext w2) (object_key (du_Meta d)) = Some d" "accounts (ext w2) = accounts (ext w)"
    "rows (ext w2) = rows (ext w)"
    using d(1) alike1 alike2 by (simp_all add: views user_alike_def)
  moreover have "secret_stored secrets d owned (ext w2)"
    using sec alike2 secret_stored_cong [of secrets "ext w2" "ext w1"] by (simp add: user_alike_def)
  ultimately show thesis
    using that [of h d secret w2 es] d(2-4) up2 loop eff es own_statements_connection by auto
qed

text \<open>A single write to the API server ends the pass; it keeps the accounts, and what it does not write.\<close>

lemma write_keeps:
  assumes op: "user_world E up users secrets accounts rows adm inst" and up: "up s"
    and e: "(\<exists>x. e = StatusDatabaseUser x) \<or> (\<exists>x. e = UpdateDatabaseUser x) \<or> (\<exists>x. e = UpdateSecret x)"
  shows "up (after E e s)" and "accounts (after E e s) = accounts s" and "rows (after E e s) = rows s"
    and "(\<forall>x. e \<noteq> UpdateSecret x) \<Longrightarrow> secrets (after E e s) = secrets s"
    and "(\<exists>x. e = UpdateSecret x) \<Longrightarrow> users (after E e s) = users s"
proof -
  show "up (after E e s)"
    by (rule stable_step(2) [OF reach_facts(2) [OF user_worldD(3) [OF op]] _ up]) (use e in auto)
  have "\<not> changes_accounts e" using e by (auto simp: changes_accounts_def)
  then show "accounts (after E e s) = accounts s" "rows (after E e s) = rows s"
    using accounts_laws(3) [OF user_worldD(2) [OF op]] by blast+
  show "secrets (after E e s) = secrets s" if "\<forall>x. e \<noteq> UpdateSecret x"
    by (rule user_store_laws(4) [OF user_worldD(1) [OF op]]) (use e that in auto)
  show "users (after E e s) = users s" if "\<exists>x. e = UpdateSecret x"
    by (rule user_store_laws(3) [OF user_worldD(1) [OF op]]) (use that in auto)
qed

lemma fresh_mine:
  assumes "account_tables_ok E h accounts rows" and "accounts (ext w) (spec_username d) = None"
    and "status_username d \<in> {[], spec_username d}"
  shows "UserMine E h d w = Ret True w"
  using assms(2,3)
  by (auto simp: UserMine_run [OF assms(1)] user_names_def user_owns_def spec_username_def status_username_def)

text \<open>The first pass claims the name.\<close>

lemma claim_turn:
  assumes op: "user_operational E up users secrets accounts rows adm inst"
    and st: "standing up users secrets accounts inst [] owned F (ext w)"
  shows "standing up users secrets accounts inst (spec_username inst) owned F (ext (user_turn E inst w))"
    and "\<exists>es. effects (user_turn E inst w) = effects w @ es \<and> own_statements es = []"
proof -
  note world = user_operationalD(1) [OF op]
  have placed: "placed up users secrets inst [] owned F (ext w)"
    using st by (simp add: standing_def)
  from steps_begin [OF world placed] obtain d h secret w1 es where
    run: "user_turn E inst w = final_world (user_steps E h d secret w1)" and d: "same_user_object inst d"
    "status_username d = []" "set (om_Finalizers (du_Meta d)) = F" "users (ext w1) (object_key (du_Meta d)) = Some d"
    and up1: "up (ext w1)" and acc: "accounts (ext w1) = accounts (ext w)" and rws: "rows (ext w1) = rows (ext w)"
    and sec: "secret_stored secrets d owned (ext w1)" and loop: "loop_secret secrets d secret (ext w1)"
    and es: "effects w1 = effects w @ es" "own_statements es = []" .
  note views = same_user_object_views [OF d(1)]
  have absent: "accounts (ext w1) (spec_username d) = None" using st acc by (simp add: standing_def views)
  let ?f = "\<lambda>st. st\<lparr>ust_Username := spec_username d\<rparr>"
  let ?e = "StatusDatabaseUser (set_user_status ?f d)"
  let ?s = "after E ?e (ext w1)"
  have mine: "UserMine E h d w1 = Ret True w1"
    by (rule fresh_mine [OF accounts_laws(1) [OF user_worldD(2) [OF world]] absent]) (simp add: d(2))
  have turn: "user_turn E inst w = w1\<lparr>ext := ?s, effects := effects w1 @ [?e]\<rparr>"
    using run d(2) steps_run [OF mine loop_secret_ownership(1) [OF sec loop]]
    by (simp add: user_claim_name_def Let_def perform_def split_beta)
  have "\<exists>v. users ?s (object_key (du_Meta d)) =
      Some (d\<lparr>du_Meta := (du_Meta d)\<lparr>om_ResourceVersion := v\<rparr>, du_Status := ?f (du_Status d)\<rparr>)"
    using user_store_laws(7) [OF user_worldD(1) [OF world]] d(4) unfolding takes_user_def
    by (metis after.simps(16) prod.collapse)
  then have "user_stored users inst (spec_username inst) F ?s"
    using d(1,3) by (auto simp: user_stored_def same_user_object_def object_key_def user_deleted_def status_username_def spec_username_def)
  moreover have "secret_stored secrets inst owned ?s"
    using sec secret_stored_cong [OF write_keeps(4) [OF world up1, of ?e]] by (simp add: views)
  ultimately show "standing up users secrets accounts inst (spec_username inst) owned F (ext (user_turn E inst w))"
    using write_keeps(1,2) [OF world up1, of ?e] absent by (simp add: turn standing_def placed_def views)
  show "\<exists>es. effects (user_turn E inst w) = effects w @ es \<and> own_statements es = []"
    using es by (simp add: turn)
qed

text \<open>The next one, when nobody controls the secret, makes the object its controller.\<close>

lemma own_turn:
  assumes op: "user_operational E up users secrets accounts rows adm inst"
    and st: "standing up users secrets accounts inst (spec_username inst) False F (ext w)"
  shows "standing up users secrets accounts inst (spec_username inst) True F (ext (user_turn E inst w))"
    and "\<exists>es. effects (user_turn E inst w) = effects w @ es \<and> own_statements es = []"
proof -
  note world = user_operationalD(1) [OF op]
  have placed: "placed up users secrets inst (spec_username inst) False F (ext w)"
    using st by (simp add: standing_def)
  note store = user_worldD(1) [OF world]
  from steps_begin [OF world placed] obtain d h secret w1 es where
    run: "user_turn E inst w = final_world (user_steps E h d secret w1)" and d: "same_user_object inst d"
    "status_username d = spec_username inst" "set (om_Finalizers (du_Meta d)) = F"
    "users (ext w1) (object_key (du_Meta d)) = Some d"
    and up1: "up (ext w1)" and acc: "accounts (ext w1) = accounts (ext w)" and rws: "rows (ext w1) = rows (ext w)"
    and sec: "secret_stored secrets d False (ext w1)" and loop: "loop_secret secrets d secret (ext w1)"
    and es: "effects w1 = effects w @ es" "own_statements es = []" .
  note views = same_user_object_views [OF d(1)]
  have absent: "accounts (ext w1) (spec_username d) = None" using st acc by (simp add: standing_def views)
  let ?u = "om_UID (du_Meta d)"
  let ?k = "\<lambda>src. \<lparr>nn_Namespace = om_Namespace (du_Meta d), nn_Name = sel_Name (sks_SecretKeyRef src)\<rparr>"
  obtain ident src x v where x: "us_Identification (du_Spec d) = Some ident" "id_AuthString ident = Some src"
    "secrets (ext w1) (?k src) = Some x" "map_of (sec_Data x) (sel_Key (sks_SecretKeyRef src)) = Some v" "nobodys_secret ?u x"
    using sec by (auto simp: secret_stored_def split: option.splits)
  have secret: "secret = Some x" and key: "object_key (sec_Meta x) = ?k src"
    using loop x user_store_laws(6) [OF store x(3)] by (simp_all add: loop_secret_def)
  let ?y = "\<lambda>refs. x\<lparr>sec_Meta := (sec_Meta x)\<lparr>om_OwnerReferences := refs\<rparr>\<rparr>"
  obtain refs where refs: "set_controller_reference E d x = (?y refs, None)" "controlled_secret ?u (?y refs)"
    using user_store_laws(9) [OF store] x(5) unfolding sets_controller_def by blast
  let ?e = "UpdateSecret (?y refs)"
  let ?s = "after E ?e (ext w1)"
  have mine: "UserMine E h d w1 = Ret True w1"
    by (rule fresh_mine [OF accounts_laws(1) [OF user_worldD(2) [OF world]] absent]) (simp add: d(2) views)
  have turn: "user_turn E inst w = w1\<lparr>ext := ?s, effects := effects w1 @ [?e]\<rparr>"
    using run d(2) user_operationalD(3) [OF op] steps_run [OF mine loop_secret_ownership(1) [OF sec loop]] secret refs(1)
    by (simp add: user_own_secret_def perform_def split_beta)
  obtain r s' where upd: "k_update_Secret E (?y refs) (ext w1) = (r, s')" by fastforce
  then obtain v' where "secrets s' (object_key (sec_Meta x)) =
      Some (x\<lparr>sec_Meta := (sec_Meta x)\<lparr>om_OwnerReferences := refs, om_ResourceVersion := v'\<rparr>\<rparr>)"
    using user_store_laws(8) [OF store] x(3) unfolding takes_secret_def key [symmetric] by meson
  then have "secret_stored secrets d True ?s"
    using x(1,2,4) refs(2) upd key
    by (simp add: secret_stored_def controlled_secret_def deciding_owner_def)
  moreover have "user_stored users inst (spec_username inst) F ?s"
    using d write_keeps(5) [OF world up1, of ?e] by (auto simp: user_stored_def views)
  ultimately show "standing up users secrets accounts inst (spec_username inst) True F (ext (user_turn E inst w))"
    using write_keeps(1,2) [OF world up1, of ?e] absent by (simp add: turn standing_def placed_def views)
  show "\<exists>es. effects (user_turn E inst w) = effects w @ es \<and> own_statements es = []"
    using es by (simp add: turn)
qed

text \<open>The next one puts the finalizer in place.\<close>

lemma finalizer_turn:
  assumes op: "user_operational E up users secrets accounts rows adm inst"
    and st: "standing up users secrets accounts inst (spec_username inst) True F (ext w)" and no: "userFinalizer \<notin> F"
  shows "standing up users secrets accounts inst (spec_username inst) True (insert userFinalizer F) (ext (user_turn E inst w))"
    and "\<exists>es. effects (user_turn E inst w) = effects w @ es \<and> own_statements es = []"
proof -
  note world = user_operationalD(1) [OF op]
  have placed: "placed up users secrets inst (spec_username inst) True F (ext w)"
    using st by (simp add: standing_def)
  note store = user_worldD(1) [OF world]
  from steps_begin [OF world placed] obtain d h secret w1 es where
    run: "user_turn E inst w = final_world (user_steps E h d secret w1)" and d: "same_user_object inst d"
    "status_username d = spec_username inst" "set (om_Finalizers (du_Meta d)) = F"
    "users (ext w1) (object_key (du_Meta d)) = Some d"
    and up1: "up (ext w1)" and acc: "accounts (ext w1) = accounts (ext w)" and rws: "rows (ext w1) = rows (ext w)"
    and sec: "secret_stored secrets d True (ext w1)" and loop: "loop_secret secrets d secret (ext w1)"
    and es: "effects w1 = effects w @ es" "own_statements es = []" .
  note views = same_user_object_views [OF d(1)]
  have absent: "accounts (ext w1) (spec_username d) = None" using st acc by (simp add: standing_def views)
  let ?fs = "add_finalizer E (om_Finalizers (du_Meta d)) userFinalizer"
  let ?x = "set_user_finalizers (\<lambda>_. ?fs) d"
  let ?e = "UpdateDatabaseUser ?x"
  let ?s = "after E ?e (ext w1)"
  have mine: "UserMine E h d w1 = Ret True w1"
    by (rule fresh_mine [OF accounts_laws(1) [OF user_worldD(2) [OF world]] absent]) (simp add: d(2) views)
  have fin: "\<not> user_has_finalizer E d" "set ?fs = insert userFinalizer F"
    using d(3) no user_worldD(4) [OF world] by (simp_all add: user_has_finalizer_def finalizers_ok_def)
  have x: "set_user_finalizers (\<lambda>fs. add_finalizer E fs userFinalizer) d = ?x"
    by (simp add: set_user_finalizers_def)
  have turn: "user_turn E inst w = w1\<lparr>ext := ?s, effects := effects w1 @ [?e]\<rparr>"
    using run d(2) user_operationalD(3) [OF op] steps_run [OF mine loop_secret_ownership(1) [OF sec loop]] fin(1)
    by (simp add: user_add_finalizer_def x Let_def perform_def split_beta)
  obtain r s' where upd: "k_update_DatabaseUser E ?x (ext w1) = (r, s')" by fastforce
  then obtain v where "users s' (object_key (du_Meta d)) =
      Some (d\<lparr>du_Meta := (du_Meta d)\<lparr>om_Finalizers := ?fs, om_ResourceVersion := v\<rparr>\<rparr>)"
    using user_store_laws(7) [OF store] d(4) views(6) unfolding takes_user_def by meson
  then have "user_stored users inst (spec_username inst) (insert userFinalizer F) ?s"
    using d(1,2) fin(2) upd
    by (auto simp: user_stored_def same_user_object_def object_key_def user_deleted_def status_username_def)
  moreover have "secret_stored secrets inst True ?s"
    using sec secret_stored_cong [OF write_keeps(4) [OF world up1, of ?e]] by (simp add: views)
  ultimately show "standing up users secrets accounts inst (spec_username inst) True (insert userFinalizer F) (ext (user_turn E inst w))"
    using write_keeps(1,2) [OF world up1, of ?e] absent by (simp add: turn standing_def placed_def views)
  show "\<exists>es. effects (user_turn E inst w) = effects w @ es \<and> own_statements es = []"
    using es by (simp add: turn)
qed

text \<open>With all that in place, the pass makes the account.\<close>

lemma recorded_views:
  assumes "same_user_object inst d" and "status_username d = status_username inst"
  shows "accepts_account E accounts rows d = accepts_account E accounts rows inst"
    and "account_settled accounts rows d = account_settled accounts rows inst" and "managed_user d = managed_user inst"
proof -
  have eqs: "status_username d = status_username inst" "managed_user d = managed_user inst"
    "om_UID (du_Meta d) = om_UID (du_Meta inst)" "create_user_stmt d = create_user_stmt inst"
    using assms by (simp_all add: same_user_object_views create_user_stmt_def fun_eq_iff)
  show "accepts_account E accounts rows d = accepts_account E accounts rows inst"
    unfolding accepts_account_def eqs ..
  show "account_settled accounts rows d = account_settled accounts rows inst"
    unfolding account_settled_def fun_eq_iff eqs by simp
  show "managed_user d = managed_user inst" by (rule eqs(2))
qed

lemma named_views:
  assumes "same_user_object inst d" and "status_username d = spec_username inst"
  shows "accepts_account E accounts rows d = accepts_account E accounts rows (named inst)"
    and "account_settled accounts rows d = account_settled accounts rows (named inst)"
proof -
  have "same_user_object (named inst) d" "status_username d = status_username (named inst)"
    using assms by (simp_all add: same_user_object_def named_def set_user_status_def status_username_def)
  then show "accepts_account E accounts rows d = accepts_account E accounts rows (named inst)"
    and "account_settled accounts rows d = account_settled accounts rows (named inst)"
    by (simp_all add: recorded_views)
qed

lemma create_turn:
  assumes op: "user_operational E up users secrets accounts rows adm inst"
    and st: "standing up users secrets accounts inst (spec_username inst) True F (ext w)" and has: "userFinalizer \<in> F"
  shows "account_settled accounts rows (named inst) (ext (user_turn E inst w))"
proof -
  note world = user_operationalD(1) [OF op]
  have placed: "placed up users secrets inst (spec_username inst) True F (ext w)"
    using st by (simp add: standing_def)
  note srv = user_worldD(2) [OF world]
  from steps_begin [OF world placed] obtain d h secret w1 es where
    run: "user_turn E inst w = final_world (user_steps E h d secret w1)" and d: "same_user_object inst d"
    "status_username d = spec_username inst" "set (om_Finalizers (du_Meta d)) = F"
    "users (ext w1) (object_key (du_Meta d)) = Some d"
    and up1: "up (ext w1)" and acc: "accounts (ext w1) = accounts (ext w)" and rws: "rows (ext w1) = rows (ext w)"
    and sec: "secret_stored secrets d True (ext w1)" and loop: "loop_secret secrets d secret (ext w1)"
    and es: "effects w1 = effects w @ es" "own_statements es = []" .
  note views = same_user_object_views [OF d(1)]
  have absent: "accounts (ext w1) (spec_username d) = None" using st acc by (simp add: standing_def views)
  have mine: "UserMine E h d w1 = Ret True w1"
    by (rule fresh_mine [OF accounts_laws(1) [OF srv] absent]) (simp add: d(2) views)
  have fin: "user_has_finalizer E d"
    using d(3) has user_worldD(4) [OF world] by (simp add: user_has_finalizer_def finalizers_ok_def)
  have turn: "user_turn E inst w = final_world (user_sync E h d secret w1)"
    using run d(2) user_operationalD(3) [OF op] steps_run [OF mine loop_secret_ownership(1) [OF sec loop]] fin by simp
  have accepts: "accepts_account E accounts rows d"
    using user_operationalD(2) [OF op] by (simp add: named_views [OF d(1,2)])
  have "account_settled accounts rows d (ext (user_turn E inst w))"
    using user_sync_settles [OF srv accepts _ _ loop_secret_details [OF user_worldD(1) [OF world] sec loop] turn] absent
    by (simp add: d(2) views)
  then show ?thesis
    by (simp add: named_views [OF d(1,2)])
qed

section \<open>The setup\<close>

text \<open>How many passes are due before the account: one for each of the name, the secret and the finalizer that is missing.\<close>

definition setup_missing :: "string \<Rightarrow> bool \<Rightarrow> string set \<Rightarrow> nat" where
  "setup_missing n owned F = (if n = [] then 1 else 0) + (if owned then 0 else 1) + (if userFinalizer \<in> F then 0 else 1)"

text \<open>The object on its way: so many passes before it is set up.\<close>

definition underway ::
  "('s \<Rightarrow> bool) \<Rightarrow> 's users \<Rightarrow> 's secrets \<Rightarrow> 's accounts \<Rightarrow> DatabaseUser \<Rightarrow> string set \<Rightarrow> nat \<Rightarrow> 's \<Rightarrow> bool" where
  "underway up users secrets accounts inst F m s \<longleftrightarrow>
     (\<exists>n owned G. standing up users secrets accounts inst n owned G s \<and> n \<in> {[], spec_username inst} \<and>
        G \<in> {F, insert userFinalizer F} \<and> setup_missing n owned G = m)"

lemma setup_turn:
  assumes op: "user_operational E up users secrets accounts rows adm inst"
    and st: "underway up users secrets accounts inst F (Suc m) (ext w)"
  shows "underway up users secrets accounts inst F m (ext (user_turn E inst w))"
    and "\<exists>es. effects (user_turn E inst w) = effects w @ es \<and> own_statements es = []"
proof -
  obtain n owned G where G: "standing up users secrets accounts inst n owned G (ext w)" "n \<in> {[], spec_username inst}"
    "G \<in> {F, insert userFinalizer F}" "setup_missing n owned G = Suc m"
    using st by (auto simp: underway_def)
  note name = user_operationalD(3) [OF op]
  consider (claim) "n = []" | (own) "n = spec_username inst" "\<not> owned"
    | (finalizer) "n = spec_username inst" "owned" "userFinalizer \<notin> G"
    using G(2,4) by (auto simp: setup_missing_def split: if_splits)
  then have "underway up users secrets accounts inst F m (ext (user_turn E inst w)) \<and>
      (\<exists>es. effects (user_turn E inst w) = effects w @ es \<and> own_statements es = [])"
  proof cases
    case claim
    have "setup_missing (spec_username inst) owned G = m"
      using G(4) claim name by (simp add: setup_missing_def)
    then show ?thesis
      using claim_turn [OF op, of owned G w] G(1,3) claim unfolding underway_def by blast
  next
    case own
    have "setup_missing (spec_username inst) True G = m"
      using G(4) own name by (simp add: setup_missing_def)
    moreover have "standing up users secrets accounts inst (spec_username inst) False G (ext w)"
      using G(1) own by simp
    ultimately show ?thesis
      using own_turn [OF op, of G w] G(3) unfolding underway_def by blast
  next
    case finalizer
    have "setup_missing (spec_username inst) True (insert userFinalizer G) = m"
      using G(4) finalizer name by (simp add: setup_missing_def)
    moreover have "insert userFinalizer G \<in> {F, insert userFinalizer F}" using G(3) by auto
    moreover have "standing up users secrets accounts inst (spec_username inst) True G (ext w)"
      using G(1) finalizer by simp
    ultimately show ?thesis
      using finalizer_turn [OF op, of G w] finalizer(3) unfolding underway_def by blast
  qed
  then show "underway up users secrets accounts inst F m (ext (user_turn E inst w))"
    and "\<exists>es. effects (user_turn E inst w) = effects w @ es \<and> own_statements es = []" by blast+
qed

lemma setup_passes:
  assumes op: "user_operational E up users secrets accounts rows adm inst"
    and st: "underway up users secrets accounts inst F m (ext w)" and j: "j \<le> m"
  shows "underway up users secrets accounts inst F (m - j) (ext ((user_turn E inst ^^ j) w)) \<and>
     (\<exists>es. effects ((user_turn E inst ^^ j) w) = effects w @ es \<and> own_statements es = [])"
  using j
proof (induction j)
  case 0
  with st show ?case by simp
next
  case (Suc j)
  then obtain es where es: "effects ((user_turn E inst ^^ j) w) = effects w @ es" "own_statements es = []" by auto
  have "m - j = Suc (m - Suc j)" using Suc.prems by simp
  with Suc have st: "underway up users secrets accounts inst F (Suc (m - Suc j)) (ext ((user_turn E inst ^^ j) w))" by simp
  obtain es' where "effects (user_turn E inst ((user_turn E inst ^^ j) w)) = effects ((user_turn E inst ^^ j) w) @ es'"
    "own_statements es' = []"
    using setup_turn(2) [OF op st] by blast
  with es have "\<exists>es. effects ((user_turn E inst ^^ Suc j) w) = effects w @ es \<and> own_statements es = []"
    by (intro exI [of _ "es @ es'"]) simp
  with setup_turn(1) [OF op st] show ?case by simp
qed

lemma setup_done:
  assumes "user_operational E up users secrets accounts rows adm inst" and "underway up users secrets accounts inst F 0 s"
  shows "standing up users secrets accounts inst (spec_username inst) True (insert userFinalizer F) s"
proof -
  obtain n owned G where G: "standing up users secrets accounts inst n owned G s" "n \<in> {[], spec_username inst}"
    "G \<in> {F, insert userFinalizer F}" "setup_missing n owned G = 0"
    using assms(2) by (auto simp: underway_def)
  then have "n = spec_username inst" "owned" "userFinalizer \<in> G" by (auto simp: setup_missing_def split: if_splits)
  with G(1,3) show ?thesis by (auto simp: insert_absorb)
qed

lemma underway_start:
  "standing up users secrets accounts inst n owned F s \<Longrightarrow> n \<in> {[], spec_username inst} \<Longrightarrow>
     underway up users secrets accounts inst F (setup_missing n owned F) s"
  unfolding underway_def by blast


text \<open>For a new object: three passes before the account, and one less when the secret needs no owner.\<close>

definition setup_turns :: "bool \<Rightarrow> nat" where
  "setup_turns owned = (if owned then 2 else 3)"

lemma setup_settles:
  assumes op: "user_operational E up users secrets accounts rows adm inst"
    and st: "standing up users secrets accounts inst [] owned {} (ext w)"
    and w': "w' = (user_turn E inst ^^ setup_turns owned) w"
  shows "standing up users secrets accounts inst (spec_username inst) True {userFinalizer} (ext w')"
    and "\<exists>es. effects w' = effects w @ es \<and> own_statements es = []"
proof -
  have "setup_missing [] owned {} = setup_turns owned"
    by (simp add: setup_missing_def setup_turns_def)
  with underway_start [OF st] have "underway up users secrets accounts inst {} (setup_turns owned) (ext w)" by simp
  from setup_passes [OF op this order_refl] setup_done [OF op]
  show "standing up users secrets accounts inst (spec_username inst) True {userFinalizer} (ext w')"
    and "\<exists>es. effects w' = effects w @ es \<and> own_statements es = []"
    unfolding w' by simp_all
qed

section \<open>Convergence\<close>

lemma settled_mine:
  assumes "account_tables_ok E h accounts rows" and "account_settled accounts rows (named inst) (ext w)"
  shows "UserMine E h (named inst) w = Ret True w"
  using assms(2)
  by (simp add: UserMine_run [OF assms(1)] user_names_def user_owns_def account_settled_def user_row_matches_def
      managed_user_def named_def set_user_status_def status_username_def spec_username_def)


section \<open>On the sample cluster\<close>

definition user_object :: "cluster users" where
  "user_object s k = find (\<lambda>d. keyed k (du_Meta d)) (c_users s)"

definition secret_object :: "cluster secrets" where
  "secret_object s k = find (\<lambda>d. keyed k (sec_Meta d)) (c_secrets s)"

lemma sample_user_frames: "users_frame sample_env user_object" "secrets_frame sample_env secret_object"
proof -
  have exec: "c_users (snd (sample_exec h q s)) = c_users s \<and> c_secrets (snd (sample_exec h q s)) = c_secrets s" for h q s
    by (simp add: sample_exec_def ok_def refused_def create_account_def create_schema_def rename_account_def
        split: option.splits prod.splits)
  have users: "c_users (after sample_env e s) = c_users s"
    if "\<forall>x. e \<noteq> UpdateDatabaseUser x \<and> e \<noteq> StatusDatabaseUser x" for e s
    using that exec by (cases e) (auto simp: sample_env_def ok_def refused_def)
  have secrets: "c_secrets (after sample_env e s) = c_secrets s"
    if "\<forall>x. e \<noteq> UpdateSecret x \<and> e \<noteq> CreateSecret x" for e s
    using that exec by (cases e) (auto simp: sample_env_def ok_def refused_def)
  have get: "k_get_DatabaseUser sample_env k s = (found (user_object s k), s)"
    "k_get_Secret sample_env k s = (found (secret_object s k), s)" for k s
    by (simp_all add: sample_env_def user_object_def secret_object_def)
  have key: "object_key (sec_Meta x) = k" if "secret_object s k = Some x" for s k x
    using that by (auto simp: secret_object_def keyed_key find_Some_iff)
  have reads: "user_object s' = user_object s \<and> secret_object s' = secret_object s" if "reading sample_env s s'" for s s'
    using sample_reading [OF that] by simp
  show "users_frame sample_env user_object"
    using users reads by (simp add: users_frame_def get found_def user_object_def fun_eq_iff)
  show "secrets_frame sample_env secret_object"
    using secrets reads key by (simp add: secrets_frame_def get found_def secret_object_def fun_eq_iff)
qed

lemma sample_takes_user: "takes_user sample_env user_object"
proof -
  let ?find = "\<lambda>d s. find (\<lambda>y. object_key (du_Meta y) = object_key (du_Meta d)) (c_users s)"
  have update: "\<exists>v. user_object s' (object_key (du_Meta d)) =
      Some (d\<lparr>du_Meta := (du_Meta d)\<lparr>om_Finalizers := fs, om_ResourceVersion := v\<rparr>\<rparr>)"
    if d: "user_object s (object_key (du_Meta d)) = Some d" "\<not> user_deleted d"
      and u: "k_update_DatabaseUser sample_env (set_user_finalizers (\<lambda>_. fs) d) s = (r, s')" for d fs s r s'
  proof -
    let ?x = "set_user_finalizers (\<lambda>_. fs) d"
    have key: "object_key (du_Meta ?x) = object_key (du_Meta d)" "\<not> released (du_Meta ?x)"
      using d(2) by (simp_all add: set_user_finalizers_def object_key_def released_def user_deleted_def)
    have "?find ?x s' = map_option (\<lambda>y. ?x\<lparr>du_Status := du_Status y\<rparr>) (?find ?x s)"
      using find_store [of du_Meta "\<lambda>y. ?x\<lparr>du_Status := du_Status y\<rparr>" "du_Meta ?x" "c_users s"] u key(2)
      by (auto simp: sample_env_def)
    then have "user_object s' (object_key (du_Meta d)) = Some (?x\<lparr>du_Status := du_Status d\<rparr>)"
      using d(1) key(1) by (simp add: user_object_def keyed_key)
    moreover have "Some (?x\<lparr>du_Status := du_Status d\<rparr>) =
        Some (d\<lparr>du_Meta := (du_Meta d)\<lparr>om_Finalizers := fs, om_ResourceVersion := om_ResourceVersion (du_Meta d)\<rparr>\<rparr>)"
      by (cases d, cases "du_Meta d") (simp add: set_user_finalizers_def)
    ultimately have "user_object s' (object_key (du_Meta d)) =
        Some (d\<lparr>du_Meta := (du_Meta d)\<lparr>om_Finalizers := fs, om_ResourceVersion := om_ResourceVersion (du_Meta d)\<rparr>\<rparr>)"
      by (rule trans)
    then show ?thesis by (rule exI)
  qed
  have status: "\<exists>v. user_object s' (object_key (du_Meta d)) =
      Some (d\<lparr>du_Meta := (du_Meta d)\<lparr>om_ResourceVersion := v\<rparr>, du_Status := f (du_Status d)\<rparr>)"
    if d: "user_object s (object_key (du_Meta d)) = Some d"
      and u: "k_status_DatabaseUser sample_env (set_user_status f d) s = (r, s')" for d f s r s'
  proof -
    have s': "s' = s\<lparr>c_users := put du_Meta (\<lambda>y. y\<lparr>du_Status := f (du_Status d)\<rparr>) (du_Meta d) (c_users s)\<rparr>"
      using u by (simp add: sample_env_def set_user_status_def)
    have "?find d s = Some d"
      using d by (simp add: user_object_def keyed_key)
    then have "user_object s' (object_key (du_Meta d)) = Some (d\<lparr>du_Status := f (du_Status d)\<rparr>)"
      using find_put_status [of du_Meta "\<lambda>y. y\<lparr>du_Status := f (du_Status d)\<rparr>" "du_Meta d" "c_users s"]
      by (simp add: user_object_def keyed_key s')
    moreover have "Some (d\<lparr>du_Status := f (du_Status d)\<rparr>) =
        Some (d\<lparr>du_Meta := (du_Meta d)\<lparr>om_ResourceVersion := om_ResourceVersion (du_Meta d)\<rparr>, du_Status := f (du_Status d)\<rparr>)"
      by (cases d, cases "du_Meta d") simp
    ultimately have "user_object s' (object_key (du_Meta d)) =
        Some (d\<lparr>du_Meta := (du_Meta d)\<lparr>om_ResourceVersion := om_ResourceVersion (du_Meta d)\<rparr>, du_Status := f (du_Status d)\<rparr>)"
      by (rule trans)
    then show ?thesis by (rule exI)
  qed
  show ?thesis
    unfolding takes_user_def using update status by blast
qed

lemma sample_takes_secret: "takes_secret sample_env secret_object"
  unfolding takes_secret_def
proof (intro allI impI)
  fix x :: Secret and refs s r s'
  let ?y = "x\<lparr>sec_Meta := (sec_Meta x)\<lparr>om_OwnerReferences := refs\<rparr>\<rparr>"
  assume x: "secret_object s (object_key (sec_Meta x)) = Some x" and u: "k_update_Secret sample_env ?y s = (r, s')"
  have s': "s' = s\<lparr>c_secrets := put sec_Meta (\<lambda>y. ?y) (sec_Meta ?y) (c_secrets s)\<rparr>"
    using u by (simp add: sample_env_def)
  have key: "object_key (sec_Meta ?y) = object_key (sec_Meta x)" by (simp add: object_key_def)
  then have "secret_object s' (object_key (sec_Meta x)) = Some ?y"
    using find_put [of sec_Meta "\<lambda>y. ?y" "sec_Meta ?y" "c_secrets s"] x by (simp add: secret_object_def keyed_key s')
  moreover have "Some ?y = Some (x\<lparr>sec_Meta := (sec_Meta x)\<lparr>om_OwnerReferences := refs,
      om_ResourceVersion := om_ResourceVersion (sec_Meta x)\<rparr>\<rparr>)"
    by (cases x, cases "sec_Meta x") simp
  ultimately have "secret_object s' (object_key (sec_Meta x)) = Some (x\<lparr>sec_Meta := (sec_Meta x)\<lparr>om_OwnerReferences := refs,
      om_ResourceVersion := om_ResourceVersion (sec_Meta x)\<rparr>\<rparr>)"
    by (rule trans)
  then show "\<exists>v. secret_object s' (object_key (sec_Meta x)) =
      Some (x\<lparr>sec_Meta := (sec_Meta x)\<lparr>om_OwnerReferences := refs, om_ResourceVersion := v\<rparr>\<rparr>)"
    by (rule exI)
qed

lemma sample_user_store: "user_store sample_env user_object secret_object"
proof -
  have "sets_controller sample_env"
    unfolding sets_controller_def
  proof (intro allI impI exI conjI)
    fix d :: DatabaseUser and x
    let ?refs = "Some [\<lparr>or_UID = om_UID (du_Meta d), or_Controller = Some True\<rparr>]"
    show "set_controller_reference sample_env d x = (x\<lparr>sec_Meta := (sec_Meta x)\<lparr>om_OwnerReferences := ?refs\<rparr>\<rparr>, None)"
      by (simp add: sample_env_def)
    show "controlled_secret (om_UID (du_Meta d)) (x\<lparr>sec_Meta := (sec_Meta x)\<lparr>om_OwnerReferences := ?refs\<rparr>\<rparr>)"
      by (simp add: controlled_secret_def deciding_owner_def)
  qed
  then show ?thesis
    by (simp add: user_store_def sample_user_frames sample_takes_user sample_takes_secret)
qed

text \<open>A user whose password is in a secret that nobody controls yet.\<close>

definition keyed_user :: DatabaseUser where
  "keyed_user = sample_user\<lparr>du_Spec := (du_Spec sample_user)\<lparr>us_Identification :=
     Some \<lparr>id_AuthPlugin = [], id_AuthString = Some \<lparr>sks_SecretKeyRef = \<lparr>sel_Name = ''alice-key'', sel_Key = ''password''\<rparr>\<rparr>,
       id_ClearText = True\<rparr>\<rparr>\<rparr>"

definition keyed_cluster :: cluster where
  "keyed_cluster = sample_cluster\<lparr>c_users := [keyed_user],
     c_secrets := [\<lparr>sec_Meta = meta ''tenant1'' ''alice-key'' ''S'', sec_Data = [(''password'', ''pw'')]\<rparr>]\<rparr>"

lemma keyed_operational:
  "user_operational sample_env sample_up user_object secret_object account_named user_row sample_admin keyed_user"
proof -
  have "status_username (named keyed_user) \<noteq> []" "spec_username keyed_user \<noteq> []"
    "om_Namespace (du_Meta keyed_user) = ''tenant1''" "us_AdminConnection (du_Spec keyed_user) = admin_ref"
    by (simp_all add: named_def set_user_status_def status_username_def spec_username_def keyed_user_def sample_user_def meta_def)
  then show ?thesis
    unfolding user_operational_def user_world_def
    using sample_user_store sample_accounts sample_accepts_account sample_reaches sample_finalizers_ok by simp
qed

lemma keyed_standing:
  "standing sample_up user_object secret_object account_named keyed_user [] False {} (ext (world_of keyed_cluster))"
  by (simp add: standing_def placed_def sample_up_def user_stored_def secret_stored_def world_of_def keyed_cluster_def sample_cluster_def
      empty_cluster_def user_object_def secret_object_def account_named_def keyed_user_def sample_user_def sample_admin_def
      meta_def keyed_def object_key_def same_user_object_def user_deleted_def status_username_def nobodys_secret_def)


text \<open>An object whose name is recorded and that has a finalizer of somebody else, with a secret that nobody controls.\<close>

definition resumed_user :: DatabaseUser where
  "resumed_user = set_user_status (\<lambda>st. st\<lparr>ust_Username := ''alice''\<rparr>)
     (keyed_user\<lparr>du_Meta := (meta ''tenant1'' ''alice'' ''U'')\<lparr>om_Finalizers := [''example.org/backup'']\<rparr>\<rparr>)"

lemma resumed_operational:
  "user_operational sample_env sample_up user_object secret_object account_named user_row sample_admin resumed_user"
proof -
  have "status_username (named resumed_user) \<noteq> []" "spec_username resumed_user \<noteq> []"
    "om_Namespace (du_Meta resumed_user) = ''tenant1''" "us_AdminConnection (du_Spec resumed_user) = admin_ref"
    by (simp_all add: named_def set_user_status_def status_username_def spec_username_def resumed_user_def keyed_user_def
        sample_user_def meta_def)
  then show ?thesis
    unfolding user_operational_def user_world_def
    using sample_user_store sample_accounts sample_accepts_account sample_reaches sample_finalizers_ok by simp
qed


end
