(* ===== verification/User_Failures.thy ===== *)
theory User_Failures
  imports User_Lifecycle
begin

text \<open>
  Whole passes, one after the other, that never get where they should: a specification that makes every pass panic, and an account
  that its own object disowns from the moment it is made.
\<close>

section \<open>A pass that keeps the API server as it is until its end\<close>

definition spares_api :: "effect \<Rightarrow> bool" where
  "spares_api e \<longleftrightarrow> (\<forall>u x a. e \<noteq> UpdateDatabaseUser u \<and> e \<noteq> StatusDatabaseUser u \<and> e \<noteq> UpdateSecret x \<and>
     e \<noteq> CreateSecret x \<and> e \<noteq> StatusAdminConnection a)"

lemma create_spares: "emits spares_api (user_align E h i secret False)"
proof -
  have "emits spares_api (runStmt E h q)" for q by (intro runStmt_emits) (simp add: spares_api_def)
  then show ?thesis
    unfolding user_align_def userCreate_def grant_def save_managed_user_def
    by (intro emits_intros grant_loop_emits user_facts) (simp_all add: spares_api_def)
qed

lemma create_keeps:
  assumes "user_world E up users secrets accounts rows adm inst"
  shows "maintains (\<lambda>s. up s \<and> users s = U \<and> secrets s = S) (user_align E h i secret False)"
proof (rule conducts_maintains [OF _ create_spares])
  show "conducts E (user_align E h i secret False)" by (intro conducts_intros)
  have e: "up (after E e s) \<and> users (after E e s) = users s \<and> secrets (after E e s) = secrets s" if "spares_api e" "up s" for e s
    using that stable_step(2) [OF reach_facts(2) [OF user_worldD(3) [OF assms]], of e s]
      user_store_laws(3,4) [OF user_worldD(1) [OF assms], of e s] by (simp add: spares_api_def)
  have r: "up s' \<and> users s' = users s \<and> secrets s' = secrets s" if "reading E s s'" "up s" for s s'
    using that stable_step(1) [OF reach_facts(2) [OF user_worldD(3) [OF assms]]]
      user_store_laws(2) [OF user_worldD(1) [OF assms]] by blast
  show "stable E spares_api (\<lambda>s. up s \<and> users s = U \<and> secrets s = S)"
    unfolding stable_def using e r by auto
qed

text \<open>The status update at the end.\<close>

lemma status_write:
  assumes op: "user_world E up users secrets accounts rows adm inst" and up: "up s"
    and d: "users s (object_key (du_Meta d)) = Some d" "same_user_object inst d" "status_username d = n"
      "set (om_Finalizers (du_Meta d)) = F"
    and sec: "secret_stored secrets d owned s" and i: "same_account d i"
  shows "placed up users secrets inst n owned F (after E (StatusDatabaseUser i) s)"
    and "users (after E (StatusDatabaseUser i) s) (object_key (du_Meta inst)) = Some x \<Longrightarrow>
      ust_Message (du_Status x) = ust_Message (du_Status i)"
proof -
  let ?s = "after E (StatusDatabaseUser i) s"
  note views = same_user_object_views [OF d(2)]
  have "i = set_user_status (\<lambda>_. du_Status i) d"
    using i by (simp add: same_account_def set_user_status_def)
  then have "k_status_DatabaseUser E (set_user_status (\<lambda>_. du_Status i) d) s = (fst (k_status_DatabaseUser E i s), ?s)" by simp
  then obtain v where v: "users ?s (object_key (du_Meta d)) =
      Some (d\<lparr>du_Meta := (du_Meta d)\<lparr>om_ResourceVersion := v\<rparr>, du_Status := du_Status i\<rparr>)"
    using user_store_laws(7) [OF user_worldD(1) [OF op]] d(1) unfolding takes_user_def by meson
  have "user_stored users inst n F ?s"
    using v d(2-4) i by (auto simp: user_stored_def same_user_object_def object_key_def user_deleted_def status_username_def same_account_def)
  moreover have "secret_stored secrets inst owned ?s"
    using sec secret_stored_cong [OF write_keeps(4) [OF op up, of "StatusDatabaseUser i"]] by (simp add: views)
  ultimately show "placed up users secrets inst n owned F ?s"
    using write_keeps(1) [OF op up, of "StatusDatabaseUser i"] by (simp add: placed_def)
  show "ust_Message (du_Status x) = ust_Message (du_Status i)" if "users ?s (object_key (du_Meta inst)) = Some x"
    using that v by (auto simp: views)
qed

section \<open>A plugin without a password\<close>

text \<open>
  C38: a \<open>DatabaseUser\<close> whose specification asks for a plugin only (an identification without a password) never gets its account.
  Once its name is recorded and its finalizer is in place, and as long as nobody else makes the account or changes the object, every
  pass panics on the nil secret before any statement of its own; the object, and all accounts, stay as they were.
\<close>

theorem plugin_only_user_panics:
  assumes op: "user_world E up users secrets accounts rows adm inst" and up: "up (ext w)"
    and ident: "us_Identification (du_Spec inst) = Some ident" "id_AuthString ident = None"
    and st: "user_stored users inst n F (ext w)" "n \<noteq> []" "userFinalizer \<in> F" and absent: "accounts (ext w) n = None"
    and w': "w' = (user_turn E inst ^^ k) w"
  shows "(\<exists>w''. user_Reconcile E (object_key (du_Meta inst)) w' = Panic NilDereference w'') \<and>
     users (ext w') = users (ext w) \<and> accounts (ext w') = accounts (ext w) \<and>
     (\<exists>es. effects w' = effects w @ es \<and> own_statements es = [])"
proof -
  have pass: "\<exists>w2 es. user_Reconcile E (object_key (du_Meta inst)) w1 = Panic NilDereference w2 \<and> up (ext w2) \<and>
      users (ext w2) = users (ext w) \<and> accounts (ext w2) = accounts (ext w) \<and>
      effects w2 = effects w1 @ es \<and> own_statements es = []"
    if w1: "up (ext w1)" "users (ext w1) = users (ext w)" "accounts (ext w1) = accounts (ext w)" for w1
  proof -
    obtain d where d: "users (ext w1) (object_key (du_Meta inst)) = Some d" "same_user_object inst d"
      "status_username d = n" "set (om_Finalizers (du_Meta d)) = F"
      using st(1) w1(2) by (auto simp: user_stored_def)
    note views = same_user_object_views [OF d(2)]
    from user_pass_begins [OF op w1(1) d(1,2)] obtain h w2 es where
      run: "user_Reconcile E (object_key (du_Meta inst)) w1 = user_pass E d (Some adm) (Some h) None w2"
      and es: "effects w2 = effects w1 @ es" "list_all connection_effect es" and up2: "up (ext w2)"
      and alike: "user_alike users secrets accounts rows (ext w1) (ext w2)" .
    have ready: "user_ready E d"
      using d(3,4) st(2,3) views(6) user_worldD(4) [OF op] by (simp add: user_ready_def user_has_finalizer_def finalizers_ok_def)
    have id: "us_Identification (du_Spec d) = Some ident" and none: "accounts (ext w2) (status_username d) = None"
      using ident(1) absent alike w1(3) d(3) views(1) by (simp_all add: user_alike_def)
    have "user_pass E d (Some adm) (Some h) None w2 = Panic NilDereference w2"
      by (rule plugin_only_pass_panics [OF id ident(2) ready accounts_laws(1) [OF user_worldD(2) [OF op]] none])
    with run es up2 alike w1 own_statements_connection [OF es(2)] show ?thesis
      by (auto simp: user_alike_def)
  qed
  have "up (ext w') \<and> users (ext w') = users (ext w) \<and> accounts (ext w') = accounts (ext w) \<and>
      (\<exists>es. effects w' = effects w @ es \<and> own_statements es = [])"
    unfolding w'
  proof (induction k)
    case 0
    show ?case using up by (auto intro: exI [of _ "[]"])
  next
    case (Suc k)
    let ?w = "(user_turn E inst ^^ k) w"
    obtain es where es: "effects ?w = effects w @ es" "own_statements es = []" using Suc by blast
    obtain w2 es' where w2: "user_Reconcile E (object_key (du_Meta inst)) ?w = Panic NilDereference w2"
      "up (ext w2)" "users (ext w2) = users (ext w)" "accounts (ext w2) = accounts (ext w)" "effects w2 = effects ?w @ es'"
      "own_statements es' = []"
      using pass [of ?w] Suc by blast
    have "(user_turn E inst ^^ Suc k) w = w2"
      using w2(1) by (simp add: user_turn_def)
    moreover have "\<exists>es. effects w2 = effects w @ es \<and> own_statements es = []"
      using w2(5,6) es by (intro exI [of _ "es @ es'"]) simp
    ultimately show ?case using w2(2-4) by simp
  qed
  with pass [of w'] show ?thesis by blast
qed

lemma plugin_world:
  assumes "om_Namespace (du_Meta inst) = ''tenant1''" and "us_AdminConnection (du_Spec inst) = admin_ref"
  shows "user_world sample_env sample_up user_object secret_object account_named user_row sample_admin inst"
  using assms sample_user_store sample_accounts sample_reaches sample_finalizers_ok by (simp add: user_world_def)

lemma plugin_only_user_panics_witness:
  "\<exists>w. user_Reconcile sample_env \<lparr>nn_Namespace = ''tenant1'', nn_Name = ''alice''\<rparr>
     ((user_turn sample_env plugin_user ^^ 4) (world_of (sample_cluster\<lparr>c_users := [plugin_user]\<rparr>))) = Panic NilDereference w"
proof -
  let ?w = "world_of (sample_cluster\<lparr>c_users := [plugin_user]\<rparr>)"
  have obj: "om_Namespace (du_Meta plugin_user) = ''tenant1''" "om_Name (du_Meta plugin_user) = ''alice''"
    "us_AdminConnection (du_Spec plugin_user) = admin_ref"
    "us_Identification (du_Spec plugin_user) = Some \<lparr>id_AuthPlugin = ''auth_socket'', id_AuthString = None, id_ClearText = True\<rparr>"
    "om_Finalizers (du_Meta plugin_user) = [userFinalizer]" "status_username plugin_user = ''alice''" "\<not> user_deleted plugin_user"
    by (simp_all add: plugin_user_def set_user_status_def sample_user_def meta_def status_username_def user_deleted_def)
  have "user_stored user_object plugin_user ''alice'' {userFinalizer} (ext ?w)"
    using obj by (simp add: user_stored_def user_object_def world_of_def keyed_def object_key_def same_user_object_def)
  moreover have "sample_up (ext ?w)" "account_named (ext ?w) ''alice'' = None"
    by (simp_all add: sample_up_def world_of_def sample_cluster_def empty_cluster_def account_named_def sample_admin_def keyed_def meta_def)
  moreover have "object_key (du_Meta plugin_user) = \<lparr>nn_Namespace = ''tenant1'', nn_Name = ''alice''\<rparr>"
    using obj by (simp add: object_key_def)
  ultimately show ?thesis
    using plugin_only_user_panics [OF plugin_world [OF obj(1,3)] _ obj(4) _ _ _ _ _ refl, of ?w "''alice''" "{userFinalizer}" 4]
    by simp
qed

section \<open>A new name before the account exists\<close>

lemma create_same_account:
  assumes "user_ready E d"
  shows "yields (keeps_account d) (user_align E h d secret False)"
  unfolding user_align_def
  by (auto intro!: yields_keeps_bind [OF userCreate_keeps(2) [OF assms same_account_refl(1)]] yields_ask yields_ret
      simp: same_account_status)

text \<open>The pass that makes the account leaves the object in place, under its old name.\<close>

lemma creating_turn:
  assumes op: "user_world E up users secrets accounts rows adm inst" and acc: "accepts_account E accounts rows inst"
    and name: "status_username inst \<noteq> []" and st: "placed up users secrets inst (status_username inst) True F (ext w)"
    and fin: "userFinalizer \<in> F" and absent: "accounts (ext w) (status_username inst) = None"
  shows "placed up users secrets inst (status_username inst) True F (ext (user_turn E inst w)) \<and>
     account_settled accounts rows inst (ext (user_turn E inst w))"
proof -
  let ?n = "status_username inst" and ?w' = "user_turn E inst w"
  note store = user_worldD(1) [OF op] and srv = user_worldD(2) [OF op]
  from steps_begin [OF op st] obtain d h secret w1 es where
    run: "user_turn E inst w = final_world (user_steps E h d secret w1)" and d: "same_user_object inst d" "status_username d = ?n"
    "set (om_Finalizers (du_Meta d)) = F" "users (ext w1) (object_key (du_Meta d)) = Some d"
    and up1: "up (ext w1)" and acc1: "accounts (ext w1) = accounts (ext w)"
    and sec: "secret_stored secrets d True (ext w1)" and loop: "loop_secret secrets d secret (ext w1)" .
  note views = same_user_object_views [OF d(1)] and tables = accounts_laws(1) [OF srv]
  have ready: "user_ready E d"
    using d(2,3) name fin views(6) user_worldD(4) [OF op] by (simp add: user_ready_def user_has_finalizer_def finalizers_ok_def)
  have absent1: "accounts (ext w1) (status_username d) = None" using absent acc1 d(2) by simp
  have turn: "?w' = final_world (user_sync E h d secret w1)"
    using run d(2) name ready steps_run [OF UserMine_run [OF tables] loop_secret_ownership(1) [OF sec loop]]
    by (simp add: user_ready_def)
  have "account_settled accounts rows d (ext ?w')"
    using user_sync_account [OF srv _ absent1 loop_secret_details [OF store sec loop] turn] acc by (simp add: recorded_views [OF d(1,2)])
  then have settled: "account_settled accounts rows inst (ext ?w')" by (simp add: recorded_views [OF d(1,2)])
  let ?I = "\<lambda>s. up s \<and> users s = users (ext w1) \<and> secrets s = secrets (ext w1)"
  have I: "?I (ext (final_world (user_align E h d secret False w1)))"
    by (rule maintainsD [OF create_keeps [OF op]]) (simp add: up1)
  have kept: "placed up users secrets inst ?n True F (ext w2)" if "?I (ext w2)" for w2
  proof -
    have "user_stored users inst ?n F (ext w2)"
      using that d by (auto simp: user_stored_def views)
    then show ?thesis
      using that sec secret_stored_cong [of secrets "ext w2" "ext w1"] by (simp add: placed_def views)
  qed
  have "placed up users secrets inst ?n True F (ext ?w')"
  proof (cases "user_align E h d secret False w1")
    case (Panic p w2)
    then show ?thesis
      using turn kept [of w2] I by (simp add: user_sync_absent [OF tables absent1] go_bind_def)
  next
    case (Ret x w2)
    obtain i err where x: "x = (i, err)" by fastforce
    have same: "same_account d i"
      using yields_Ret [OF create_same_account [OF ready] Ret] x by simp
    show ?thesis
    proof (cases "err = None")
      case False
      then show ?thesis
        using turn kept [of w2] I Ret x by (simp add: user_sync_absent [OF tables absent1] go_bind_Ret)
    next
      case True
      have "secret_stored secrets d True (ext w2)"
        using sec I Ret secret_stored_cong [of secrets "ext w2" "ext w1"] by simp
      moreover have "ext ?w' = after E (StatusDatabaseUser i) (ext w2)"
        using turn True Ret x by (simp add: user_sync_absent [OF tables absent1] go_bind_Ret bind_perform)
      ultimately show ?thesis
        using status_write(1) [OF op _ _ d(1,2,3) _ same, of "ext w2"] I Ret d(4) by simp
    qed
  qed
  with settled show ?thesis by simp
qed

lemma disowned_turn:
  assumes op: "user_world E up users secrets accounts rows adm inst"
    and names: "status_username inst \<noteq> []" "spec_username inst \<noteq> status_username inst"
    and st: "placed up users secrets inst (status_username inst) True F (ext w)" and fin: "userFinalizer \<in> F"
    and made: "account_settled accounts rows inst (ext w)" and w': "w' = user_turn E inst w"
  shows "placed up users secrets inst (status_username inst) True F (ext w') \<and> account_settled accounts rows inst (ext w') \<and>
     (\<forall>d. users (ext w') (object_key (du_Meta inst)) = Some d \<longrightarrow>
        ust_Message (du_Status d) = ''Ownership failed. Unable to update user.'') \<and>
     (\<exists>es. effects w' = effects w @ es \<and> own_statements es = [])"
proof -
  let ?n = "status_username inst"
  note srv = user_worldD(2) [OF op]
  from steps_begin [OF op st] obtain d h secret w1 es where
    run: "user_turn E inst w = final_world (user_steps E h d secret w1)" and d: "same_user_object inst d" "status_username d = ?n"
    "set (om_Finalizers (du_Meta d)) = F" "users (ext w1) (object_key (du_Meta d)) = Some d"
    and up1: "up (ext w1)" and acc1: "accounts (ext w1) = accounts (ext w)" and rows1: "rows (ext w1) = rows (ext w)"
    and sec: "secret_stored secrets d True (ext w1)" and loop: "loop_secret secrets d secret (ext w1)"
    and es: "effects w1 = effects w @ es" "own_statements es = []" .
  note views = same_user_object_views [OF d(1)] and tables = accounts_laws(1) [OF srv]
  have fin_d: "user_has_finalizer E d"
    using d(3) fin user_worldD(4) [OF op] by (simp add: user_has_finalizer_def finalizers_ok_def)
  have turn: "w' = final_world (user_sync E h d secret w1)"
    using w' run d(2) names(1) fin_d steps_run [OF UserMine_run [OF tables] loop_secret_ownership(1) [OF sec loop]] by simp
  obtain a where a: "accounts (ext w1) (status_username d) = Some a" "rows (ext w1) (om_UID (du_Meta d)) = Some (managed_user d)"
    using made acc1 rows1 d(2) recorded_views(3) [OF d(1,2)] views(2) by (auto simp: account_settled_def)
  have nm: "spec_username d \<noteq> status_username d" "status_username d \<noteq> []"
    using names d(2) views(7) by simp_all
  from disowned_sync [OF accounts_laws(1) [OF srv, of h] nm a, of secret] obtain i where
    sync: "user_sync E h d secret w1 = Ret None
      (w1\<lparr>ext := after E (StatusDatabaseUser i) (ext w1), effects := effects w1 @ [StatusDatabaseUser i]\<rparr>)"
    and i: "same_account d i" "ust_Message (du_Status i) = ''Ownership failed. Unable to update user.''" by blast
  have ext: "ext w' = after E (StatusDatabaseUser i) (ext w1)" and eff: "effects w' = effects w @ (es @ [StatusDatabaseUser i])"
    using turn sync es(1) by simp_all
  note last = status_write [OF op up1 d(4,1,2,3) sec i(1)]
  have "account_settled accounts rows inst (ext w')"
    using made acc1 rows1 write_keeps(2,3) [OF op up1, of "StatusDatabaseUser i"] by (simp add: ext account_settled_def)
  moreover have "\<exists>es. effects w' = effects w @ es \<and> own_statements es = []"
    using eff es(2) by (intro exI [of _ "es @ [StatusDatabaseUser i]"]) simp
  ultimately show ?thesis
    using last i(2) unfolding ext by simp
qed

text \<open>
  C39: an account that is made under the recorded name while the specification asks for another is disowned. When the specified name
  changes after the old one was claimed and before the account exists, and everything works, the next pass makes the account under
  the old name but saves the row under the new one. In any number of further passes (if nobody else interferes) the object may not manage
  the account: nothing is sent to the server, the status says that ownership failed, and the account is never renamed.
\<close>

theorem created_under_other_name_is_disowned:
  assumes op: "user_world E up users secrets accounts rows adm inst" and acc: "accepts_account E accounts rows inst"
    and names: "status_username inst \<noteq> []" "spec_username inst \<noteq> status_username inst"
    and st: "placed up users secrets inst (status_username inst) True F (ext w)" "userFinalizer \<in> F"
    and absent: "accounts (ext w) (status_username inst) = None"
    and w1: "w1 = user_turn E inst w" and w2: "w2 = (user_turn E inst ^^ k) w1"
  shows "accounts (ext w2) (status_username inst) \<noteq> None \<and>
     rows (ext w2) (om_UID (du_Meta inst)) = Some (managed_user inst) \<and> UserMine E h inst w2 = Ret False w2 \<and>
     user_stored users inst (status_username inst) F (ext w2) \<and>
     (0 < k \<longrightarrow> (\<forall>d. users (ext w2) (object_key (du_Meta inst)) = Some d \<longrightarrow>
        ust_Message (du_Status d) = ''Ownership failed. Unable to update user.'')) \<and>
     (\<exists>es. effects w2 = effects w1 @ es \<and> own_statements es = [])"
proof -
  have all: "placed up users secrets inst (status_username inst) True F (ext w2) \<and> account_settled accounts rows inst (ext w2) \<and>
     (0 < k \<longrightarrow> (\<forall>d. users (ext w2) (object_key (du_Meta inst)) = Some d \<longrightarrow>
        ust_Message (du_Status d) = ''Ownership failed. Unable to update user.'')) \<and>
     (\<exists>es. effects w2 = effects w1 @ es \<and> own_statements es = [])"
    unfolding w2
  proof (induction k)
    case 0
    show ?case
      using creating_turn [OF op acc names(1) st absent] unfolding w1 by (auto intro: exI [of _ "[]"])
  next
    case (Suc k)
    let ?w = "(user_turn E inst ^^ k) w1"
    obtain es where es: "effects ?w = effects w1 @ es" "own_statements es = []" using Suc by blast
    from disowned_turn [OF op names _ st(2) _ refl, of ?w] Suc obtain es' where
      kept: "placed up users secrets inst (status_username inst) True F (ext (user_turn E inst ?w))"
      "account_settled accounts rows inst (ext (user_turn E inst ?w))"
      "\<forall>d. users (ext (user_turn E inst ?w)) (object_key (du_Meta inst)) = Some d \<longrightarrow>
        ust_Message (du_Status d) = ''Ownership failed. Unable to update user.''"
      and es': "effects (user_turn E inst ?w) = effects ?w @ es'" "own_statements es' = []" by blast
    have "\<exists>es. effects (user_turn E inst ?w) = effects w1 @ es \<and> own_statements es = []"
      using es es' by (intro exI [of _ "es @ es'"]) simp
    with kept show ?case by simp
  qed
  then obtain a where a: "accounts (ext w2) (status_username inst) = Some a"
    "rows (ext w2) (om_UID (du_Meta inst)) = Some (managed_user inst)"
    by (auto simp: account_settled_def)
  with all disowned [OF accounts_laws(1) [OF user_worldD(2) [OF op]] names(2,1) a] show ?thesis
    by (simp add: placed_def)
qed

definition renamed_user :: DatabaseUser where
  "renamed_user = set_user_status (\<lambda>st. st\<lparr>ust_Username := ''al''\<rparr>)
     (sample_user\<lparr>du_Meta := (meta ''tenant1'' ''alice'' ''U'')\<lparr>om_Finalizers := [userFinalizer]\<rparr>\<rparr>)"

lemma created_under_other_name_is_disowned_witness:
  "let w2 = (user_turn sample_env renamed_user ^^ 3)
     (user_turn sample_env renamed_user (world_of (sample_cluster\<lparr>c_users := [renamed_user]\<rparr>)))
   in account_named (ext w2) ''al'' \<noteq> None \<and> UserMine sample_env 1 renamed_user w2 = Ret False w2"
proof -
  let ?w = "world_of (sample_cluster\<lparr>c_users := [renamed_user]\<rparr>)"
  have obj: "om_Namespace (du_Meta renamed_user) = ''tenant1''" "us_AdminConnection (du_Spec renamed_user) = admin_ref"
    "om_Name (du_Meta renamed_user) = ''alice''"
    "om_Finalizers (du_Meta renamed_user) = [userFinalizer]" "status_username renamed_user = ''al''" "\<not> user_deleted renamed_user"
    "us_Identification (du_Spec renamed_user) = None" "spec_username renamed_user = ''alice''"
    by (simp_all add: renamed_user_def set_user_status_def sample_user_def meta_def status_username_def spec_username_def user_deleted_def)
  have "placed sample_up user_object secret_object renamed_user ''al'' True {userFinalizer} (ext ?w)"
    using obj by (simp add: placed_def secret_stored_def user_stored_def user_object_def world_of_def keyed_def object_key_def
        same_user_object_def sample_up_def sample_cluster_def empty_cluster_def sample_admin_def meta_def)
  moreover have "account_named (ext ?w) ''al'' = None"
    by (simp add: world_of_def sample_cluster_def empty_cluster_def account_named_def)
  ultimately show ?thesis
    using created_under_other_name_is_disowned [OF plugin_world [OF obj(1,2)] sample_accepts_account _ _ _ _ _ refl refl,
        of "{userFinalizer}" ?w 3 1] obj by simp
qed

end
