(* ===== verification/Admission.thy ===== *)
theory Admission
  imports User_Correct
begin

text \<open>
  Tenants are kept apart by \<open>allowedNamespaces\<close>: an object in a namespace that its \<open>AdminConnection\<close> does not admit gets
  nowhere near the server, whatever phase it is in.
\<close>

text \<open>
  The reference leads to an \<open>AdminConnection\<close> (in the object's own namespace when it gives none) that is in another namespace
  and of whose patterns none admits the namespace.
\<close>

definition not_admitted :: "'s env \<Rightarrow> string \<Rightarrow> AdminConnectionRef \<Rightarrow> 's \<Rightarrow> bool" where
  "not_admitted E ns ref s \<longleftrightarrow>
     (\<exists>adm s'. k_get_AdminConnection E
          \<lparr>nn_Namespace = (if acr_Namespace ref = [] then ns else acr_Namespace ref), nn_Name = acr_Name ref\<rparr> s = (Inr adm, s') \<and>
        ns \<noteq> om_Namespace (ac_Meta adm) \<and> (\<forall>p \<in> set (acs_AllowedNamespaces (ac_Spec adm)). \<not> admits p ns))"

lemma resolve_not_admitted:
  assumes "not_admitted E ns ref (ext w)"
  shows "\<exists>s. resolve_admin E ns ref w = Ret (None, None, Some not_permitted) (w\<lparr>ext := s\<rparr>)"
proof -
  obtain adm s where "k_get_AdminConnection E \<lparr>nn_Namespace = admin_namespace ns ref, nn_Name = acr_Name ref\<rparr> (ext w) = (Inr adm, s)"
    and "\<not> AllowedNamespace adm ns"
    using assms by (auto simp: not_admitted_def AllowedNamespace_iff admin_namespace_def split: if_splits)
  then show ?thesis
    by (intro exI [of _ s]) (simp add: resolve_admin_def GetAdminConnection_def go_bind_assoc bind_ask)
qed

lemma deletions_without_connection:
  "final_world (database_deletion E None None d w) = w" "final_world (user_deletion E None None u w) = w"
  by (simp_all add: database_deletion_def user_deletion_def)

text \<open>
  C26: isolation of tenants. A pass of either reconciler over an object whose namespace the \<open>AdminConnection\<close> it refers to does not
  admit (it is not the namespace of the connection, not listed, and does not begin with a listed prefix) makes no request of a MySQL
  server, opens and caches no connection, and writes no secret and no other object: its one request is the status update that says so,
  and none at all when the object is marked for deletion.
\<close>

theorem unadmitted_namespace_reaches_nothing:
  "(fst (k_get_Database E req (ext w)) = Inr d \<and>
      not_admitted E (om_Namespace (db_Meta d)) (ds_AdminConnection (db_Spec d)) (snd (k_get_Database E req (ext w))) \<longrightarrow>
    connections (final_world (database_Reconcile E req w)) = connections w \<and>
    effects (final_world (database_Reconcile E req w)) = effects w @
      (if om_DeletionTimestamp (db_Meta d) = None
       then [StatusDatabase (db_message ''Failed to further reconcile against current admin connection.'' d)] else [])) \<and>
   (fst (k_get_DatabaseUser E req (ext w)) = Inr u \<and>
      not_admitted E (om_Namespace (du_Meta u)) (us_AdminConnection (du_Spec u)) (snd (k_get_DatabaseUser E req (ext w))) \<longrightarrow>
    connections (final_world (user_Reconcile E req w)) = connections w \<and>
    effects (final_world (user_Reconcile E req w)) = effects w @
      (if om_DeletionTimestamp (du_Meta u) = None
       then [StatusDatabaseUser (user_message ''Failed to further reconcile against current admin connection.'' u)] else []))"
proof (intro conjI impI; elim conjE)
  let ?w = "w\<lparr>ext := snd (k_get_Database E req (ext w))\<rparr>"
  assume get: "fst (k_get_Database E req (ext w)) = Inr d"
    and "not_admitted E (om_Namespace (db_Meta d)) (ds_AdminConnection (db_Spec d)) (snd (k_get_Database E req (ext w)))"
  then obtain s where
    "resolve_admin E (om_Namespace (db_Meta d)) (ds_AdminConnection (db_Spec d)) ?w = Ret (None, None, Some not_permitted) (?w\<lparr>ext := s\<rparr>)"
    using resolve_not_admitted [of E _ _ ?w] by auto
  then have run: "database_Reconcile E req w = database_pass E d None None (Some not_permitted) (w\<lparr>ext := s\<rparr>)"
    using get by (simp add: database_Reconcile_def bind_ask go_bind_Ret)
  show "connections (final_world (database_Reconcile E req w)) = connections w"
    and "effects (final_world (database_Reconcile E req w)) = effects w @
      (if om_DeletionTimestamp (db_Meta d) = None
       then [StatusDatabase (db_message ''Failed to further reconcile against current admin connection.'' d)] else [])"
    using deletions_without_connection(1) [of E d "w\<lparr>ext := s\<rparr>"]
    by (auto simp: run database_pass_def database_unreachable_def bind_perform Let_def split: option.split)
next
  let ?w = "w\<lparr>ext := snd (k_get_DatabaseUser E req (ext w))\<rparr>"
  assume get: "fst (k_get_DatabaseUser E req (ext w)) = Inr u"
    and "not_admitted E (om_Namespace (du_Meta u)) (us_AdminConnection (du_Spec u)) (snd (k_get_DatabaseUser E req (ext w)))"
  then obtain s where
    "resolve_admin E (om_Namespace (du_Meta u)) (us_AdminConnection (du_Spec u)) ?w = Ret (None, None, Some not_permitted) (?w\<lparr>ext := s\<rparr>)"
    using resolve_not_admitted [of E _ _ ?w] by auto
  then have run: "user_Reconcile E req w = user_pass E u None None (Some not_permitted) (w\<lparr>ext := s\<rparr>)"
    using get by (simp add: user_Reconcile_def bind_ask go_bind_Ret)
  show "connections (final_world (user_Reconcile E req w)) = connections w"
    and "effects (final_world (user_Reconcile E req w)) = effects w @
      (if om_DeletionTimestamp (du_Meta u) = None
       then [StatusDatabaseUser (user_message ''Failed to further reconcile against current admin connection.'' u)] else [])"
    using deletions_without_connection(2) [of E u "w\<lparr>ext := s\<rparr>"]
    by (auto simp: run user_pass_def user_unreachable_def bind_perform Let_def split: option.split)
qed

text \<open>The sample with an \<open>AdminConnection\<close> that admits the namespaces beginning with \<open>blog-\<close> only.\<close>

definition closed_cluster :: cluster where
  "closed_cluster = sample_cluster\<lparr>c_admins :=
     [sample_admin\<lparr>ac_Spec := (ac_Spec sample_admin)\<lparr>acs_AllowedNamespaces := [''blog-*'']\<rparr>\<rparr>]\<rparr>"

lemma unadmitted_namespace_reaches_nothing_witness:
  "effects (final_world (user_Reconcile sample_env \<lparr>nn_Namespace = ''tenant1'', nn_Name = ''alice''\<rparr> (world_of closed_cluster))) =
     [StatusDatabaseUser (user_message ''Failed to further reconcile against current admin connection.'' sample_user)]"
proof -
  let ?req = "\<lparr>nn_Namespace = ''tenant1'', nn_Name = ''alice''\<rparr>"
  have get: "k_get_DatabaseUser sample_env ?req closed_cluster = (Inr sample_user, closed_cluster)"
    by (simp add: sample_env_def closed_cluster_def sample_cluster_def empty_cluster_def found_def keyed_def sample_user_def meta_def)
  have "not_admitted sample_env ''tenant1'' admin_ref closed_cluster"
    by (simp add: not_admitted_def sample_env_def closed_cluster_def sample_cluster_def empty_cluster_def found_def keyed_def
        sample_admin_def admin_ref_def meta_def admits_def append_eq_Cons_conv)
  moreover have "om_Namespace (du_Meta sample_user) = ''tenant1''" "us_AdminConnection (du_Spec sample_user) = admin_ref"
    "om_DeletionTimestamp (du_Meta sample_user) = None"
    by (simp_all add: sample_user_def meta_def)
  ultimately show ?thesis
    using unadmitted_namespace_reaches_nothing [of sample_env ?req "world_of closed_cluster" sample_database sample_user] get
    by (simp add: world_of_def)
qed

end
