(* ===== verification/Orphaned_Schemata.thy ===== *)
theory Orphaned_Schemata
  imports Operator_Run Database_Spec
begin

text \<open>
  What becomes of a schema whose managed row could not be written. \<open>databaseCreate\<close> creates the schema first and
  records it in a second request; when the second fails, the error is only logged.
\<close>

text \<open>The server creates the schema of the object but refuses its row.\<close>

definition refuses_row :: "'s env \<Rightarrow> 's schemata \<Rightarrow> 's database_rows \<Rightarrow> Database \<Rightarrow> bool" where
  "refuses_row E schemas rows inst \<longleftrightarrow>
     (\<forall>h s. schemas s (ds_Name (db_Spec inst)) = None \<longrightarrow>
        tx_Error (fst (gorm_exec E h (create_database_stmt (db_Spec inst)) s)) = None) \<and>
     (\<forall>h s. rows (snd (gorm_create_ManagedDatabase E h (managed_database inst) s)) = rows s)"

text \<open>The pass that creates the schema without its row, up to the status.\<close>

lemma create_without_row:
  assumes srv: "schemata_server E schemas rows" and plain: "plain_spec (db_Spec inst)"
    and refuse: "refuses_row E schemas rows inst"
    and absent: "schemas (ext w) (ds_Name (db_Spec inst)) = None"
  obtains i r s es
  where "databaseCreate E h inst w = Ret (i, True, None) (w\<lparr>ext := s, effects := effects w @ es\<rparr>)"
    and "schemas s = (schemas (ext w))(ds_Name (db_Spec inst) \<mapsto> r)" and "rows s = rows (ext w)"
proof -
  let ?n = "ds_Name (db_Spec inst)" and ?q = "create_database_stmt (db_Spec inst)"
  let ?i = "set_db_status (\<lambda>st. if ds_Collate (db_Spec inst) \<noteq> [] then st\<lparr>dst_Collate := ds_Collate (db_Spec inst)\<rparr> else st)
     (set_db_status (\<lambda>st. if ds_CharacterSet (db_Spec inst) \<noteq> [] then st\<lparr>dst_CharacterSet := ds_CharacterSet (db_Spec inst)\<rparr> else st) inst)"
  obtain tx s1 where exec: "gorm_exec E h ?q (ext w) = (tx, s1)" by fastforce
  then have "tx_Error tx = None" using refuse absent unfolding refuses_row_def by (metis fst_conv)
  with server_create [OF srv plain exec] obtain r where s1: "schemas s1 = (schemas (ext w))(?n \<mapsto> r)" "rows s1 = rows (ext w)"
    by auto
  have row: "managed_database ?i = managed_database inst" by (simp add: managed_database_def)
  obtain tx' s2 where create: "gorm_create_ManagedDatabase E (tx_DB tx) (managed_database inst) s1 = (tx', s2)" by fastforce
  then have s2: "schemas s2 = schemas s1" "rows s2 = rows s1"
    using server_rows(1) [OF srv, of s2 "tx_DB tx" "managed_database inst" s1] refuse
    by (auto simp: refuses_row_def) (metis snd_conv)
  let ?s3 = "snd (gorm_commit E (tx_DB tx') s2)"
  have s3: "schemas ?s3 = schemas s2" "rows ?s3 = rows s2"
    using server_frame [OF srv, of "Commit (tx_DB tx')" s2] by simp_all
  let ?es = "[Exec h ?q, CreateManagedDatabase (tx_DB tx) (managed_database inst), Commit (tx_DB tx')]"
  have "databaseCreate E h inst w = databaseExists E h ?i (w\<lparr>ext := ?s3, effects := effects w @ ?es\<rparr>)"
    using exec create \<open>tx_Error tx = None\<close> row
    by (simp add: databaseCreate_def Let_def bind_perform cong del: if_weak_cong)
  also have "\<dots> = Ret (seen_schema r ?i, True, None) (w\<lparr>ext := ?s3, effects := effects w @ ?es\<rparr>)"
    by (simp add: databaseExists_run [OF server_tables [OF srv]] s3 s2 s1)
  finally show thesis
    by (rule that) (simp_all add: s3 s2 s1)
qed

text \<open>
  C13: a schema is orphaned when its row cannot be written. The object has a plain name other than the control database, and neither a
  schema nor a row has that name. When the server creates the schema but refuses the managed row, the working branch ends without an
  error and the status says that the database was created; and from then on, through any run of the operator over \<open>Database\<close> objects with
  plain names, with others that leave the schema and its rows alone, the schema belongs to nobody: it is neither altered nor dropped,
  not even when the object is deleted, and no row names it.
\<close>

theorem unrecorded_schema_is_orphaned:
  assumes srv: "schemata_server E schemas rows" and plain: "plain_spec (db_Spec inst)"
    and name: "ds_Name (db_Spec inst) = n" "n \<noteq> DatabaseName"
    and refuse: "refuses_row E schemas rows inst" and absent: "schemas (ext w) n = None"
    and unnamed: "\<And>u row. rows (ext w) u = Some row \<Longrightarrow> md_DatabaseName row \<noteq> n"
    and run: "(operator_step E (\<lambda>inst. plain_spec (db_Spec inst)) oku others)\<^sup>*\<^sup>* (final_world (database_sync E adm h inst w)) w'"
    and others: "\<And>s s' r. others s s' \<Longrightarrow> foreign schemas rows n r s \<Longrightarrow> foreign schemas rows n r s'"
  shows "\<exists>i r es w1. database_sync E adm h inst w = Ret None w1 \<and> effects w1 = effects w @ es @ [StatusDatabase i] \<and>
     dst_Message (db_Status i) = ''Created database'' \<and>
     schemas (ext w1) n = Some r \<and> schemas (ext w') n = Some r \<and>
     (\<forall>u row. rows (ext w') u = Some row \<longrightarrow> md_DatabaseName row \<noteq> n)"
proof -
  note tables = server_tables [OF srv]
  let ?t = "fst (now E (ext w))" and ?v = "w\<lparr>ext := snd (now E (ext w))\<rparr>"
  let ?i = "database_observed adm ?t inst"
  have clock: "schemas (snd (now E s)) = schemas s \<and> rows (snd (now E s)) = rows s" for s
    by (rule server_reading [OF srv reading.clock])
  have i: "db_Spec ?i = db_Spec inst" "managed_database ?i = managed_database inst"
    by (simp_all add: managed_database_def)
  have "refuses_row E schemas rows ?i" "plain_spec (db_Spec ?i)" "schemas (ext ?v) (ds_Name (db_Spec ?i)) = None"
    using refuse plain absent name clock by (simp_all add: refuses_row_def i)
  from create_without_row [OF srv this(2,1,3), of h] obtain j r s es where
    cr: "databaseCreate E h ?i ?v = Ret (j, True, None) (?v\<lparr>ext := s, effects := effects ?v @ es\<rparr>)"
    and s: "schemas s = (schemas (ext ?v))(ds_Name (db_Spec ?i) \<mapsto> r)" "rows s = rows (ext ?v)" .
  let ?j = "set_db_status (\<lambda>st. st\<lparr>dst_CreationTime := Some (fst (now E s)), dst_Message := ''Created database''\<rparr>) j"
  let ?s = "snd (k_status_Database E ?j (snd (now E s)))"
  have sync: "database_sync E adm h inst w = Ret None (w\<lparr>ext := ?s, effects := effects w @ es @ [StatusDatabase ?j]\<rparr>)"
    using cr absent name
    by (simp add: database_sync_def go_bind_Ret databaseExists_run [OF tables] bind_ask database_align_def)
       (simp add: go_bind_def ask_def perform_def split_beta)
  have views: "schemas ?s = (schemas (ext w))(n \<mapsto> r)" "rows ?s = rows (ext w)"
    using server_frame [OF srv, of "StatusDatabase ?j" "snd (now E s)"] clock s name(1) by simp_all
  then have "foreign schemas rows n r ?s"
    using unnamed by (simp add: foreign_def)
  then have "foreign schemas rows n r (ext w')"
    using run_out_of_reach [OF foreign_out_of_reach [OF srv _ name(2)] others run] name(1) plain sync
    by (auto simp: plain_spec_def plain_name_def)
  then show ?thesis
    using sync views(1) by (auto simp: foreign_def)
qed

text \<open>A server on which the table of the managed rows is read-only: the object is made, deleted, and the schema stays.\<close>

definition no_rows_env :: "cluster env" where
  "no_rows_env = sample_env\<lparr>gorm_create_ManagedDatabase := (\<lambda>h r s. refused s)\<rparr>"

lemma no_rows_simps [simp]:
  "gorm_exec no_rows_env = gorm_exec sample_env" "gorm_first_schema no_rows_env = gorm_first_schema sample_env"
  "gorm_find_ManagedDatabase no_rows_env = gorm_find_ManagedDatabase sample_env"
  "gorm_create_ManagedDatabase no_rows_env h r s = refused s"
  "gorm_delete_ManagedDatabase no_rows_env = gorm_delete_ManagedDatabase sample_env"
  by (simp_all add: no_rows_env_def)

lemma no_rows_after: "\<not> changes_schemata e \<Longrightarrow> after no_rows_env e s = after sample_env e s"
  by (cases e) (simp_all add: no_rows_env_def changes_schemata_def)

lemma no_rows_reading: "reading no_rows_env s s' \<Longrightarrow> s' = s"
  by (erule reading_cases) (simp_all add: no_rows_env_def sample_env_def sample_raw_def)

lemma no_rows_server: "schemata_server no_rows_env schema_named database_row"
proof -
  note srv = sample_server [unfolded schemata_server_def]
  have "schemata_frame no_rows_env schema_named database_row"
    unfolding schemata_frame_def
  proof (intro conjI allI impI)
    show "schema_tables_ok no_rows_env h schema_named database_row" for h
      using sample_schema_tables [of h] by (simp add: schema_tables_ok_def)
    show "same_schemata schema_named database_row s s'" if "reading no_rows_env s s'" for s s'
      using no_rows_reading [OF that] by (simp add: same_schemata_def)
    show "same_schemata schema_named database_row s (after no_rows_env e s)" if "\<not> changes_schemata e" for e s
      using sample_frame that by (simp add: schemata_frame_def no_rows_after)
  qed
  moreover have "rows_ok no_rows_env schema_named database_row"
    using sample_rows by (auto simp: rows_ok_def refused_def)
  ultimately show ?thesis
    using srv by (simp add: schemata_server_def create_ok_def alter_ok_def drop_ok_def control_ok_def)
qed

definition delete_object :: "cluster \<Rightarrow> cluster" where
  "delete_object s = s\<lparr>c_databases := [dying_database]\<rparr>"

lemma delete_object_keeps:
  "foreign schema_named database_row n r s \<Longrightarrow> foreign schema_named database_row n r (delete_object s)"
  by (simp add: foreign_def delete_object_def schema_named_def database_row_def split: if_splits)

lemma no_rows_refuses: "refuses_row no_rows_env schema_named database_row sample_database"
proof -
  have "tx_Error (fst (gorm_exec sample_env h (create_database_stmt (db_Spec sample_database)) s)) = None"
    if "schema_named s (ds_Name (db_Spec sample_database)) = None" for h s
    using sample_accepts that unfolding accepts_def by (metis prod.collapse)
  then show ?thesis
    by (simp add: refuses_row_def refused_def)
qed

lemma unrecorded_schema_is_orphaned_witness:
  "schema_named (ext (final_world (database_Reconcile no_rows_env \<lparr>nn_Namespace = ''tenant1'', nn_Name = ''mydb''\<rparr>
     ((\<lambda>w. w\<lparr>ext := delete_object (ext w)\<rparr>)
        (final_world (database_sync no_rows_env sample_admin 1 sample_database (world_of sample_cluster))))))) ''shop'' \<noteq> None"
proof -
  let ?req = "\<lparr>nn_Namespace = ''tenant1'', nn_Name = ''mydb''\<rparr>"
  let ?w1 = "final_world (database_sync no_rows_env sample_admin 1 sample_database (world_of sample_cluster))"
  let ?w2 = "?w1\<lparr>ext := delete_object (ext ?w1)\<rparr>"
  let ?step = "operator_step no_rows_env (\<lambda>inst. plain_spec (db_Spec inst)) (\<lambda>_. True) (\<lambda>s s'. s' = delete_object s)"
  have plain: "plain_spec (db_Spec sample_database)" and name: "ds_Name (db_Spec sample_database) = ''shop''"
    by (simp_all add: plain_spec_def plain_name_def plain_word_def sample_database_def)
  have "k_get_Database no_rows_env ?req (ext ?w2) = (Inr dying_database, ext ?w2)"
    by (simp add: no_rows_env_def delete_object_def found_def keyed_def dying_database_def meta_def)
  moreover have "plain_spec (db_Spec dying_database)"
    using plain by (simp add: dying_database_def)
  ultimately have "?step ?w2 (final_world (database_Reconcile no_rows_env ?req ?w2))"
    by (intro operator_step.database) simp
  moreover have "?step ?w1 ?w2" by (rule operator_step.elsewhere) simp
  ultimately have run: "?step\<^sup>*\<^sup>* ?w1 (final_world (database_Reconcile no_rows_env ?req ?w2))" by simp
  have "schema_named (ext (world_of sample_cluster)) ''shop'' = None"
    "database_row (ext (world_of sample_cluster)) u = None" for u
    by (simp_all add: world_of_def sample_cluster_def empty_cluster_def schema_named_def database_row_def)
  then show ?thesis
    using unrecorded_schema_is_orphaned [OF no_rows_server plain name _ no_rows_refuses _ _ run] delete_object_keeps
    by (force simp: DatabaseName_def)
qed

end
