(* ===== verification/Connection_Pools.thy ===== *)
theory Connection_Pools
  imports Reaching_Server Connection_Correct
begin

text \<open>
  What becomes of the pools that \<open>sql.Open\<close> makes. The record of effects has every pool that is opened and every pool that is
  closed; the cache holds at most one handle for each \<open>AdminConnection\<close>.
\<close>

definition opened :: "effect list \<Rightarrow> nat" where
  "opened es = length (filter (\<lambda>e. \<exists>d. e = OpenConnection d) es)"

definition closed :: "effect list \<Rightarrow> nat" where
  "closed es = length (filter (\<lambda>e. \<exists>d. e = CloseConnection d) es)"

lemma pool_counts [simp]:
  "opened [] = 0" "closed [] = 0" "opened (xs @ ys) = opened xs + opened ys" "closed (xs @ ys) = closed xs + closed ys"
  "opened [OpenConnection d] = 1" "closed [OpenConnection d] = 0"
  by (simp_all add: opened_def closed_def)

section \<open>A server that does not answer\<close>

text \<open>The driver makes its pools, and no pool answers; nothing that a pass does on the way changes this.\<close>

definition silent :: "'s env \<Rightarrow> ('s \<Rightarrow> bool) \<Rightarrow> bool" where
  "silent E down \<longleftrightarrow>
     (\<forall>s. down s \<longrightarrow> (\<forall>d. \<exists>db. fst (sql_open E d s) = Inr db) \<and> (\<forall>db. fst (sql_ping E db s) \<noteq> None)) \<and>
     stable E (\<lambda>e. \<exists>d. e = OpenConnection d) down"

definition readable_config :: "'s env \<Rightarrow> ('s \<Rightarrow> bool) \<Rightarrow> AdminConnection \<Rightarrow> bool" where
  "readable_config E down adm \<longleftrightarrow>
     readable_secret E down (om_Namespace (ac_Meta adm)) (acs_AdminUser (ac_Spec adm)) \<and>
     readable_secret E down (om_Namespace (ac_Meta adm)) (acs_AdminPassword (ac_Spec adm))"

lemma silent_config:
  assumes "silent E down" and "readable_config E down adm" and "down (ext w)"
  obtains cfg w1 where "getDbConfig E adm w = Ret (Inr cfg) w1" and "down (ext w1)" and "effects w1 = effects w"
    and "connections w1 = connections w"
proof -
  have st: "stable E (\<lambda>e. \<exists>d. e = OpenConnection d) down" using assms(1) by (simp add: silent_def)
  have "delivers down (\<lambda>r. \<exists>cfg. r = Inr cfg) down (getDbConfig E adm)"
    using config_delivers_secrets [OF st] assms(2) by (simp add: readable_config_def)
  then obtain r w1 where run: "getDbConfig E adm w = Ret r w1" and r: "\<exists>cfg. r = Inr cfg" and "down (ext w1)"
    using assms(3) by (rule deliversE)
  moreover have "observes (getDbConfig E adm)"
    by (simp add: observesI)
  ultimately show thesis
    using that observes_Ret by metis
qed

lemma silent_turn:
  assumes sil: "silent E down" and cfg: "readable_config E down adm" and w: "down (ext w)"
    and none: "connections w (om_UID (ac_Meta adm)) = None" and w': "w' = final_world (GetDatabaseConnection E adm w)"
  shows "down (ext w') \<and> connections w' (om_UID (ac_Meta adm)) = None \<and>
     (\<exists>err. returned (GetDatabaseConnection E adm w) = Some (Inl err)) \<and>
     (\<exists>d. effects w' = effects w @ [OpenConnection d])"
proof -
  let ?u = "om_UID (ac_Meta adm)"
  obtain cfg w1 where c: "getDbConfig E adm w = Ret (Inr cfg) w1" "down (ext w1)" "effects w1 = effects w"
    "connections w1 = connections w"
    using silent_config [OF sil cfg w] .
  let ?d = "format_dsn E cfg"
  obtain db s where o: "sql_open E ?d (ext w1) = (Inr db, s)"
    using sil c(2) unfolding silent_def by (metis prod.collapse)
  have s: "down s"
    using sil c(2) stable_step(2) [of E "\<lambda>e. \<exists>d. e = OpenConnection d" down "OpenConnection ?d" "ext w1"] o
    by (simp add: silent_def)
  obtain err s2 where p: "sql_ping E db s = (Some err, s2)"
    using sil s unfolding silent_def by (metis not_None_eq prod.collapse)
  have s2: "down s2"
    using sil s stable_step(1) [OF _ reading.ping, of E _ down s db] p by (auto simp: silent_def)
  let ?w = "w1\<lparr>ext := s2, connections := (connections w1)(?u := None), effects := effects w1 @ [OpenConnection ?d]\<rparr>"
  have "GetDatabaseConnection E adm w = Ret (Inl err) ?w"
    using c(1,4) none o p
    by (simp add: GetDatabaseConnection_def go_bind_Ret bind_cache_lookup needs_new_connection_def bind_cache_delete
        createFreshConnection_def go_bind_assoc bind_perform bind_ask)
  then show ?thesis
    using s2 c(3) by (simp add: w')
qed

text \<open>
  C30: pools leak while the server does not answer. When \<open>sql.Open\<close> succeeds and the first ping fails, each attempt to connect
  returns an error, leaves nothing in the cache and makes one more pool that nobody closes: after \<open>k\<close> attempts \<open>k\<close> pools are
  open.
\<close>

theorem silent_server_leaks_pools:
  assumes "silent E down" and "readable_config E down adm" and "down (ext w)"
    and "connections w (om_UID (ac_Meta adm)) = None"
    and "w' = ((\<lambda>w. final_world (GetDatabaseConnection E adm w)) ^^ k) w"
  shows "\<exists>es. effects w' = effects w @ es \<and> opened es = k \<and> closed es = 0 \<and>
     connections w' (om_UID (ac_Meta adm)) = None"
proof -
  have "down (ext (((\<lambda>w. final_world (GetDatabaseConnection E adm w)) ^^ k) w)) \<and>
      connections (((\<lambda>w. final_world (GetDatabaseConnection E adm w)) ^^ k) w) (om_UID (ac_Meta adm)) = None \<and>
      (\<exists>es. effects (((\<lambda>w. final_world (GetDatabaseConnection E adm w)) ^^ k) w) = effects w @ es \<and> opened es = k \<and> closed es = 0)"
  proof (induction k)
    case 0
    show ?case using assms(3,4) by auto
  next
    case (Suc k)
    then obtain es where es: "effects (((\<lambda>w. final_world (GetDatabaseConnection E adm w)) ^^ k) w) = effects w @ es"
      "opened es = k" "closed es = 0" by blast
    from Suc silent_turn [OF assms(1,2) _ _ refl, of "((\<lambda>w. final_world (GetDatabaseConnection E adm w)) ^^ k) w"]
    obtain d where "effects (((\<lambda>w. final_world (GetDatabaseConnection E adm w)) ^^ Suc k) w) = (effects w @ es) @ [OpenConnection d]"
      using es(1) by auto
    with Suc es silent_turn [OF assms(1,2) _ _ refl, of "((\<lambda>w. final_world (GetDatabaseConnection E adm w)) ^^ k) w"]
    show ?case by (auto intro!: exI [of _ "es @ [OpenConnection d]"])
  qed
  then show ?thesis using assms(5) by blast
qed

text \<open>The sample cluster with its server down.\<close>

lemma sample_silent:
  "silent sample_env (\<lambda>s. \<not> c_up s)" "readable_config sample_env (\<lambda>s. \<not> c_up s) sample_admin"
proof -
  have "stable sample_env (\<lambda>e. \<exists>d. e = OpenConnection d) (\<lambda>s. \<not> c_up s)"
    unfolding stable_def using sample_reading by (auto simp: sample_env_def)
  then show "silent sample_env (\<lambda>s. \<not> c_up s)"
    by (simp add: silent_def) (simp add: sample_env_def)
  show "readable_config sample_env (\<lambda>s. \<not> c_up s) sample_admin"
    by (simp add: readable_config_def readable_secret_def sample_admin_def)
qed

lemma silent_server_leaks_pools_witness:
  "opened (effects (((\<lambda>w. final_world (GetDatabaseConnection sample_env sample_admin w)) ^^ 3)
     (world_of (sample_cluster\<lparr>c_up := False\<rparr>)))) = 3"
  using silent_server_leaks_pools [OF sample_silent, of "world_of (sample_cluster\<lparr>c_up := False\<rparr>)" _ 3]
  by (fastforce simp: world_of_def)

end
