(* ===== verification/Spec2Isabelle.thy ===== *)
theory Spec2Isabelle
  imports Names_Correct Database_Spec Startup User_Errors Grants_Correct User_Progress Operator_Run
    Copied_Objects Registration Races Database_Lifecycle User_Failures Admission Orphaned_Schemata Connection_Pools
begin

text \<open>
  A model of the MySQL DBA operator, a Kubernetes operator in Go that keeps schemata and accounts of MySQL
  servers in line with custom resources, and what its code guarantees.

  The program. An \<open>AdminConnection\<close> says how to reach a server and which namespaces may use it, a
  \<open>Database\<close> asks for a schema, a \<open>DatabaseUser\<close> for an account with its privileges. Three reconcilers
  (\<open>controllers/\<close>) bring the server in line, one request at a time each; they share one cache of
  connections. A control schema \<open>zz_dba_operator\<close> on every server holds a row for each schema and account
  that the operator made (\<open>orm/model.go\<close>); a schema or an account may be managed by the object whose row names
  it (\<open>DatabaseMine\<close>, \<open>UserMine\<close> in \<open>api/v1alpha1/adminconnection_types.go\<close>). A webhook
  validates \<open>Database\<close> objects.

  The model. A Go function that talks to the outside is a function of the world that returns a value or
  panics (\<open>Prelude\<close>). The world (\<open>Environment\<close>) is the outside state, the connection cache, and the list of
  requests made so far, which no definition reads. Each call of code that is not in the repository (Kubernetes
  client, gorm and driver, \<open>controllerutil\<close>, clock, random source, map iteration order) is a field of
  the record \<open>env\<close>, a parameter of every definition that makes the call. The loop context that the Go methods
  change in place is the instance that each operation returns. Nil pointers and nil slices are \<open>None\<close>, a dereference of
  nil and a failed type assertion are panics. Statements of the log are left out, except where evaluating their arguments can
  panic. Strings are byte strings.

  Theories and code.
  \<^item> \<open>Api_Types\<close>: the resources (\<open>api/v1alpha1/*_types.go\<close>) and the rows (\<open>orm/model.go\<close>).
  \<^item> \<open>Common\<close>, \<open>Sql_Text\<close>: \<open>api/v1alpha1/common.go\<close> (secrets, \<open>GeneratePassword\<close>, \<open>Escape\<close>) and the server's
    rules for quoted literals.
  \<^item> \<open>Orm\<close>, \<open>Admin_Connection\<close>: existence lookups, the permitted namespaces, the configuration, the connection
    cache, ownership.
  \<^item> \<open>Charsets\<close>, \<open>Database_Webhook\<close>: the catalog of character sets, from the query to the webhook; the
    name rule with Go's decoding of UTF-8.
  \<^item> \<open>Admin_Controller\<close>, \<open>Controller_Base\<close>, \<open>Database_Controller\<close>, \<open>Database_User_Controller\<close>: the three
    \<open>Reconcile\<close> functions and all they call, one definition per method, phase or statement.
  \<^item> \<open>Watches\<close>, \<open>Startup\<close>, \<open>Registration\<close>: which events enqueue which requests; \<open>main.go\<close>; \<open>groupversion_info.go\<close> and the
    registration of the types.
  \<^item> \<open>Go_Heap\<close>, \<open>Deep_Copy\<close>: memory with pointers and slice headers, and over it the generated deep copies
    (\<open>zz_generated.deepcopy.go\<close>), one definition per function. The reconcilers are modelled on values; \<open>Cached_User\<close> has the
    assignments of \<open>databaseuser_controller.go\<close> through pointers in memory.

  What is shown, from the parts to the whole.
  \<^item> \<open>Connection_Correct\<close>: passwords, admission, the cache against the handles it returns, ownership over the tables.
  \<^item> \<open>Statement_Literals\<close>, \<open>Names_Correct\<close>: the statements as the server's lexer reads them; where quoting is
    missing (schema names with a backtick, privileges).
  \<^item> \<open>Webhook_Correct\<close>, \<open>Admin_Correct\<close>: the webhook accepts what the server listed; one status update per
    pass over a connection.
  \<^item> \<open>Database_Correct\<close>, \<open>User_Effects\<close>, \<open>User_Correct\<close>, \<open>User_Errors\<close>: what a pass may do at all, the order of
    the phases, deletion, lost errors and panics.
  \<^item> \<open>Database_Spec\<close>, \<open>Grants_Correct\<close>, \<open>User_Progress\<close>: the working branches against a decision table and a plan, and
    that they reach their goal.
  \<^item> \<open>Reaching_Server\<close>, \<open>Object_Store\<close>, \<open>Database_Lifecycle\<close>, \<open>User_Lifecycle\<close>: whole passes, from the request to the last write,
    one after the other, over an object that the API server keeps between them: a new \<open>Database\<close> is in sync from its third
    pass on, a \<open>DatabaseUser\<close> has its account one pass after the last thing that its setup lacked, and the pass that deletes a
    \<open>Database\<close> leaves nothing of it.
  \<^item> \<open>Admission\<close>: an object in a namespace that its \<open>AdminConnection\<close> does not admit reaches no server.
  \<^item> \<open>User_Failures\<close>: objects for which every further pass fails alike, by a panic or by a failed check of ownership.
  \<^item> \<open>Orphaned_Schemata\<close>, \<open>Connection_Pools\<close>: what an error in the middle leaves behind, a schema without a managed row and
    an open connection pool for each failed pass.
  \<^item> \<open>Trace\<close>, \<open>Exact_Records\<close>, \<open>Server\<close>, \<open>Foreign_Schemata\<close>, \<open>Foreign_Accounts\<close>, \<open>Operator_Run\<close>: the record of
    requests is exact, so invariants of the server follow from bounds on the requests: what the operator did
    not make stays out of its reach. The theorems below are about whole runs.
  \<^item> \<open>Interference\<close>, \<open>Races\<close>: the same with a step of others before every single request of a pass, and what can go wrong
    between a check and the statement that rests on it.
  \<^item> \<open>Deep_Copying\<close>, \<open>Deep_Copy_Views\<close>, \<open>Deep_Copy_Correct\<close>, \<open>Cached_User\<close>, \<open>Copied_Objects\<close>: the contract of a deep copy, carried
    from the elements of a slice, the target of a pointer and the fields of a struct to the whole object: type
    safe, equal, and isolated, so that the writes of a pass do to its instance what the value model says and do not reach the
    client's cache.
  \<^item> \<open>Sample_Cluster\<close>, \<open>Sample_Server\<close>: one executable outside that satisfies the hypotheses, for the
    witnesses.

  Interfaces are locales, interpreted on the model: \<open>quoting\<close> (escaping against the lexer), \<open>existence_check\<close>
  (the two lookups), \<open>charset_catalog\<close> (producer and consumer of the catalog), \<open>deletion_flow\<close> (the end
  of an object, for two reconcilers), \<open>admin_watch\<close> (the loop of two controllers over their objects), \<open>block_kind\<close> (memory blocks of
  one type), \<open>deep_value\<close> and \<open>deep_copying\<close> (what a deep copy promises).

  Hypotheses. Theorems that speak of the server name what they take for granted: \<open>schema_tables_ok\<close> and \<open>account_tables_ok\<close>
  (gorm reads the tables as it documents), \<open>schemata_server\<close> and \<open>accounts_server\<close> (which requests change
  which schemata, accounts and rows; a call that fails may have taken place), \<open>finalizers_ok\<close>, \<open>map_order_ok\<close>,
  \<open>rand_int_ok\<close>, and \<open>library_copies\<close> (the deep copies of the Kubernetes library's own structs). The theorems on whole passes take
  more for granted: \<open>database_store\<close> and \<open>user_store\<close> (the API server keeps objects and secrets, takes updates of the current version,
  \<open>SetControllerReference\<close> does what it says), \<open>reaches_server\<close> (the connection is readable, permitted and answers),
  \<open>accepts\<close>, \<open>accepts_account\<close> and \<open>honours_drop\<close> (the server does what well-formed statements say); \<open>operational\<close>, \<open>user_world\<close> and \<open>user_operational\<close> put them
  together. The theorems on errors assume the failure instead (\<open>refuses_row\<close>, \<open>silent\<close>). Confinement, the cache, the order of the phases, panics and literals need none of the server. No
  definition uses fuel: every loop of the code runs over a list or a counter, and recursion is on that.

  Not modelled. Conflicts of concurrent updates are answers of the environment. Interleaving is modelled as steps of others between
  the requests of a pass; the connection cache is not shared within a pass (the unsynchronised map of \<open>main.go\<close> is a data
  race in Go and has no meaning to model). The memory model has no reuse of freed blocks, since Go's collector keeps
  whatever is reachable. Manifests and tests are not program logic. The JSON form of the resources, RBAC and the OpenAPI rules of
  the generated definitions are the API server's; the webhook's registration and the logger are libraries.
\<close>

section \<open>The whole operator\<close>

text \<open>
  C1: a schema that exists, that no managed row names and that is not the control database keeps existing, unchanged, and stays
  nobody's, through any sequence of passes of the three reconcilers over \<open>Database\<close> objects with plain names and any other objects, in any
  order, with panics, restarts and steps of others between the passes, and with a step \<open>turn\<close> of others before every single
  request of a pass (as long as the others leave the schema and its rows alone). The operator does not override, take
  over or drop what it did not make, however its passes are interleaved with what else happens.
\<close>

theorem foreign_schema_survives:
  assumes "(operator_step (interrupted turn E) (\<lambda>inst. plain_spec (db_Spec inst)) oku others)\<^sup>*\<^sup>* w w'"
    and "schemata_server E schemas rows" and "n \<noteq> []" and "n \<noteq> DatabaseName"
    and "\<And>s s'. others s s' \<Longrightarrow> foreign schemas rows n r s \<Longrightarrow> foreign schemas rows n r s'"
    and "\<And>s. foreign schemas rows n r s \<Longrightarrow> foreign schemas rows n r (turn s)"
    and "schemas (ext w) n = Some r"
    and "\<And>u row. rows (ext w) u = Some row \<Longrightarrow> md_DatabaseName row \<noteq> n"
  shows "schemas (ext w') n = Some r \<and> (\<forall>u row. rows (ext w') u = Some row \<longrightarrow> md_DatabaseName row \<noteq> n)"
proof -
  have "foreign schemas rows n r (ext w)"
    using assms(7,8) by (simp add: foreign_def)
  from run_out_of_reach [OF out_of_reach_interrupted [OF foreign_out_of_reach [OF assms(2-4)] assms(6)] assms(5,1) this]
  show ?thesis by (simp add: foreign_def)
qed

text \<open>
  A run in which the schema \<open>shop\<close> is someone else's and the \<open>Database\<close> that names it is reconciled for its deletion, while
  somebody makes a schema and an account of their own before each request.
\<close>

definition occupied_cluster :: cluster where
  "occupied_cluster = mine_cluster\<lparr>c_managed_databases := [], c_users := [sample_user]\<rparr>"

definition busy :: "cluster \<Rightarrow> cluster" where
  "busy s = snd (create_account ''bob'' (snd (create_schema ''blog'' s)))"

lemma busy_keeps:
  "foreign schema_named database_row n r s \<Longrightarrow> foreign schema_named database_row n r (busy s)"
  "foreign_account account_named user_row n a s \<Longrightarrow> foreign_account account_named user_row n a (busy s)"
  by (auto simp: busy_def foreign_def foreign_account_def create_account_def create_schema_def ok_def refused_def
      schema_named_def database_row_def account_named_def user_row_def find_append split: if_splits)

lemma foreign_schema_survives_witness:
  "schema_named (ext (final_world (database_Reconcile (interrupted busy sample_env)
       \<lparr>nn_Namespace = ''tenant1'', nn_Name = ''mydb''\<rparr> (world_of occupied_cluster)))) ''shop'' =
     Some \<lparr>sch_SchemaName = ''shop'', sch_DefaultCharacterSet = [], sch_DefaultCollation = []\<rparr>"
proof -
  let ?req = "\<lparr>nn_Namespace = ''tenant1'', nn_Name = ''mydb''\<rparr>" and ?E = "interrupted busy sample_env"
  have "fst (k_get_Database ?E ?req occupied_cluster) = Inr dying_database"
    by (simp add: interrupted_def seen_through_def busy_def create_account_def create_schema_def ok_def refused_def
        occupied_cluster_def mine_cluster_def found_def keyed_def dying_database_def meta_def)
  moreover have "plain_spec (db_Spec dying_database)"
    by (simp add: plain_spec_def plain_name_def plain_word_def dying_database_def sample_database_def)
  ultimately have "operator_step ?E (\<lambda>inst. plain_spec (db_Spec inst)) (\<lambda>_. True) (\<lambda>s s'. False)
      (world_of occupied_cluster) (final_world (database_Reconcile ?E ?req (world_of occupied_cluster)))"
    by (intro operator_step.database) (simp add: world_of_def)
  then have "(operator_step ?E (\<lambda>inst. plain_spec (db_Spec inst)) (\<lambda>_. True) (\<lambda>s s'. False))\<^sup>*\<^sup>*
      (world_of occupied_cluster) (final_world (database_Reconcile ?E ?req (world_of occupied_cluster)))"
    by (rule r_into_rtranclp)
  from foreign_schema_survives [OF this sample_server _ _ _ busy_keeps(1), of "''shop''"
      "\<lparr>sch_SchemaName = ''shop'', sch_DefaultCharacterSet = [], sch_DefaultCollation = []\<rparr>"]
  show ?thesis
    by (simp add: DatabaseName_def world_of_def occupied_cluster_def mine_cluster_def schema_named_def database_row_def)
qed

text \<open>
  C2: an account that exists and that no managed row names keeps existing, as it was, and stays nobody's, through any
  sequence of passes of the three reconcilers, with panics, restarts and steps of others between the passes and before every
  single request of a pass, as long as the others leave the account and its rows alone and no \<open>DatabaseUser\<close> comes to ask
  for the name after it has recorded another one.
\<close>

theorem foreign_account_survives:
  assumes "(operator_step (interrupted turn E) okd (asks_first n) others)\<^sup>*\<^sup>* w w'"
    and "accounts_server E accounts rows" and "n \<noteq> []"
    and "\<And>s s'. others s s' \<Longrightarrow> foreign_account accounts rows n a s \<Longrightarrow> foreign_account accounts rows n a s'"
    and "\<And>s. foreign_account accounts rows n a s \<Longrightarrow> foreign_account accounts rows n a (turn s)"
    and "accounts (ext w) n = Some a"
    and "\<And>u row. rows (ext w) u = Some row \<Longrightarrow> mu_Username row \<noteq> n"
  shows "accounts (ext w') n = Some a \<and> (\<forall>u row. rows (ext w') u = Some row \<longrightarrow> mu_Username row \<noteq> n)"
proof -
  have "foreign_account accounts rows n a (ext w)"
    using assms(6,7) by (simp add: foreign_account_def)
  from run_out_of_reach_account [OF account_out_of_reach_interrupted [OF foreign_account_out_of_reach [OF assms(2,3)] assms(5)]
      assms(3,4,1) this]
  show ?thesis by (simp add: foreign_account_def)
qed

text \<open>The account \<open>alice\<close> is someone else's, and a \<open>DatabaseUser\<close> of that name is reconciled.\<close>

lemma foreign_account_survives_witness:
  "account_named (ext (final_world (user_Reconcile (interrupted busy sample_env)
       \<lparr>nn_Namespace = ''tenant1'', nn_Name = ''alice''\<rparr> (world_of taken_cluster)))) ''alice'' =
     Some \<lparr>mysql_Host = ''%'', mysql_User = ''alice'', mysql_Plugin = ''sha256_password''\<rparr>"
proof -
  let ?req = "\<lparr>nn_Namespace = ''tenant1'', nn_Name = ''alice''\<rparr>" and ?E = "interrupted busy sample_env"
  have "fst (k_get_DatabaseUser ?E ?req taken_cluster) = Inr claiming_user"
    by (simp add: interrupted_def seen_through_def busy_def create_account_def create_schema_def ok_def refused_def
        sample_env_def taken_cluster_def found_def keyed_def claiming_user_def set_user_status_def meta_def)
  moreover have "asks_first ''alice'' claiming_user"
    by (simp add: asks_first_def claiming_user_def set_user_status_def status_username_def)
  ultimately have "operator_step ?E (\<lambda>_. True) (asks_first ''alice'') (\<lambda>s s'. False) (world_of taken_cluster)
      (final_world (user_Reconcile ?E ?req (world_of taken_cluster)))"
    by (intro operator_step.user) (simp add: world_of_def)
  then have "(operator_step ?E (\<lambda>_. True) (asks_first ''alice'') (\<lambda>s s'. False))\<^sup>*\<^sup>* (world_of taken_cluster)
      (final_world (user_Reconcile ?E ?req (world_of taken_cluster)))"
    by (rule r_into_rtranclp)
  from foreign_account_survives [OF this sample_accounts _ _ busy_keeps(2), of
      "\<lparr>mysql_Host = ''%'', mysql_User = ''alice'', mysql_Plugin = ''sha256_password''\<rparr>"]
  show ?thesis
    by (simp add: taken_cluster_def world_of_def account_named_def user_row_def sample_cluster_def empty_cluster_def)
qed

end
